(* ===== verification/Wire_Types.thy ===== *)
theory Wire_Types
  imports Slt_Prelude
begin

text \<open>
  Identifiers of the wire protocol: message types (\<open>slt-core/src/proto/types.rs\<close>), the
  enumerations carried as one byte in payloads (\<open>proto/payloads/*.rs\<close>), connection ids
  (\<open>types/cid.rs\<close>), client ids (\<open>types/client_id.rs\<close>) and IPv4 addresses, with the
  payload errors of \<open>proto/payloads/error.rs\<close>.  The byte enumerations share one
  contract, stated as the locale \<open>byte_enum\<close> and interpreted for each of them.
\<close>

section \<open>Message types\<close>

datatype message_type =
    TyAuth | TyAuthOk | TyAuthFail | TyRegisterCid | TyRegisterOk | TyRegisterFail
  | TyPing | TyPong | TyClose | TyData | TyUpgradeProbe | TyUpgradeProbeAck | TyUdpReady
  | TySwitchToUdp | TySwitchAck | TyFallbackToTcp | TyFallbackOk | TySwitchOk

fun message_type_to_u8 :: "message_type \<Rightarrow> u8" where
  "message_type_to_u8 TyAuth = 0x01"
| "message_type_to_u8 TyAuthOk = 0x02"
| "message_type_to_u8 TyAuthFail = 0x03"
| "message_type_to_u8 TyRegisterCid = 0x04"
| "message_type_to_u8 TyRegisterOk = 0x05"
| "message_type_to_u8 TyRegisterFail = 0x06"
| "message_type_to_u8 TyPing = 0x07"
| "message_type_to_u8 TyPong = 0x08"
| "message_type_to_u8 TyClose = 0x09"
| "message_type_to_u8 TyData = 0x0a"
| "message_type_to_u8 TyUpgradeProbe = 0x0b"
| "message_type_to_u8 TyUpgradeProbeAck = 0x0c"
| "message_type_to_u8 TyUdpReady = 0x0d"
| "message_type_to_u8 TySwitchToUdp = 0x0e"
| "message_type_to_u8 TySwitchAck = 0x0f"
| "message_type_to_u8 TyFallbackToTcp = 0x10"
| "message_type_to_u8 TyFallbackOk = 0x11"
| "message_type_to_u8 TySwitchOk = 0x12"

definition message_type_try_from :: "u8 \<Rightarrow> message_type option" where
  "message_type_try_from b =
     (if b = 0x01 then Some TyAuth
      else if b = 0x02 then Some TyAuthOk
      else if b = 0x03 then Some TyAuthFail
      else if b = 0x04 then Some TyRegisterCid
      else if b = 0x05 then Some TyRegisterOk
      else if b = 0x06 then Some TyRegisterFail
      else if b = 0x07 then Some TyPing
      else if b = 0x08 then Some TyPong
      else if b = 0x09 then Some TyClose
      else if b = 0x0a then Some TyData
      else if b = 0x0b then Some TyUpgradeProbe
      else if b = 0x0c then Some TyUpgradeProbeAck
      else if b = 0x0d then Some TyUdpReady
      else if b = 0x0e then Some TySwitchToUdp
      else if b = 0x0f then Some TySwitchAck
      else if b = 0x10 then Some TyFallbackToTcp
      else if b = 0x11 then Some TyFallbackOk
      else if b = 0x12 then Some TySwitchOk
      else None)"

section \<open>Enumerations of the payloads\<close>

datatype cipher_suite = Aes128Gcm | ChaCha20Poly1305

fun cipher_suite_to_u8 :: "cipher_suite \<Rightarrow> u8" where
  "cipher_suite_to_u8 Aes128Gcm = 0x01"
| "cipher_suite_to_u8 ChaCha20Poly1305 = 0x02"

definition cipher_suite_try_from :: "u8 \<Rightarrow> cipher_suite option" where
  "cipher_suite_try_from b =
     (if b = 0x01 then Some Aes128Gcm
      else if b = 0x02 then Some ChaCha20Poly1305
      else None)"

datatype auth_fail_code =
    AuthFailUnknown | UnknownClient | ClientDisabled | BadSignature | IpMismatch
  | ChallengeInvalid | MtuMismatch

fun auth_fail_code_to_u8 :: "auth_fail_code \<Rightarrow> u8" where
  "auth_fail_code_to_u8 AuthFailUnknown = 0x00"
| "auth_fail_code_to_u8 UnknownClient = 0x01"
| "auth_fail_code_to_u8 ClientDisabled = 0x02"
| "auth_fail_code_to_u8 BadSignature = 0x03"
| "auth_fail_code_to_u8 IpMismatch = 0x04"
| "auth_fail_code_to_u8 ChallengeInvalid = 0x05"
| "auth_fail_code_to_u8 MtuMismatch = 0x06"

definition auth_fail_code_try_from :: "u8 \<Rightarrow> auth_fail_code option" where
  "auth_fail_code_try_from b =
     (if b = 0x00 then Some AuthFailUnknown
      else if b = 0x01 then Some UnknownClient
      else if b = 0x02 then Some ClientDisabled
      else if b = 0x03 then Some BadSignature
      else if b = 0x04 then Some IpMismatch
      else if b = 0x05 then Some ChallengeInvalid
      else if b = 0x06 then Some MtuMismatch
      else None)"

datatype register_fail_code =
    RegisterFailUnknown | NotAuthenticated | RegisterInvalidCipher | InvalidCid | InvalidKeys

fun register_fail_code_to_u8 :: "register_fail_code \<Rightarrow> u8" where
  "register_fail_code_to_u8 RegisterFailUnknown = 0x00"
| "register_fail_code_to_u8 NotAuthenticated = 0x01"
| "register_fail_code_to_u8 RegisterInvalidCipher = 0x02"
| "register_fail_code_to_u8 InvalidCid = 0x03"
| "register_fail_code_to_u8 InvalidKeys = 0x04"

definition register_fail_code_try_from :: "u8 \<Rightarrow> register_fail_code option" where
  "register_fail_code_try_from b =
     (if b = 0x00 then Some RegisterFailUnknown
      else if b = 0x01 then Some NotAuthenticated
      else if b = 0x02 then Some RegisterInvalidCipher
      else if b = 0x03 then Some InvalidCid
      else if b = 0x04 then Some InvalidKeys
      else None)"

datatype close_code =
    CloseNormal | CloseAuthTimeout | CloseIdleTimeout | CloseProtocolError | CloseServerRestart

fun close_code_to_u8 :: "close_code \<Rightarrow> u8" where
  "close_code_to_u8 CloseNormal = 0x00"
| "close_code_to_u8 CloseAuthTimeout = 0x01"
| "close_code_to_u8 CloseIdleTimeout = 0x02"
| "close_code_to_u8 CloseProtocolError = 0x03"
| "close_code_to_u8 CloseServerRestart = 0x04"

definition close_code_try_from :: "u8 \<Rightarrow> close_code option" where
  "close_code_try_from b =
     (if b = 0x00 then Some CloseNormal
      else if b = 0x01 then Some CloseAuthTimeout
      else if b = 0x02 then Some CloseIdleTimeout
      else if b = 0x03 then Some CloseProtocolError
      else if b = 0x04 then Some CloseServerRestart
      else None)"

section \<open>Payload errors\<close>

datatype payload_error =
    LengthMismatch (expected: nat) (actual: nat)
  | LengthTooShort (min_len: nat) (actual: nat)
  | InvalidClientToServerCidLen nat
  | InvalidServerToClientCidLen nat
  | InvalidCipher u8
  | InvalidAuthFailCode u8
  | InvalidRegisterFailCode u8
  | InvalidCloseCode u8
  | InvalidKeyPhase u8

section \<open>Connection ids, client ids, addresses\<close>

definition MAX_DCID_LEN :: nat where
  "MAX_DCID_LEN = 20"

definition QUIC_DCID_PREFIX_LEN :: nat where
  "QUIC_DCID_PREFIX_LEN = 20"

record cid =
  cid_len_byte :: u8
  cid_bytes :: bytes

datatype cid_error = InvalidLen nat | TooShortForPrefix nat

definition cid_new :: "bytes \<Rightarrow> (cid, cid_error) result" where
  "cid_new bs =
     (if length bs > MAX_DCID_LEN then Err (InvalidLen (length bs))
      else Ok \<lparr>cid_len_byte = word_of_nat (length bs),
               cid_bytes = bs @ replicate (MAX_DCID_LEN - length bs) 0\<rparr>)"

definition cid_len :: "cid \<Rightarrow> nat" where
  "cid_len c = unat (cid_len_byte c)"

definition cid_as_slice :: "cid \<Rightarrow> bytes" where
  "cid_as_slice c = take (unat (cid_len_byte c)) (cid_bytes c)"

definition cid_is_empty :: "cid \<Rightarrow> bool" where
  "cid_is_empty c \<longleftrightarrow> cid_len_byte c = 0"

datatype cid_prefix = CidPrefix (prefix_bytes: bytes)

definition cid_prefix :: "cid \<Rightarrow> (cid_prefix, cid_error) result" where
  "cid_prefix c =
     (if cid_len c < QUIC_DCID_PREFIX_LEN then Err (TooShortForPrefix (cid_len c))
      else Ok (CidPrefix (take QUIC_DCID_PREFIX_LEN (cid_bytes c))))"

text \<open>The representation invariant every constructor of \<open>Cid\<close> establishes: a 20-byte
  buffer, a length of at most 20, and zeros after the id.\<close>

definition cid_wf :: "cid \<Rightarrow> bool" where
  "cid_wf c \<longleftrightarrow>
     length (cid_bytes c) = MAX_DCID_LEN \<and> cid_len c \<le> MAX_DCID_LEN \<and>
     drop (cid_len c) (cid_bytes c) = replicate (MAX_DCID_LEN - cid_len c) 0"

datatype client_id = ClientId (client_id_bytes: bytes)

datatype ipv4_addr = Ipv4Addr u8 u8 u8 u8

fun ipv4_octets :: "ipv4_addr \<Rightarrow> bytes" where
  "ipv4_octets (Ipv4Addr a b c d) = [a, b, c, d]"

section \<open>The contract of a byte enumeration\<close>

locale byte_enum =
  fixes to_u8 :: "'a \<Rightarrow> u8"
    and try_from :: "u8 \<Rightarrow> 'a option"
  assumes try_from_to_u8: "try_from (to_u8 x) = Some x"
    and to_u8_try_from: "try_from b = Some x \<Longrightarrow> to_u8 x = b"
begin

lemma try_from_Some_iff: "try_from b = Some x \<longleftrightarrow> b = to_u8 x"
  using try_from_to_u8 to_u8_try_from by blast

lemma to_u8_inject: "to_u8 x = to_u8 y \<longleftrightarrow> x = y"
  by (metis try_from_to_u8 option.inject)

lemma try_from_None_iff: "try_from b = None \<longleftrightarrow> b \<notin> range to_u8"
  by (metis (mono_tags, lifting) not_None_eq rangeE rangeI to_u8_try_from try_from_to_u8)

end

interpretation message_type_enum: byte_enum message_type_to_u8 message_type_try_from
proof
  fix x show "message_type_try_from (message_type_to_u8 x) = Some x"
    by (cases x) (simp_all add: message_type_try_from_def)
next
  fix b x assume "message_type_try_from b = Some x"
  then show "message_type_to_u8 x = b"
    by (auto simp: message_type_try_from_def split: if_splits)
qed

interpretation cipher_suite_enum: byte_enum cipher_suite_to_u8 cipher_suite_try_from
proof
  fix x show "cipher_suite_try_from (cipher_suite_to_u8 x) = Some x"
    by (cases x) (simp_all add: cipher_suite_try_from_def)
next
  fix b x assume "cipher_suite_try_from b = Some x"
  then show "cipher_suite_to_u8 x = b"
    by (auto simp: cipher_suite_try_from_def split: if_splits)
qed

interpretation auth_fail_enum: byte_enum auth_fail_code_to_u8 auth_fail_code_try_from
proof
  fix x show "auth_fail_code_try_from (auth_fail_code_to_u8 x) = Some x"
    by (cases x) (simp_all add: auth_fail_code_try_from_def)
next
  fix b x assume "auth_fail_code_try_from b = Some x"
  then show "auth_fail_code_to_u8 x = b"
    by (auto simp: auth_fail_code_try_from_def split: if_splits)
qed

interpretation register_fail_enum: byte_enum register_fail_code_to_u8 register_fail_code_try_from
proof
  fix x show "register_fail_code_try_from (register_fail_code_to_u8 x) = Some x"
    by (cases x) (simp_all add: register_fail_code_try_from_def)
next
  fix b x assume "register_fail_code_try_from b = Some x"
  then show "register_fail_code_to_u8 x = b"
    by (auto simp: register_fail_code_try_from_def split: if_splits)
qed

interpretation close_enum: byte_enum close_code_to_u8 close_code_try_from
proof
  fix x show "close_code_try_from (close_code_to_u8 x) = Some x"
    by (cases x) (simp_all add: close_code_try_from_def)
next
  fix b x assume "close_code_try_from b = Some x"
  then show "close_code_to_u8 x = b"
    by (auto simp: close_code_try_from_def split: if_splits)
qed

lemmas enum_roundtrips [simp, roundtrip_simps] =
  message_type_enum.try_from_to_u8 cipher_suite_enum.try_from_to_u8
  auth_fail_enum.try_from_to_u8 register_fail_enum.try_from_to_u8 close_enum.try_from_to_u8

section \<open>Facts about connection ids\<close>

lemma unat_byte_small: "n < 256 \<Longrightarrow> unat (word_of_nat n :: u8) = n"
  by (simp add: unat_of_nat)

lemma cid_new_Ok:
  assumes "length bs \<le> MAX_DCID_LEN"
  obtains c where "cid_new bs = Ok c" "cid_wf c" "cid_as_slice c = bs" "cid_len c = length bs"
proof
  let ?c = "\<lparr>cid_len_byte = word_of_nat (length bs),
             cid_bytes = bs @ replicate (MAX_DCID_LEN - length bs) 0\<rparr>"
  have n: "unat (word_of_nat (length bs) :: u8) = length bs"
    using assms by (intro unat_byte_small) (simp add: MAX_DCID_LEN_def)
  show "cid_new bs = Ok ?c" using assms by (simp add: cid_new_def)
  show "cid_wf ?c" using assms n by (simp add: cid_wf_def cid_len_def)
  show "cid_as_slice ?c = bs" using n by (simp add: cid_as_slice_def)
  show "cid_len ?c = length bs" using n by (simp add: cid_len_def)
qed

lemma cid_new_OkD:
  assumes "cid_new bs = Ok c"
  shows "length bs \<le> MAX_DCID_LEN" "cid_wf c" "cid_as_slice c = bs" "cid_len c = length bs"
proof -
  show le: "length bs \<le> MAX_DCID_LEN"
    using assms by (auto simp: cid_new_def split: if_splits)
  show "cid_wf c" "cid_as_slice c = bs" "cid_len c = length bs"
    using cid_new_Ok [OF le] assms by (metis sum.inject(2))+
qed

lemma cid_length_as_slice: "cid_wf c \<Longrightarrow> length (cid_as_slice c) = cid_len c"
  by (simp add: cid_as_slice_def cid_len_def cid_wf_def)

lemma cid_new_as_slice [roundtrip_simps]:
  assumes "cid_wf c"
  shows "cid_new (cid_as_slice c) = Ok c"
proof -
  have len: "length (cid_as_slice c) = cid_len c"
    using assms by (rule cid_length_as_slice)
  have "cid_bytes c = cid_as_slice c @ replicate (MAX_DCID_LEN - cid_len c) 0"
    using assms unfolding cid_wf_def cid_as_slice_def cid_len_def
    by (metis append_take_drop_id)
  moreover have "word_of_nat (cid_len c) = cid_len_byte c"
    by (simp add: cid_len_def)
  ultimately show ?thesis
    using assms by (simp add: cid_new_def len cid_wf_def)
qed

lemma cid_as_slice_inject: "cid_wf c \<Longrightarrow> cid_wf d \<Longrightarrow> cid_as_slice c = cid_as_slice d \<longleftrightarrow> c = d"
  by (metis cid_new_as_slice sum.inject(2))

lemma cid_prefix_full:
  assumes "cid_wf c"
  shows "cid_prefix c = Ok (CidPrefix (cid_as_slice c)) \<longleftrightarrow> cid_len c = MAX_DCID_LEN"
  using assms
  by (auto simp: cid_prefix_def cid_wf_def QUIC_DCID_PREFIX_LEN_def MAX_DCID_LEN_def
      cid_as_slice_def cid_len_def)

end
