(* ===== verification/Client_Hello.thy ===== *)
theory Client_Hello
  imports Wire_Types
begin

text \<open>
  The claim token an SLT client hides in the \<open>legacy_session_id\<close> of its TLS ClientHello
  (\<open>slt-core/src/crypto/client_hello.rs\<close>): an early candidate tag over the random and a claim
  tag over the whole message with the session ID zeroed.  HMAC-SHA256 is a parameter.  A filled
  token verifies, and a token that verifies is determined by the rest of the message.
\<close>

definition HANDSHAKE_TYPE_CLIENT_HELLO :: u8 where
  "HANDSHAKE_TYPE_CLIENT_HELLO = 0x01"

definition LEGACY_SESSION_ID_LEN :: nat where
  "LEGACY_SESSION_ID_LEN = 32"

definition TOKEN_PART_LEN :: nat where
  "TOKEN_PART_LEN = LEGACY_SESSION_ID_LEN div 2"

definition RANDOM_PREFIX_LEN :: nat where
  "RANDOM_PREFIX_LEN = 16"

definition MAX_TCP_CLIENT_HELLO_WIRE_LEN :: nat where
  "MAX_TCP_CLIENT_HELLO_WIRE_LEN = 8 * 1024"

definition CANDIDATE_LABEL :: bytes where
  "CANDIDATE_LABEL = ascii_bytes ''slt-tcp-candidate-v2''"

definition CLAIM_LABEL :: bytes where
  "CLAIM_LABEL = ascii_bytes ''slt-tcp-claim-v2''"

definition ZERO_SESSION_ID :: bytes where
  "ZERO_SESSION_ID = replicate LEGACY_SESSION_ID_LEN 0"

datatype client_hello_error =
    InvalidSessionIdLength nat nat
  | MalformedClientHello string
  | HmacFailed

record client_hello_layout =
  chl_random :: bytes
  chl_session_id_start :: nat

type_synonym hmac = "bytes \<Rightarrow> bytes \<Rightarrow> bytes option"

definition candidate_session_id_tag :: "hmac \<Rightarrow> bytes \<Rightarrow> bytes \<Rightarrow> bytes option" where
  "candidate_session_id_tag hmac random secret =
     map_option (take TOKEN_PART_LEN)
       (hmac secret (CANDIDATE_LABEL @ take RANDOM_PREFIX_LEN random))"

text \<open>The three length bytes are shifted apart, so their disjunction is a sum.\<close>

definition u24_from_be :: "u8 \<Rightarrow> u8 \<Rightarrow> u8 \<Rightarrow> nat" where
  "u24_from_be a b c = unat a * 65536 + unat b * 256 + unat c"

definition parse_client_hello_layout ::
    "bytes \<Rightarrow> (client_hello_layout, client_hello_error) result" where
  "parse_client_hello_layout client_hello =
     (if length client_hello < 4 then Err (MalformedClientHello ''missing handshake header'')
      else if client_hello ! 0 \<noteq> HANDSHAKE_TYPE_CLIENT_HELLO
      then Err (MalformedClientHello ''not a ClientHello handshake'')
      else
        let body_len = u24_from_be (client_hello ! 1) (client_hello ! 2) (client_hello ! 3);
            message_len = 4 + body_len
        in
        if length client_hello \<noteq> message_len
        then Err (MalformedClientHello ''handshake length does not match buffer'')
        else
          let random_start = 4 + 2;
              random_end = random_start + 32
          in
          if length client_hello < random_end
          then Err (MalformedClientHello ''missing ClientHello random'')
          else if length client_hello \<le> random_end
          then Err (MalformedClientHello ''missing legacy_session_id length'')
          else if unat (client_hello ! random_end) \<noteq> LEGACY_SESSION_ID_LEN
          then Err (MalformedClientHello ''legacy_session_id is not 32 bytes'')
          else
            let session_id_start = random_end + 1;
                session_id_end = session_id_start + LEGACY_SESSION_ID_LEN
            in
            if length client_hello < session_id_end
            then Err (MalformedClientHello ''truncated legacy_session_id'')
            else Ok \<lparr>chl_random = subslice random_start random_end client_hello,
                     chl_session_id_start = session_id_start\<rparr>)"

definition truncated_hmac :: "hmac \<Rightarrow> bytes \<Rightarrow> bytes \<Rightarrow> bytes list \<Rightarrow> bytes option" where
  "truncated_hmac hmac secret label parts =
     map_option (take TOKEN_PART_LEN) (hmac secret (label @ concat parts))"

definition complete_claim_tag ::
    "hmac \<Rightarrow> bytes \<Rightarrow> client_hello_layout \<Rightarrow> bytes \<Rightarrow> (bytes, client_hello_error) result" where
  "complete_claim_tag hmac client_hello layout secret =
     (let session_id_end = chl_session_id_start layout + LEGACY_SESSION_ID_LEN
      in ok_or HmacFailed
           (truncated_hmac hmac secret CLAIM_LABEL
              [take (chl_session_id_start layout) client_hello, ZERO_SESSION_ID,
               drop session_id_end client_hello]))"

definition verify_legacy_session_id ::
    "hmac \<Rightarrow> bytes \<Rightarrow> bytes \<Rightarrow> (bool, client_hello_error) result" where
  "verify_legacy_session_id hmac client_hello secret =
     bind_result (parse_client_hello_layout client_hello) (\<lambda>layout.
     let start = chl_session_id_start layout;
         session_id = subslice start (start + LEGACY_SESSION_ID_LEN) client_hello
     in
     bind_result (ok_or HmacFailed (candidate_session_id_tag hmac (chl_random layout) secret))
       (\<lambda>candidate.
     bind_result (complete_claim_tag hmac client_hello layout secret) (\<lambda>claim.
       Ok (take TOKEN_PART_LEN session_id = candidate \<and> drop TOKEN_PART_LEN session_id = claim))))"

text \<open>The result is the session ID after the call.\<close>

definition fill_legacy_session_id ::
    "hmac \<Rightarrow> bytes \<Rightarrow> bytes \<Rightarrow> bytes \<Rightarrow> (bytes, client_hello_error) result" where
  "fill_legacy_session_id hmac client_hello session_id secret =
     (if length session_id \<noteq> LEGACY_SESSION_ID_LEN
      then Err (InvalidSessionIdLength LEGACY_SESSION_ID_LEN (length session_id))
      else
        bind_result (parse_client_hello_layout client_hello) (\<lambda>layout.
        bind_result (ok_or HmacFailed (candidate_session_id_tag hmac (chl_random layout) secret))
          (\<lambda>candidate.
        if take TOKEN_PART_LEN session_id = candidate then Ok session_id
        else
          bind_result (complete_claim_tag hmac client_hello layout secret) (\<lambda>claim.
            Ok (candidate @ claim)))))"

text \<open>BoringSSL serializes the session ID at its place in the message.\<close>

definition SESSION_ID_START :: nat where
  "SESSION_ID_START = 39"

definition with_session_id :: "bytes \<Rightarrow> bytes \<Rightarrow> bytes" where
  "with_session_id client_hello session_id =
     take SESSION_ID_START client_hello @ session_id
       @ drop (SESSION_ID_START + LEGACY_SESSION_ID_LEN) client_hello"

text \<open>What the code relies on: HMAC-SHA256 gives 32 bytes.\<close>

definition hmac_ok :: "hmac \<Rightarrow> bool" where
  "hmac_ok hmac \<longleftrightarrow> (\<forall>k m. \<exists>h. hmac k m = Some h \<and> length h = 32)"

definition sample_client_hello :: bytes where
  "sample_client_hello = [1, 0, 0, 67, 3, 3] @ replicate 32 7 @ [32] @ replicate 32 0"

section \<open>The layout of a ClientHello\<close>

lemmas token_lens = LEGACY_SESSION_ID_LEN_def TOKEN_PART_LEN_def RANDOM_PREFIX_LEN_def
  SESSION_ID_START_def

lemma layout_OkD:
  assumes "parse_client_hello_layout ch = Ok l"
  shows "chl_session_id_start l = SESSION_ID_START" "chl_random l = subslice 6 38 ch"
    "SESSION_ID_START + LEGACY_SESSION_ID_LEN \<le> length ch"
    "length ch = 4 + u24_from_be (ch ! 1) (ch ! 2) (ch ! 3)"
    "ch ! 0 = HANDSHAKE_TYPE_CLIENT_HELLO" "unat (ch ! 38) = LEGACY_SESSION_ID_LEN"
  using assms
  by (auto simp: parse_client_hello_layout_def Let_def token_lens split: if_splits)

lemma layout_OkI:
  assumes "SESSION_ID_START + LEGACY_SESSION_ID_LEN \<le> length ch"
    "length ch = 4 + u24_from_be (ch ! 1) (ch ! 2) (ch ! 3)"
    "ch ! 0 = HANDSHAKE_TYPE_CLIENT_HELLO" "unat (ch ! 38) = LEGACY_SESSION_ID_LEN"
  shows "parse_client_hello_layout ch =
           Ok \<lparr>chl_random = subslice 6 38 ch, chl_session_id_start = SESSION_ID_START\<rparr>"
  using assms by (auto simp: parse_client_hello_layout_def Let_def token_lens)

text \<open>Only the session ID changes, so the layout, the random and the claim input do not.\<close>

lemma with_session_id_props:
  assumes "SESSION_ID_START + LEGACY_SESSION_ID_LEN \<le> length ch" "length sid = LEGACY_SESSION_ID_LEN"
  shows "length (with_session_id ch sid) = length ch"
    and "i < SESSION_ID_START \<Longrightarrow> with_session_id ch sid ! i = ch ! i"
    and "take SESSION_ID_START (with_session_id ch sid) = take SESSION_ID_START ch"
    and "drop (SESSION_ID_START + LEGACY_SESSION_ID_LEN) (with_session_id ch sid) =
           drop (SESSION_ID_START + LEGACY_SESSION_ID_LEN) ch"
    and "subslice SESSION_ID_START (SESSION_ID_START + LEGACY_SESSION_ID_LEN) (with_session_id ch sid) = sid"
    and "subslice 6 38 (with_session_id ch sid) = subslice 6 38 ch"
  using assms by (auto simp: with_session_id_def token_lens subslice_def nth_append drop_take)

lemma with_session_id_layout:
  assumes "parse_client_hello_layout ch = Ok l" "length sid = LEGACY_SESSION_ID_LEN"
  shows "parse_client_hello_layout (with_session_id ch sid) = Ok l"
proof -
  note l = layout_OkD [OF assms(1)]
  note w = with_session_id_props [OF l(3) assms(2)]
  have "parse_client_hello_layout (with_session_id ch sid) =
      Ok \<lparr>chl_random = subslice 6 38 (with_session_id ch sid), chl_session_id_start = SESSION_ID_START\<rparr>"
    using l w(1) w(2) [of 0] w(2) [of 1] w(2) [of 2] w(2) [of 3] w(2) [of 38]
    by (intro layout_OkI) (simp_all add: SESSION_ID_START_def)
  then show ?thesis using l(1,2) w(6) by simp
qed

lemma with_session_id_claim:
  assumes "parse_client_hello_layout ch = Ok l" "length sid = LEGACY_SESSION_ID_LEN"
  shows "complete_claim_tag hmac (with_session_id ch sid) l secret = complete_claim_tag hmac ch l secret"
  using layout_OkD [OF assms(1)] with_session_id_props [OF layout_OkD(3) [OF assms(1)] assms(2)]
  by (simp add: complete_claim_tag_def)

lemma hmac_okD:
  assumes "hmac_ok hmac"
  obtains h where "hmac k m = Some h" "length h = 32"
  using assms by (auto simp: hmac_ok_def)

lemma tags_Ok:
  assumes "hmac_ok hmac"
  obtains candidate claim where
    "candidate_session_id_tag hmac random secret = Some candidate" "length candidate = TOKEN_PART_LEN"
    "complete_claim_tag hmac ch l secret = Ok claim" "length claim = TOKEN_PART_LEN"
proof -
  obtain h where "hmac secret (CANDIDATE_LABEL @ take RANDOM_PREFIX_LEN random) = Some h" "length h = 32"
    using hmac_okD [OF assms] by blast
  moreover obtain h' where "hmac secret (CLAIM_LABEL @ concat
      [take (chl_session_id_start l) ch, ZERO_SESSION_ID,
       drop (chl_session_id_start l + LEGACY_SESSION_ID_LEN) ch]) = Some h'" "length h' = 32"
    using hmac_okD [OF assms] by blast
  ultimately show thesis
    using that [of "take TOKEN_PART_LEN h" "take TOKEN_PART_LEN h'"]
    by (simp add: candidate_session_id_tag_def complete_claim_tag_def truncated_hmac_def token_lens)
qed

section \<open>Properties\<close>

text \<open>C26: The token a client fills into a well-framed ClientHello that does not already carry the
  candidate tag verifies on the server once it stands in the message, for every HMAC with 32-byte
  results.\<close>

theorem filled_session_id_verifies:
  assumes "hmac_ok hmac" "parse_client_hello_layout ch = Ok l"
    and "length sid = LEGACY_SESSION_ID_LEN"
    and "candidate_session_id_tag hmac (chl_random l) secret \<noteq> Some (take TOKEN_PART_LEN sid)"
  shows "\<exists>token. fill_legacy_session_id hmac ch sid secret = Ok token \<and>
                 verify_legacy_session_id hmac (with_session_id ch token) secret = Ok True"
proof -
  obtain candidate claim where t:
      "candidate_session_id_tag hmac (chl_random l) secret = Some candidate"
      "length candidate = TOKEN_PART_LEN"
      "complete_claim_tag hmac ch l secret = Ok claim" "length claim = TOKEN_PART_LEN"
    using tags_Ok [OF assms(1)] by blast
  let ?token = "candidate @ claim"
  have len: "length ?token = LEGACY_SESSION_ID_LEN" using t by (simp add: token_lens)
  note l = layout_OkD [OF assms(2)]
  have "fill_legacy_session_id hmac ch sid secret = Ok ?token"
    using assms t by (auto simp: fill_legacy_session_id_def)
  moreover have "verify_legacy_session_id hmac (with_session_id ch ?token) secret = Ok True"
    using t(1,2,3) with_session_id_layout [OF assms(2) len] with_session_id_claim [OF assms(2) len]
      with_session_id_props(5) [OF l(3) len] l(1)
    by (simp add: verify_legacy_session_id_def)
  ultimately show ?thesis by blast
qed

theorem filled_session_id_verifies_witness:
  "\<exists>token. fill_legacy_session_id (\<lambda>k m. Some (replicate 32 9)) sample_client_hello
             (replicate 32 0) [1] = Ok token \<and>
           verify_legacy_session_id (\<lambda>k m. Some (replicate 32 9))
             (with_session_id sample_client_hello token) [1] = Ok True"
proof (rule filled_session_id_verifies)
  show "parse_client_hello_layout sample_client_hello =
      Ok \<lparr>chl_random = subslice 6 38 sample_client_hello, chl_session_id_start = SESSION_ID_START\<rparr>"
    by (intro layout_OkI)
      (simp_all add: sample_client_hello_def token_lens u24_from_be_def HANDSHAKE_TYPE_CLIENT_HELLO_def
        nth_append nth_Cons')
qed (simp_all add: hmac_ok_def candidate_session_id_tag_def token_lens replicate_eq_replicate)

text \<open>C27: A complete ClientHello verifies exactly when its framing is that of one ClientHello with
  a 32-byte session ID and the session ID is the candidate tag followed by the claim tag of the
  message with its session ID zeroed.\<close>

theorem verify_session_id_iff:
  assumes "hmac_ok hmac"
  shows "verify_legacy_session_id hmac ch secret = Ok True \<longleftrightarrow>
           (\<exists>l candidate claim.
              parse_client_hello_layout ch = Ok l \<and>
              candidate_session_id_tag hmac (subslice 6 38 ch) secret = Some candidate \<and>
              truncated_hmac hmac secret CLAIM_LABEL [with_session_id ch ZERO_SESSION_ID] = Some claim \<and>
              subslice SESSION_ID_START (SESSION_ID_START + LEGACY_SESSION_ID_LEN) ch = candidate @ claim)"
proof (cases "parse_client_hello_layout ch")
  case (Inl e)
  then show ?thesis by (simp add: verify_legacy_session_id_def)
next
  case (Inr l)
  note l = layout_OkD [OF Inr]
  obtain candidate claim where t:
      "candidate_session_id_tag hmac (chl_random l) secret = Some candidate"
      "length candidate = TOKEN_PART_LEN"
      "complete_claim_tag hmac ch l secret = Ok claim" "length claim = TOKEN_PART_LEN"
    using tags_Ok [OF assms] by blast
  have claim: "truncated_hmac hmac secret CLAIM_LABEL [with_session_id ch ZERO_SESSION_ID] = Some claim"
    using t(3) l(1) by (auto simp: complete_claim_tag_def truncated_hmac_def with_session_id_def)
  have "verify_legacy_session_id hmac ch secret = Ok True \<longleftrightarrow>
      take TOKEN_PART_LEN (subslice SESSION_ID_START (SESSION_ID_START + LEGACY_SESSION_ID_LEN) ch) = candidate \<and>
      drop TOKEN_PART_LEN (subslice SESSION_ID_START (SESSION_ID_START + LEGACY_SESSION_ID_LEN) ch) = claim"
    using Inr t(1,3) l(1) by (simp add: verify_legacy_session_id_def Let_def)
  also have "\<dots> \<longleftrightarrow> subslice SESSION_ID_START (SESSION_ID_START + LEGACY_SESSION_ID_LEN) ch = candidate @ claim"
    using t(2) by (metis append_eq_conv_conj append_take_drop_id)
  finally show ?thesis using Inr t(1) l(2) claim by auto
qed

theorem verify_session_id_iff_witness:
  "verify_legacy_session_id (\<lambda>k m. Some (replicate 32 0)) sample_client_hello [1] = Ok True"
proof -
  have ok: "hmac_ok (\<lambda>k m. Some (replicate 32 0))" by (simp add: hmac_ok_def)
  have l: "parse_client_hello_layout sample_client_hello =
      Ok \<lparr>chl_random = subslice 6 38 sample_client_hello, chl_session_id_start = SESSION_ID_START\<rparr>"
    by (intro layout_OkI)
      (simp_all add: sample_client_hello_def token_lens u24_from_be_def HANDSHAKE_TYPE_CLIENT_HELLO_def
        nth_append nth_Cons')
  have "subslice SESSION_ID_START (SESSION_ID_START + LEGACY_SESSION_ID_LEN) sample_client_hello =
      replicate TOKEN_PART_LEN 0 @ replicate TOKEN_PART_LEN 0"
    by (simp add: sample_client_hello_def token_lens subslice_def flip: replicate_add)
  then show ?thesis
    unfolding verify_session_id_iff [OF ok]
    by (simp add: l candidate_session_id_tag_def truncated_hmac_def token_lens)
qed

end
