(* ===== verification/Classifier.thy ===== *)
theory Classifier
  imports Client_Hello
begin

text \<open>
  Classification of new connections (\<open>slt-core/src/classifier.rs\<close>): QUIC datagrams by their
  first byte and connection-ID prefix, and TCP streams by the claim token of a TLS ClientHello
  that may be fragmented over records and may still be arriving.  The shared secret's HMAC is a
  parameter.

  A verdict other than \<open>Incomplete\<close> never changes when more bytes arrive, and a sealed
  ClientHello is claimed as soon as its last byte is there and not before, however it is
  fragmented.
\<close>

datatype verdict = Claim | Pass | Drop | Incomplete

datatype quic_verdict = QuicDrop | QuicPass | QuicShort cid_prefix

definition TLS_HANDSHAKE_CONTENT_TYPE :: u8 where
  "TLS_HANDSHAKE_CONTENT_TYPE = 0x16"

definition TLS_RECORD_HEADER_LEN :: nat where
  "TLS_RECORD_HEADER_LEN = 5"

definition classify_quic_datagram :: "bytes \<Rightarrow> quic_verdict" where
  "classify_quic_datagram input =
     (if input = [] then QuicDrop
      else
        let first = input ! 0;
            header_form_long = (first AND 0x80 \<noteq> 0);
            fixed_bit = (first AND 0x40 \<noteq> 0)
        in
        if \<not> fixed_bit then QuicDrop
        else if header_form_long then QuicPass
        else if length input < 1 + QUIC_DCID_PREFIX_LEN then QuicDrop
        else QuicShort (CidPrefix (subslice 1 (1 + QUIC_DCID_PREFIX_LEN) input)))"

section \<open>Readers\<close>

record record_reader =
  rr_pos :: nat
  rr_remaining :: nat

definition record_reader_new :: record_reader where
  "record_reader_new = \<lparr>rr_pos = 0, rr_remaining = 0\<rparr>"

definition next_record :: "bytes \<Rightarrow> record_reader \<Rightarrow> (record_reader, verdict) result" where
  "next_record buf r =
     (if rr_pos r + 5 > length buf then Err Incomplete
      else if buf ! rr_pos r \<noteq> TLS_HANDSHAKE_CONTENT_TYPE then Err Pass
      else
        let len = unat (u16_from_be_bytes [buf ! (rr_pos r + 3), buf ! (rr_pos r + 4)])
        in Ok \<lparr>rr_pos = rr_pos r + 5, rr_remaining = len\<rparr>)"

text \<open>The loop of \<open>RecordReader::read_exact\<close>: \<open>need\<close> bytes are still missing, \<open>out\<close> has been
  filled.\<close>

function record_read_loop ::
    "bytes \<Rightarrow> record_reader \<Rightarrow> nat \<Rightarrow> bytes \<Rightarrow> (bytes \<times> record_reader, verdict) result" where
  "record_read_loop buf r need out =
     (if need = 0 then Ok (out, r)
      else
        case (if rr_remaining r = 0 then next_record buf r else Ok r) of
          Inl v \<Rightarrow> Err v
        | Inr r \<Rightarrow>
            let available = length buf - rr_pos r in
            if available = 0 then Err Incomplete
            else
              let tk = min (min (rr_remaining r) need) available;
                  end_pos = rr_pos r + tk
              in record_read_loop buf
                   \<lparr>rr_pos = end_pos, rr_remaining = rr_remaining r - tk\<rparr> (need - tk)
                   (out @ subslice (rr_pos r) end_pos buf))"
  by pat_completeness auto

termination record_read_loop
  by (relation "measure (\<lambda>(buf, r, need, out). length buf - rr_pos r)")
    (auto simp: next_record_def split: if_splits)

declare record_read_loop.simps [simp del]

definition record_read_exact ::
    "bytes \<Rightarrow> record_reader \<Rightarrow> nat \<Rightarrow> (bytes \<times> record_reader, verdict) result" where
  "record_read_exact buf r n = record_read_loop buf r n []"

record handshake_reader =
  hr_record :: record_reader
  hr_remaining :: nat

definition handshake_read_exact ::
    "bytes \<Rightarrow> handshake_reader \<Rightarrow> nat \<Rightarrow> (bytes \<times> handshake_reader, verdict) result" where
  "handshake_read_exact buf h n =
     (if n > hr_remaining h then Err Pass
      else bind_result (record_read_exact buf (hr_record h) n) (\<lambda>(out, r).
             Ok (out, \<lparr>hr_record = r, hr_remaining = hr_remaining h - n\<rparr>)))"

function handshake_read_remaining_into ::
    "bytes \<Rightarrow> handshake_reader \<Rightarrow> bytes \<Rightarrow> (bytes \<times> handshake_reader, verdict) result" where
  "handshake_read_remaining_into buf h output =
     (if hr_remaining h > 0 then
        let len = min (hr_remaining h) 256 in
        case handshake_read_exact buf h len of
          Inl v \<Rightarrow> Err v
        | Inr (chunk, h) \<Rightarrow> handshake_read_remaining_into buf h (output @ chunk)
      else Ok (output, h))"
  by pat_completeness auto

termination handshake_read_remaining_into
  by (relation "measure (\<lambda>(buf, h, output). hr_remaining h)")
    (auto simp: handshake_read_exact_def split: if_splits)

declare handshake_read_remaining_into.simps [simp del]

definition wire_bytes_read :: "handshake_reader \<Rightarrow> nat" where
  "wire_bytes_read h = rr_pos (hr_record h)"

section \<open>The TCP classifier\<close>

text \<open>The verdict on the complete first ClientHello.\<close>

definition claim_verdict :: "hmac \<Rightarrow> bytes \<Rightarrow> bytes \<Rightarrow> verdict" where
  "claim_verdict hmac secret client_hello =
     (case verify_legacy_session_id hmac client_hello secret of
        Inr True \<Rightarrow> Claim
      | Inr False \<Rightarrow> Pass
      | Inl _ \<Rightarrow> Pass)"

definition classify_within_limit :: "hmac \<Rightarrow> bytes \<Rightarrow> bytes \<Rightarrow> (verdict, verdict) result" where
  "classify_within_limit hmac secret input =
     bind_result (record_read_exact input record_reader_new 4) (\<lambda>(handshake_header, record).
     if handshake_header ! 0 \<noteq> HANDSHAKE_TYPE_CLIENT_HELLO then Err Pass
     else
       let hs_len = u24_from_be (handshake_header ! 1) (handshake_header ! 2) (handshake_header ! 3);
           minimum_wire_len = TLS_RECORD_HEADER_LEN + length handshake_header + hs_len
       in
       if minimum_wire_len > MAX_TCP_CLIENT_HELLO_WIRE_LEN then Err Pass
       else
         bind_result (handshake_read_exact input
                        \<lparr>hr_record = record, hr_remaining = hs_len\<rparr> 2) (\<lambda>(legacy_version, hs).
         bind_result (handshake_read_exact input hs 32) (\<lambda>(random, hs).
         bind_result (handshake_read_exact input hs 1) (\<lambda>(session_id_len, hs).
         if unat (session_id_len ! 0) \<noteq> LEGACY_SESSION_ID_LEN then Err Pass
         else
           bind_result (handshake_read_exact input hs LEGACY_SESSION_ID_LEN) (\<lambda>(session_id, hs).
           case candidate_session_id_tag hmac random secret of
             None \<Rightarrow> Err Pass
           | Some candidate \<Rightarrow>
               if take TOKEN_PART_LEN session_id \<noteq> candidate then Err Pass
               else
                 bind_result (handshake_read_remaining_into input hs
                     (handshake_header @ legacy_version @ random @ session_id_len @ session_id))
                   (\<lambda>(client_hello, hs).
                     if wire_bytes_read hs > MAX_TCP_CLIENT_HELLO_WIRE_LEN then Err Pass
                     else Ok (claim_verdict hmac secret client_hello)))))))"

definition classify_tcp_client_hello_within_limit :: "hmac \<Rightarrow> bytes \<Rightarrow> bytes \<Rightarrow> verdict" where
  "classify_tcp_client_hello_within_limit hmac secret input =
     (case classify_within_limit hmac secret input of Inl v \<Rightarrow> v | Inr v \<Rightarrow> v)"

definition classify_tcp_client_hello :: "hmac \<Rightarrow> bytes \<Rightarrow> bytes \<Rightarrow> verdict" where
  "classify_tcp_client_hello hmac secret input =
     (let verdict = classify_tcp_client_hello_within_limit hmac secret input in
      if verdict = Incomplete \<and> length input \<ge> MAX_TCP_CLIENT_HELLO_WIRE_LEN then Pass
      else verdict)"

text \<open>A handshake message cut into TLS records.\<close>

definition tls_record :: "bytes \<Rightarrow> bytes" where
  "tls_record frag = [TLS_HANDSHAKE_CONTENT_TYPE, 3, 1] @ u16_to_be_bytes (word_of_nat (length frag)) @ frag"

definition tls_wire :: "bytes list \<Rightarrow> bytes" where
  "tls_wire frags = concat (map tls_record frags)"

text \<open>Where a reader stands in the wire image of fragments: \<open>P\<close> is the payload still ahead.\<close>

definition feeds :: "bytes \<Rightarrow> record_reader \<Rightarrow> bytes \<Rightarrow> bool" where
  "feeds wire r P \<longleftrightarrow>
     (\<exists>cur post. rr_pos r \<le> length wire \<and>
        drop (rr_pos r) wire = cur @ tls_wire post \<and> length cur = rr_remaining r \<and>
        P = cur @ concat post \<and> (\<forall>f \<in> set post. length f < 65536) \<and>
        (post \<noteq> [] \<longrightarrow> last post \<noteq> []))"

text \<open>The reads of the classifier without its checks.\<close>

definition read_hello :: "bytes \<Rightarrow> (bytes \<times> handshake_reader, verdict) result" where
  "read_hello input =
     bind_result (record_read_exact input record_reader_new 4) (\<lambda>(handshake_header, record).
     bind_result (handshake_read_exact input \<lparr>hr_record = record, hr_remaining =
         u24_from_be (handshake_header ! 1) (handshake_header ! 2) (handshake_header ! 3)\<rparr> 2)
       (\<lambda>(legacy_version, hs).
     bind_result (handshake_read_exact input hs 32) (\<lambda>(random, hs).
     bind_result (handshake_read_exact input hs 1) (\<lambda>(session_id_len, hs).
     bind_result (handshake_read_exact input hs LEGACY_SESSION_ID_LEN) (\<lambda>(session_id, hs).
       handshake_read_remaining_into input hs
         (handshake_header @ legacy_version @ random @ session_id_len @ session_id))))))"

text \<open>How a result may change when bytes are appended to the input: only \<open>Incomplete\<close> does, and
  \<open>Q\<close> holds of a success that was incomplete before.\<close>

definition grows :: "('a \<Rightarrow> bool) \<Rightarrow> ('a, verdict) result \<Rightarrow> ('a, verdict) result \<Rightarrow> bool" where
  "grows Q x y \<longleftrightarrow> y = x \<or> (x = Err Incomplete \<and> (\<forall>a. y = Ok a \<longrightarrow> Q a))"

definition mild :: "('a, verdict) result \<Rightarrow> bool" where
  "mild x \<longleftrightarrow> (\<forall>v. x = Err v \<longrightarrow> v = Pass \<or> v = Incomplete)"

text \<open>A one-byte read as two fallible steps.\<close>

definition enter_record :: "bytes \<Rightarrow> record_reader \<Rightarrow> (record_reader, verdict) result" where
  "enter_record buf r = (if rr_remaining r = 0 then next_record buf r else Ok r)"

definition take_byte :: "bytes \<Rightarrow> record_reader \<Rightarrow> (bytes \<times> record_reader, verdict) result" where
  "take_byte buf r =
     (if length buf \<le> rr_pos r then Err Incomplete
      else if rr_remaining r = 0 then record_read_loop buf r 1 []
      else Ok ([buf ! rr_pos r], \<lparr>rr_pos = rr_pos r + 1, rr_remaining = rr_remaining r - 1\<rparr>))"

section \<open>Reading byte by byte\<close>

lemma next_record_pos: "next_record buf r = Ok r' \<Longrightarrow> rr_pos r' = rr_pos r + 5 \<and> rr_pos r' \<le> length buf"
  by (auto simp: next_record_def split: if_splits)

lemma next_record_Err: "next_record buf r = Err v \<Longrightarrow> v = Pass \<or> v = Incomplete"
  by (auto simp: next_record_def split: if_splits)

text \<open>A longer read is a one-byte read followed by the rest.\<close>

lemma read_loop_chunk:
  fixes n rem pos :: nat and buf :: bytes
  assumes "0 < rem" "pos < length buf"
  defines "tk \<equiv> min (min rem (Suc n)) (length buf - pos)"
  shows "record_read_loop buf \<lparr>rr_pos = pos + tk, rr_remaining = rem - tk\<rparr> (Suc n - tk)
           (out @ subslice pos (pos + tk) buf) =
         record_read_loop buf \<lparr>rr_pos = pos + 1, rr_remaining = rem - 1\<rparr> n (out @ [buf ! pos])"
proof (cases "tk = 1")
  case True
  have "subslice pos (pos + 1) buf = [buf ! pos]"
    using assms(2) by (simp add: subslice_def take_Suc_conv_app_nth)
  with True show ?thesis by simp
next
  case False
  then have t: "1 < tk" using assms(1,2) unfolding tk_def by linarith
  then have c: "0 < n" "0 < rem - 1" "0 < length buf - (pos + 1)" "tk \<le> rem" "tk \<le> Suc n" "tk \<le> length buf - pos"
    by (auto simp: tk_def)
  have tk': "min (min (rem - 1) n) (length buf - (pos + 1)) = tk - 1"
    using assms(1,2) unfolding tk_def by linarith
  have "subslice pos (pos + tk) buf = [buf ! pos] @ subslice (pos + 1) (pos + tk) buf"
  proof -
    have "drop pos buf = buf ! pos # drop (pos + 1) buf" using assms(2) by (simp add: Cons_nth_drop_Suc)
    then show ?thesis using t by (simp add: subslice_def take_Cons')
  qed
  with c tk' t show ?thesis
    by (subst (2) record_read_loop.simps) simp
qed

lemmas read_loop_0 = record_read_loop.simps [of _ _ 0, simplified]

lemma read_loop_enter:
  "record_read_loop buf r (Suc n) out = bind_result (enter_record buf r) (\<lambda>r1.
     if length buf \<le> rr_pos r1 then Err Incomplete
     else let tk = min (min (rr_remaining r1) (Suc n)) (length buf - rr_pos r1)
          in record_read_loop buf \<lparr>rr_pos = rr_pos r1 + tk, rr_remaining = rr_remaining r1 - tk\<rparr>
               (Suc n - tk) (out @ subslice (rr_pos r1) (rr_pos r1 + tk) buf))"
  by (subst record_read_loop.simps) (simp add: enter_record_def Let_def split: sum.split)

lemma read_one_bind: "record_read_loop buf r 1 [] = bind_result (enter_record buf r) (take_byte buf)"
proof (cases "enter_record buf r")
  case (Inr r1)
  obtain p q where r1: "r1 = \<lparr>rr_pos = p, rr_remaining = q\<rparr>" by (cases r1) auto
  have s: "subslice p (Suc p) buf = [buf ! p]" if "p < length buf"
    using that by (simp add: subslice_def take_Suc_conv_app_nth)
  have "min (min q 1) (length buf - p) = 1" if "0 < q" "p < length buf" using that by linarith
  then show ?thesis
    using Inr r1 s
    by (cases "q = 0") (auto simp: read_loop_enter [where n = 0, simplified] take_byte_def
        read_loop_0 Let_def subslice_def)
qed (simp add: read_loop_enter [where n = 0, simplified])

lemma enter_record_pos: "enter_record buf r = Ok r1 \<Longrightarrow> rr_pos r \<le> rr_pos r1 \<and> (rr_remaining r1 = 0 \<longrightarrow> rr_pos r < rr_pos r1)"
  by (auto simp: enter_record_def dest: next_record_pos split: if_splits)

lemma read_loop_Suc:
  "record_read_loop buf r (Suc n) out =
     bind_result (record_read_loop buf r 1 []) (\<lambda>(b, r'). record_read_loop buf r' n (out @ b))"
proof (induction "length buf - rr_pos r" arbitrary: r rule: less_induct)
  case less
  show ?case
  proof (cases "enter_record buf r")
    case (Inl v)
    then show ?thesis by (simp add: read_one_bind read_loop_enter)
  next
    case (Inr r1)
    obtain p q where r1: "r1 = \<lparr>rr_pos = p, rr_remaining = q\<rparr>" by (cases r1) auto
    note unf = read_loop_enter [of buf r n out, unfolded Inr r1, simplified]
    note one = read_one_bind [of buf r, unfolded Inr r1, simplified]
    consider (over) "length buf \<le> p" | (empty) "p < length buf" "q = 0" | (byte) "p < length buf" "0 < q"
      by linarith
    then show ?thesis
    proof cases
      case over
      then show ?thesis by (simp add: unf one take_byte_def)
    next
      case empty
      then have "length buf - rr_pos r1 < length buf - rr_pos r"
        using enter_record_pos [OF Inr] r1 by (simp add: diff_less_mono2)
      from less [OF this] empty r1 show ?thesis by (simp add: unf one take_byte_def subslice_def)
    next
      case byte
      then show ?thesis
        using read_loop_chunk [of q p buf n out] by (simp add: unf one take_byte_def Let_def)
    qed
  qed
qed

lemma read_one_Ok:
  "record_read_loop buf r 1 [] = Ok (b, r') \<Longrightarrow>
     length b = 1 \<and> rr_pos r < rr_pos r' \<and> rr_pos r' \<le> length buf"
proof (induction "length buf - rr_pos r" arbitrary: r rule: less_induct)
  case less
  then obtain r1 where r1: "enter_record buf r = Ok r1" "take_byte buf r1 = Ok (b, r')"
    unfolding read_one_bind bind_result_Inr by blast
  note pos = enter_record_pos [OF r1(1)]
  show ?case
  proof (cases "rr_remaining r1 = 0")
    case True
    then have "record_read_loop buf r1 1 [] = Ok (b, r')" "length buf - rr_pos r1 < length buf - rr_pos r"
      using r1(2) pos by (auto simp: take_byte_def split: if_splits)
    with less.hyps pos show ?thesis by fastforce
  next
    case False
    with r1(2) have "b = [buf ! rr_pos r1]" "rr_pos r' = rr_pos r1 + 1" "rr_pos r1 < length buf"
      by (auto simp: take_byte_def split: if_splits)
    with pos show ?thesis by simp
  qed
qed

lemma take_byte_pos: "take_byte buf r = Ok (b, r') \<Longrightarrow> rr_pos r < rr_pos r'"
  using read_one_Ok [of buf r b r'] by (auto simp: take_byte_def split: if_splits)

lemma read_loop_Ok:
  "record_read_loop buf r n out = Ok (bs, r') \<Longrightarrow>
     length bs = length out + n \<and> rr_pos r \<le> rr_pos r' \<and> (rr_pos r \<le> length buf \<longrightarrow> rr_pos r' \<le> length buf)"
proof (induction n arbitrary: r out)
  case 0
  then show ?case by (simp add: read_loop_0)
next
  case (Suc n)
  then obtain b r1 where r1: "record_read_loop buf r 1 [] = Ok (b, r1)"
      "record_read_loop buf r1 n (out @ b) = Ok (bs, r')"
    unfolding read_loop_Suc by auto
  from Suc.IH [OF r1(2)] read_one_Ok [OF r1(1)] show ?case by simp
qed

section \<open>Appended bytes\<close>

lemma grows_refl [simp]: "grows Q x x"
  by (simp add: grows_def)

lemma grows_bind:
  assumes "grows Q x y" "\<And>a. x = Ok a \<Longrightarrow> grows Q' (f a) (g a)"
    and "\<And>a b. Q a \<Longrightarrow> g a = Ok b \<Longrightarrow> Q' b"
  shows "grows Q' (bind_result x f) (bind_result y g)"
  using assms by (cases x) (fastforce simp: grows_def)+

lemma next_record_grows:
  "grows (\<lambda>r'. length buf < rr_pos r') (next_record buf r) (next_record (buf @ ext) r)"
  by (auto simp: grows_def next_record_def nth_append Let_def)

lemma read_one_grows:
  "grows (\<lambda>(b, r'). length buf < rr_pos r')
     (record_read_loop buf r 1 []) (record_read_loop (buf @ ext) r 1 [])"
proof (induction "length buf - rr_pos r" arbitrary: r rule: less_induct)
  case less
  have enter: "grows (\<lambda>r'. length buf < rr_pos r') (enter_record buf r) (enter_record (buf @ ext) r)"
    using next_record_grows [of buf r ext] by (simp add: enter_record_def)
  show ?case
    unfolding read_one_bind
  proof (rule grows_bind [OF enter])
    fix r1 assume r1: "enter_record buf r = Ok r1"
    consider (over) "length buf \<le> rr_pos r1" | (empty) "rr_pos r1 < length buf" "rr_remaining r1 = 0"
      | (byte) "rr_pos r1 < length buf" "0 < rr_remaining r1"
      by linarith
    then show "grows (\<lambda>(b, r'). length buf < rr_pos r') (take_byte buf r1) (take_byte (buf @ ext) r1)"
    proof cases
      case over
      have "length buf < rr_pos r'" if "take_byte (buf @ ext) r1 = Ok (b, r')" for b r'
        using take_byte_pos [OF that] over by simp
      with over show ?thesis by (auto simp: grows_def take_byte_def)
    next
      case empty
      then have "length buf - rr_pos r1 < length buf - rr_pos r"
        using enter_record_pos [OF r1] by (simp add: diff_less_mono2)
      from less [OF this] empty show ?thesis by (simp add: take_byte_def)
    next
      case byte
      then show ?thesis by (simp add: take_byte_def nth_append)
    qed
  next
    fix r1 b assume "length buf < rr_pos r1" "take_byte (buf @ ext) r1 = Ok b"
    then show "case b of (b, r') \<Rightarrow> length buf < rr_pos r'"
      using take_byte_pos [of "buf @ ext" r1 "fst b" "snd b"] by (simp add: case_prod_beta)
  qed
qed

lemma read_loop_grows:
  "grows (\<lambda>(b, r'). length buf < rr_pos r')
     (record_read_loop buf r n out) (record_read_loop (buf @ ext) r n out)"
proof (induction n arbitrary: r out)
  case 0
  then show ?case by (simp add: read_loop_0)
next
  case (Suc n)
  show ?case
    unfolding read_loop_Suc
    by (rule grows_bind [OF read_one_grows]) (use Suc in \<open>auto dest!: read_loop_Ok\<close>)
qed

text \<open>The position in the input after a handshake read.\<close>

abbreviation past :: "bytes \<Rightarrow> 'a \<times> handshake_reader \<Rightarrow> bool" where
  "past buf \<equiv> \<lambda>(b, h). length buf < wire_bytes_read h"

lemma handshake_read_Ok:
  "handshake_read_exact buf h n = Ok (bs, h') \<Longrightarrow>
     length bs = n \<and> hr_remaining h' = hr_remaining h - n \<and> n \<le> hr_remaining h \<and>
     wire_bytes_read h \<le> wire_bytes_read h' \<and>
     (wire_bytes_read h \<le> length buf \<longrightarrow> wire_bytes_read h' \<le> length buf)"
  by (auto simp: handshake_read_exact_def record_read_exact_def wire_bytes_read_def
      dest!: read_loop_Ok split: if_splits)

lemma handshake_read_grows:
  "grows (past buf) (handshake_read_exact buf h n) (handshake_read_exact (buf @ ext) h n)"
  by (auto simp: handshake_read_exact_def record_read_exact_def wire_bytes_read_def
      intro!: grows_bind [OF read_loop_grows])

lemma read_remaining_step:
  "0 < hr_remaining h \<Longrightarrow> handshake_read_remaining_into buf h out =
     bind_result (handshake_read_exact buf h (min (hr_remaining h) 256))
       (\<lambda>(chunk, h). handshake_read_remaining_into buf h (out @ chunk))"
  by (subst handshake_read_remaining_into.simps) (auto simp: Let_def split: sum.split)

lemma read_remaining_0:
  "hr_remaining h = 0 \<Longrightarrow> handshake_read_remaining_into buf h out = Ok (out, h)"
  by (subst handshake_read_remaining_into.simps) simp

lemma read_remaining_Ok:
  "handshake_read_remaining_into buf h out = Ok (bs, h') \<Longrightarrow>
     wire_bytes_read h \<le> wire_bytes_read h' \<and>
     (wire_bytes_read h \<le> length buf \<longrightarrow> wire_bytes_read h' \<le> length buf)"
proof (induction "hr_remaining h" arbitrary: h out rule: less_induct)
  case less
  show ?case
  proof (cases "hr_remaining h = 0")
    case True
    then show ?thesis using less.prems by (simp add: read_remaining_0)
  next
    case False
    then obtain c h1 where h1: "handshake_read_exact buf h (min (hr_remaining h) 256) = Ok (c, h1)"
        "handshake_read_remaining_into buf h1 (out @ c) = Ok (bs, h')"
      using less.prems by (auto simp: read_remaining_step)
    note r = handshake_read_Ok [OF h1(1)]
    then have "hr_remaining h1 < hr_remaining h" using False by simp
    from less.hyps [OF this h1(2)] r show ?thesis by linarith
  qed
qed

lemma read_remaining_grows:
  "grows (past buf) (handshake_read_remaining_into buf h out)
     (handshake_read_remaining_into (buf @ ext) h out)"
proof (induction "hr_remaining h" arbitrary: h out rule: less_induct)
  case less
  show ?case
  proof (cases "hr_remaining h = 0")
    case False
    then have pos: "0 < hr_remaining h" by simp
    show ?thesis
      unfolding read_remaining_step [OF pos]
    proof (rule grows_bind [OF handshake_read_grows])
      fix a assume "handshake_read_exact buf h (min (hr_remaining h) 256) = Ok a"
      then have "hr_remaining (snd a) < hr_remaining h"
        using pos handshake_read_Ok [of buf h _ "fst a" "snd a"] by simp
      from less [OF this] show "grows (past buf)
          (case a of (c, h) \<Rightarrow> handshake_read_remaining_into buf h (out @ c))
          (case a of (c, h) \<Rightarrow> handshake_read_remaining_into (buf @ ext) h (out @ c))"
        by (simp add: case_prod_beta)
    next
      fix a b assume "past buf a"
        "(case a of (c, h) \<Rightarrow> handshake_read_remaining_into (buf @ ext) h (out @ c)) = Ok b"
      then show "past buf b"
        using read_remaining_Ok [of "buf @ ext" "snd a" "out @ fst a" "fst b" "snd b"]
        by (simp add: case_prod_beta)
    qed
  qed (simp add: read_remaining_0)
qed

lemma grows_if: "grows Q x y \<Longrightarrow> grows Q (if c then z else x) (if c then z else y)"
  by simp

lemma grows_option:
  "(\<And>a. opt = Some a \<Longrightarrow> grows Q (f a) (g a)) \<Longrightarrow>
     grows Q (case opt of None \<Rightarrow> z | Some a \<Rightarrow> f a) (case opt of None \<Rightarrow> z | Some a \<Rightarrow> g a)"
  by (cases opt) auto

lemma grows_handshake_bind:
  assumes "\<And>b h'. handshake_read_exact buf h n = Ok (b, h') \<Longrightarrow> grows Q (f b h') (g b h')"
    and "\<And>b h' c. length buf < wire_bytes_read h' \<Longrightarrow> g b h' = Ok c \<Longrightarrow> Q c"
  shows "grows Q (bind_result (handshake_read_exact buf h n) (\<lambda>(b, h'). f b h'))
                 (bind_result (handshake_read_exact (buf @ ext) h n) (\<lambda>(b, h'). g b h'))"
  using assms by (intro grows_bind [OF handshake_read_grows]) auto

lemma guard_Ok: "(if c then Err e else x) = Ok b \<longleftrightarrow> \<not> c \<and> x = Ok b"
  by simp

lemma let_else_Ok:
  "(case opt of None \<Rightarrow> Err e | Some a \<Rightarrow> f a) = Ok b \<longleftrightarrow> (\<exists>a. opt = Some a \<and> f a = Ok b)"
  by (cases opt) auto

lemmas success_simps = guard_Ok let_else_Ok bind_result_Inr split_paired_Ex prod.case

lemma within_limit_grows:
  "grows (\<lambda>_. length buf < MAX_TCP_CLIENT_HELLO_WIRE_LEN)
     (classify_within_limit hmac secret buf) (classify_within_limit hmac secret (buf @ ext))"
  unfolding classify_within_limit_def Let_def record_read_exact_def
  apply (rule grows_bind [OF read_loop_grows])
   apply (auto simp: guard_Ok let_else_Ok
      intro!: grows_handshake_bind grows_option grows_bind [OF read_remaining_grows]
      dest!: handshake_read_Ok read_remaining_Ok)[1]
  apply (auto simp: guard_Ok let_else_Ok wire_bytes_read_def dest!: handshake_read_Ok read_remaining_Ok)[1]
  done

text \<open>A read fails with \<open>Pass\<close> or \<open>Incomplete\<close>, never with \<open>Drop\<close>.\<close>

lemma mild_bind:
  "mild x \<Longrightarrow> (\<And>a. x = Ok a \<Longrightarrow> mild (f a)) \<Longrightarrow> mild (bind_result x f)"
  by (cases x) (auto simp: mild_def)

lemma mild_simps [simp]: "mild (Ok a)" "mild (Err Pass)" "mild (Err Incomplete)"
  by (simp_all add: mild_def)

lemma read_one_mild: "mild (record_read_loop buf r 1 [])"
proof (induction "length buf - rr_pos r" arbitrary: r rule: less_induct)
  case less
  have "mild (enter_record buf r)"
    by (simp add: enter_record_def next_record_def Let_def)
  then show ?case
    unfolding read_one_bind
  proof (rule mild_bind)
    fix r1 assume "enter_record buf r = Ok r1"
    then show "mild (take_byte buf r1)"
      using enter_record_pos [of buf r r1] less [of r1] by (auto simp: take_byte_def diff_less_mono2)
  qed
qed

lemma read_loop_mild: "mild (record_read_loop buf r n out)"
proof (induction n arbitrary: r out)
  case 0
  then show ?case by (simp add: read_loop_0)
next
  case (Suc n)
  then show ?case unfolding read_loop_Suc by (intro mild_bind read_one_mild) auto
qed

lemma handshake_read_mild: "mild (handshake_read_exact buf h n)"
  by (auto simp: handshake_read_exact_def record_read_exact_def intro!: mild_bind read_loop_mild)

lemma read_remaining_mild: "mild (handshake_read_remaining_into buf h out)"
proof (induction "hr_remaining h" arbitrary: h out rule: less_induct)
  case less
  show ?case
  proof (cases "hr_remaining h = 0")
    case False
    then show ?thesis
      by (auto simp: read_remaining_step intro!: mild_bind [OF handshake_read_mild] less
          dest!: handshake_read_Ok)
  qed (simp add: read_remaining_0)
qed

lemma claim_verdict_cases: "claim_verdict hmac secret ch = Claim \<or> claim_verdict hmac secret ch = Pass"
  by (auto simp: claim_verdict_def split: sum.split bool.split)

lemma within_limit_mild: "mild (classify_within_limit hmac secret buf)"
  by (auto simp: classify_within_limit_def record_read_exact_def Let_def split: option.split
      intro!: mild_bind read_loop_mild handshake_read_mild read_remaining_mild)

lemma within_limit_Ok:
  "classify_within_limit hmac secret buf = Ok v \<Longrightarrow> v = Claim \<or> v = Pass"
  using claim_verdict_cases by (auto simp: classify_within_limit_def Let_def guard_Ok let_else_Ok)

lemma classify_grows:
  assumes "classify_tcp_client_hello hmac secret buf \<noteq> Incomplete"
  shows "classify_tcp_client_hello hmac secret (buf @ ext) = classify_tcp_client_hello hmac secret buf"
proof -
  let ?x = "classify_within_limit hmac secret buf" and ?y = "classify_within_limit hmac secret (buf @ ext)"
  have "?y = ?x \<or> ?x = Err Incomplete \<and> (\<forall>a. ?y = Ok a \<longrightarrow> length buf < MAX_TCP_CLIENT_HELLO_WIRE_LEN)"
    using within_limit_grows [of buf hmac secret ext] by (simp add: grows_def)
  then show ?thesis
    using assms within_limit_mild [of hmac secret "buf @ ext"] within_limit_Ok [of hmac secret buf]
    by (cases ?y; cases ?x)
      (auto simp: mild_def classify_tcp_client_hello_def classify_tcp_client_hello_within_limit_def
        Let_def split: if_splits)
qed

section \<open>A fragmented ClientHello\<close>

lemma tls_wire_simps [simp]:
  "tls_wire [] = []" "tls_wire (f # fs) = tls_record f @ tls_wire fs"
  by (simp_all add: tls_wire_def)

lemma feeds_start:
  assumes "\<forall>f \<in> set frags. length f < 65536" "frags \<noteq> [] \<longrightarrow> last frags \<noteq> []"
  shows "feeds (tls_wire frags) record_reader_new (concat frags)"
  unfolding feeds_def
  by (rule exI [of _ "[]"], rule exI [of _ frags]) (use assms in \<open>simp add: record_reader_new_def\<close>)

lemma feeds_end: "feeds wire r [] \<Longrightarrow> rr_pos r = length wire"
proof -
  assume "feeds wire r []"
  then obtain post where post: "rr_pos r \<le> length wire" "drop (rr_pos r) wire = tls_wire post"
      "concat post = []" "post \<noteq> [] \<longrightarrow> last post \<noteq> []"
    unfolding feeds_def by (metis Nil_is_append_conv append_Nil)
  then have "post = []" using last_in_set [of post] by auto
  with post show ?thesis by simp
qed

lemma next_record_feeds:
  assumes "drop (rr_pos r) wire = tls_record f @ rest" "length f < 65536"
  shows "next_record wire r = Ok \<lparr>rr_pos = rr_pos r + 5, rr_remaining = length f\<rparr>"
    and "drop (rr_pos r + 5) wire = f @ rest" and "rr_pos r + 5 \<le> length wire"
proof -
  let ?len = "u16_to_be_bytes (word_of_nat (length f))"
  have rec: "tls_record f = [TLS_HANDSHAKE_CONTENT_TYPE, 3, 1] @ [?len ! 0, ?len ! 1] @ f"
    by (simp add: tls_record_def u16_to_be_bytes_def numeral_2_eq_2)
  have d: "drop (rr_pos r) wire = TLS_HANDSHAKE_CONTENT_TYPE # 3 # 1 # ?len ! 0 # ?len ! 1 # f @ rest"
    using assms(1) unfolding rec by simp
  have n: "wire ! (rr_pos r + i) = drop (rr_pos r) wire ! i" if "rr_pos r \<le> length wire" for i
    using that by simp
  have len: "length (drop (rr_pos r) wire) = 5 + length f + length rest" unfolding d by simp
  then show le: "rr_pos r + 5 \<le> length wire" by simp
  have "drop (rr_pos r + 5) wire = drop 5 (drop (rr_pos r) wire)" by (simp add: add.commute)
  also have "\<dots> = f @ rest" unfolding d by simp
  finally show "drop (rr_pos r + 5) wire = f @ rest" .
  have "[?len ! 0, ?len ! 1] = ?len" by (simp add: u16_to_be_bytes_def numeral_2_eq_2)
  then have "unat (u16_from_be_bytes [?len ! 0, ?len ! 1]) = length f"
    using assms(2) by (simp add: unat_of_nat)
  moreover have "wire ! rr_pos r = TLS_HANDSHAKE_CONTENT_TYPE" "wire ! (rr_pos r + 3) = ?len ! 0"
      "wire ! (rr_pos r + 4) = ?len ! 1"
    using le n [of 0] n [of 3] n [of 4] unfolding d by simp_all
  ultimately show "next_record wire r = Ok \<lparr>rr_pos = rr_pos r + 5, rr_remaining = length f\<rparr>"
    using le by (simp add: next_record_def)
qed

lemma feedsI:
  assumes "rr_pos r \<le> length wire" "drop (rr_pos r) wire = cur @ tls_wire post"
    "length cur = rr_remaining r" "P = cur @ concat post" "\<forall>f \<in> set post. length f < 65536"
    "post \<noteq> [] \<longrightarrow> last post \<noteq> []"
  shows "feeds wire r P"
  using assms unfolding feeds_def by blast

lemma read_one_feeds:
  "feeds wire r (b # P) \<Longrightarrow> \<exists>r'. record_read_loop wire r 1 [] = Ok ([b], r') \<and> feeds wire r' P"
proof (induction "length wire - rr_pos r" arbitrary: r rule: less_induct)
  case less
  then obtain cur post where c: "rr_pos r \<le> length wire" "drop (rr_pos r) wire = cur @ tls_wire post"
      "length cur = rr_remaining r" "b # P = cur @ concat post" "\<forall>f \<in> set post. length f < 65536"
      "post \<noteq> [] \<longrightarrow> last post \<noteq> []"
    unfolding feeds_def by blast
  have byte: "\<exists>r'. take_byte wire s = Ok ([b], r') \<and> feeds wire r' P"
    if s: "drop (rr_pos s) wire = x # xs @ tls_wire fs" "rr_remaining s = Suc (length xs)"
      "b # P = (x # xs) @ concat fs" "\<forall>f \<in> set fs. length f < 65536" "fs \<noteq> [] \<longrightarrow> last fs \<noteq> []"
    for s x xs fs
  proof -
    have lt: "rr_pos s < length wire" using s(1) by (metis drop_all list.distinct(1) not_le)
    then have "wire ! rr_pos s = x" "drop (Suc (rr_pos s)) wire = xs @ tls_wire fs"
      using s(1) by (simp_all add: Cons_nth_drop_Suc [symmetric])
    with lt s show ?thesis
      by (auto simp: take_byte_def intro!: feedsI [where cur = xs and post = fs])
  qed
  show ?case
  proof (cases cur)
    case (Cons x xs)
    then show ?thesis
      using byte [of r x xs post] c unfolding read_one_bind by (simp add: enter_record_def)
  next
    case Nil
    then obtain f fs where post: "post = f # fs" using c(4) by (cases post) auto
    let ?r1 = "\<lparr>rr_pos = rr_pos r + 5, rr_remaining = length f\<rparr>"
    note n = next_record_feeds [of r wire f "tls_wire fs"]
    have d: "drop (rr_pos r) wire = tls_record f @ tls_wire fs" "length f < 65536"
      using c post Nil by simp_all
    note n = n [OF d]
    have enter: "enter_record wire r = Ok ?r1" using n(1) c(3) Nil by (simp add: enter_record_def)
    have fs: "fs \<noteq> [] \<longrightarrow> last fs \<noteq> []" using c(6) post by auto
    show ?thesis
    proof (cases f)
      case (Cons x xs)
      then show ?thesis
        using byte [of ?r1 x xs fs] c post n enter fs \<open>cur = []\<close> unfolding read_one_bind by simp
    next
      case f: Nil
      then have ne: "fs \<noteq> []" using c(6) post by auto
      then have "0 < length (drop (rr_pos r + 5) wire)"
        using n(2) f by (cases fs) (auto simp: tls_record_def)
      then have lt: "rr_pos r + 5 < length wire" by simp
      have "feeds wire ?r1 (b # P)"
        by (rule feedsI [where cur = "[]" and post = fs]) (use c n lt f fs post Nil in auto)
      from less.hyps [OF _ this] lt show ?thesis
        unfolding read_one_bind [of wire r] enter by (simp add: take_byte_def f)
    qed
  qed
qed

lemma read_loop_feeds:
  "feeds wire r (xs @ P) \<Longrightarrow>
     \<exists>r'. record_read_loop wire r (length xs) out = Ok (out @ xs, r') \<and> feeds wire r' P"
proof (induction xs arbitrary: r out)
  case Nil
  then show ?case by (simp add: read_loop_0)
next
  case (Cons x xs)
  then obtain r1 where r1: "record_read_loop wire r 1 [] = Ok ([x], r1)" "feeds wire r1 (xs @ P)"
    using read_one_feeds [of wire r x "xs @ P"] by auto
  with Cons.IH [OF r1(2), of "out @ [x]"] show ?case
    by (simp add: read_loop_Suc [of wire r "length xs"])
qed

lemma handshake_read_feeds:
  assumes "feeds wire (hr_record h) (xs @ P)" "hr_remaining h = length (xs @ P)"
  shows "\<exists>h'. handshake_read_exact wire h (length xs) = Ok (xs, h') \<and>
           feeds wire (hr_record h') P \<and> hr_remaining h' = length P"
  using read_loop_feeds [OF assms(1), of "[]"] assms(2)
  by (auto simp: handshake_read_exact_def record_read_exact_def)

lemma read_remaining_feeds:
  "feeds wire (hr_record h) P \<Longrightarrow> hr_remaining h = length P \<Longrightarrow>
     \<exists>h'. handshake_read_remaining_into wire h out = Ok (out @ P, h') \<and> wire_bytes_read h' = length wire"
proof (induction "length P" arbitrary: h P out rule: less_induct)
  case less
  show ?case
  proof (cases "P = []")
    case True
    then show ?thesis
      using less.prems feeds_end [of wire "hr_record h"] by (simp add: read_remaining_0 wire_bytes_read_def)
  next
    case False
    define n where "n = min (hr_remaining h) 256"
    have n: "0 < n" "n \<le> length P" "length (take n P) = n" using False less.prems by (simp_all add: n_def)
    obtain h1 where h1: "handshake_read_exact wire h n = Ok (take n P, h1)"
        "feeds wire (hr_record h1) (drop n P)" "hr_remaining h1 = length (drop n P)"
      using handshake_read_feeds [of wire h "take n P" "drop n P"] less.prems n by auto
    have "length (drop n P) < length P" using n by simp
    from less.hyps [OF this h1(2,3), of "out @ take n P"] h1(1) show ?thesis
      using False less.prems(2) by (simp add: read_remaining_step n_def)
  qed
qed

lemma length_tls_wire: "length (tls_wire frags) = 5 * length frags + length (concat frags)"
  by (induction frags) (simp_all add: tls_record_def)

text \<open>A verified ClientHello in its fields.\<close>

lemma verified_fields:
  assumes "verify_legacy_session_id hmac ch secret = Ok True"
  obtains header version random sid rest candidate where
    "ch = header @ version @ random @ [32] @ sid @ rest"
    "length header = 4" "length version = 2" "length random = 32" "length sid = 32"
    "header ! 0 = HANDSHAKE_TYPE_CLIENT_HELLO"
    "u24_from_be (header ! 1) (header ! 2) (header ! 3) = length (version @ random @ [32] @ sid @ rest)"
    "candidate_session_id_tag hmac random secret = Some (take TOKEN_PART_LEN sid)"
proof -
  obtain l candidate where l: "parse_client_hello_layout ch = Ok l"
      "candidate_session_id_tag hmac (chl_random l) secret = Some candidate"
      "take TOKEN_PART_LEN (subslice (chl_session_id_start l)
         (chl_session_id_start l + LEGACY_SESSION_ID_LEN) ch) = candidate"
    using assms by (auto simp: verify_legacy_session_id_def Let_def)
  note d = layout_OkD [OF l(1), unfolded token_lens]
  let ?h = "take 4 ch" and ?v = "subslice 4 6 ch" and ?r = "subslice 6 38 ch"
  let ?s = "subslice 39 71 ch" and ?t = "drop 71 ch"
  have split: "drop a ch = subslice a b ch @ drop b ch" if "a \<le> b" for a b
    using append_take_drop_id [of "b - a" "drop a ch"] that by (simp add: subslice_def)
  have one: "drop 38 ch = [ch ! 38] @ drop 39 ch" using d(3) Cons_nth_drop_Suc [of 38 ch] by simp
  have "ch ! 38 = 32" using d(6) by (simp add: word_unat_eq_iff)
  then have ch: "ch = ?h @ ?v @ ?r @ [32] @ ?s @ ?t"
    using append_take_drop_id [of 4 ch] split [of 4 6] split [of 6 38] split [of 39 71] one by simp
  have "length (?v @ ?r @ [32] @ ?s @ ?t) = length ch - 4" using d(3) by simp
  then show thesis
    using that [OF ch] d l by (simp add: token_lens)
qed

lemma classify_wire:
  assumes "verify_legacy_session_id hmac (concat frags) secret = Ok True"
    and frags: "\<forall>f \<in> set frags. length f < 65536" "frags \<noteq> [] \<longrightarrow> last frags \<noteq> []"
    and len: "length (tls_wire frags) \<le> MAX_TCP_CLIENT_HELLO_WIRE_LEN"
  shows "classify_within_limit hmac secret (tls_wire frags) = Ok Claim \<and>
    (\<exists>h. read_hello (tls_wire frags) = Ok (concat frags, h) \<and> wire_bytes_read h = length (tls_wire frags))"
proof -
  obtain header version random sid rest candidate where f:
    "concat frags = header @ version @ random @ [32] @ sid @ rest"
    "length header = 4" "length version = 2" "length random = 32" "length sid = 32"
    "header ! 0 = HANDSHAKE_TYPE_CLIENT_HELLO"
    "u24_from_be (header ! 1) (header ! 2) (header ! 3) = length (version @ random @ [32] @ sid @ rest)"
    "candidate_session_id_tag hmac random secret = Some (take TOKEN_PART_LEN sid)"
    by (rule verified_fields [OF assms(1)])
  let ?wire = "tls_wire frags"
  have "frags \<noteq> []" using f by auto
  then have short: "5 + length (concat frags) \<le> MAX_TCP_CLIENT_HELLO_WIRE_LEN"
    using len unfolding length_tls_wire by (cases frags) simp_all
  obtain r where r: "record_read_exact ?wire record_reader_new 4 = Ok (header, r)"
      "feeds ?wire r (version @ random @ [32] @ sid @ rest)"
    using read_loop_feeds [of ?wire record_reader_new header _ "[]"] feeds_start [OF frags] f(1,2)
    by (auto simp: record_read_exact_def)
  let ?h0 = "\<lparr>hr_record = r, hr_remaining = length (version @ random @ [32] @ sid @ rest)\<rparr>"
  obtain h1 where h1: "handshake_read_exact ?wire ?h0 2 = Ok (version, h1)"
      "feeds ?wire (hr_record h1) (random @ [32] @ sid @ rest)"
      "hr_remaining h1 = length (random @ [32] @ sid @ rest)"
    using handshake_read_feeds [of ?wire ?h0 version "random @ [32] @ sid @ rest"] r(2) f(3) by auto
  obtain h2 where h2: "handshake_read_exact ?wire h1 32 = Ok (random, h2)"
      "feeds ?wire (hr_record h2) ([32] @ sid @ rest)" "hr_remaining h2 = length ([32] @ sid @ rest)"
    using handshake_read_feeds [OF h1(2,3)] f(4) by auto
  obtain h3 where h3: "handshake_read_exact ?wire h2 1 = Ok ([32], h3)"
      "feeds ?wire (hr_record h3) (sid @ rest)" "hr_remaining h3 = length (sid @ rest)"
    using handshake_read_feeds [OF h2(2,3)] by auto
  obtain h4 where h4: "handshake_read_exact ?wire h3 LEGACY_SESSION_ID_LEN = Ok (sid, h4)"
      "feeds ?wire (hr_record h4) rest" "hr_remaining h4 = length rest"
    using handshake_read_feeds [OF h3(2,3)] f(5) by (auto simp: LEGACY_SESSION_ID_LEN_def)
  obtain h5 where h5: "handshake_read_remaining_into ?wire h4 (header @ version @ random @ [32] @ sid) =
      Ok (concat frags, h5)" "wire_bytes_read h5 = length ?wire"
    using read_remaining_feeds [OF h4(2,3), of "header @ version @ random @ [32] @ sid"] f(1) by auto
  note reads = r(1) h1(1) h2(1) h3(1) h4(1) h5
  have "classify_within_limit hmac secret ?wire = Ok Claim"
    unfolding classify_within_limit_def Let_def
    using reads f short len assms(1)
    by (simp add: claim_verdict_def TLS_RECORD_HEADER_LEN_def LEGACY_SESSION_ID_LEN_def)
  moreover have "read_hello ?wire = Ok (concat frags, h5)"
    unfolding read_hello_def using reads f by simp
  ultimately show ?thesis using h5(2) by simp
qed

lemma read_hello_grows: "grows (past buf) (read_hello buf) (read_hello (buf @ ext))"
  unfolding read_hello_def record_read_exact_def
  apply (rule grows_bind [OF read_loop_grows])
   apply (auto intro!: grows_handshake_bind grows_bind [OF read_remaining_grows] read_remaining_grows
      dest!: handshake_read_Ok read_remaining_Ok)[1]
  apply (auto simp: wire_bytes_read_def dest!: handshake_read_Ok read_remaining_Ok)[1]
  done

lemma within_limit_reads:
  assumes "classify_within_limit hmac secret buf = Ok v"
  shows "\<exists>ch h. read_hello buf = Ok (ch, h) \<and> wire_bytes_read h \<le> length buf"
proof -
  have "\<exists>ch h. read_hello buf = Ok (ch, h)"
    using assms by (auto simp: classify_within_limit_def read_hello_def Let_def guard_Ok let_else_Ok)
  moreover have "wire_bytes_read h \<le> length buf" if "read_hello buf = Ok (ch, h)" for ch h
    using that
    by (auto simp: read_hello_def record_read_exact_def record_reader_new_def wire_bytes_read_def
        dest!: read_loop_Ok handshake_read_Ok read_remaining_Ok)
  ultimately show ?thesis by blast
qed

lemma classify_prefix:
  assumes "verify_legacy_session_id hmac (concat frags) secret = Ok True"
    and "\<forall>f \<in> set frags. length f < 65536" "frags \<noteq> [] \<longrightarrow> last frags \<noteq> []"
    and "length (tls_wire frags) \<le> MAX_TCP_CLIENT_HELLO_WIRE_LEN"
  shows "classify_tcp_client_hello hmac secret (take n (tls_wire frags)) =
           (if n < length (tls_wire frags) then Incomplete else Claim)"
proof (cases "n < length (tls_wire frags)")
  case True
  let ?b = "take n (tls_wire frags)"
  note full = classify_wire [OF assms]
  have wire: "?b @ drop n (tls_wire frags) = tls_wire frags" by simp
  have "\<not> (\<exists>v. classify_within_limit hmac secret ?b = Ok v)"
  proof
    assume "\<exists>v. classify_within_limit hmac secret ?b = Ok v"
    then obtain ch h where h: "read_hello ?b = Ok (ch, h)" "wire_bytes_read h \<le> n"
      using within_limit_reads [of hmac secret ?b] True by auto
    then show False
      using read_hello_grows [of ?b "drop n (tls_wire frags)"] full True
      unfolding wire by (auto simp: grows_def)
  qed
  then have "classify_within_limit hmac secret ?b = Err Incomplete"
    using within_limit_grows [of ?b hmac secret "drop n (tls_wire frags)"] full
    unfolding wire grows_def by (metis (no_types))
  with True assms(4) show ?thesis
    by (simp add: classify_tcp_client_hello_def classify_tcp_client_hello_within_limit_def)
next
  case False
  then show ?thesis
    using classify_wire [OF assms]
    by (simp add: classify_tcp_client_hello_def classify_tcp_client_hello_within_limit_def)
qed

section \<open>Properties\<close>

text \<open>C9: The TCP classifier commits: once its verdict is not \<open>Incomplete\<close>, no bytes that arrive
  later change it.  This includes the \<open>Pass\<close> given at the size limit, since a ClientHello that was
  not complete within the limit can never be claimed.\<close>

theorem tcp_verdict_stable:
  assumes "classify_tcp_client_hello hmac secret buf \<noteq> Incomplete"
  shows "classify_tcp_client_hello hmac secret (buf @ ext) = classify_tcp_client_hello hmac secret buf"
  using assms by (rule classify_grows)

theorem tcp_verdict_stable_witness:
  "classify_tcp_client_hello (\<lambda>k m. None) [1] ([0x17, 3, 3, 0, 1] @ [22, 3, 1]) =
     classify_tcp_client_hello (\<lambda>k m. None) [1] [0x17, 3, 3, 0, 1]"
  by (rule tcp_verdict_stable)
    (simp add: classify_tcp_client_hello_def classify_tcp_client_hello_within_limit_def
      classify_within_limit_def record_read_exact_def record_read_loop.simps record_reader_new_def
      next_record_def TLS_HANDSHAKE_CONTENT_TYPE_def)

text \<open>C8: A ClientHello whose token verifies is claimed when its last byte has arrived and not
  before, however the handshake message is cut into TLS records (empty records included), as long
  as it fits the wire limit: on every prefix of the stream the verdict is \<open>Incomplete\<close>.\<close>

theorem sealed_hello_claimed:
  assumes "verify_legacy_session_id hmac (concat frags) secret = Ok True"
    and "\<forall>f \<in> set frags. length f < 65536" "last frags \<noteq> []"
    and "length (tls_wire frags) \<le> MAX_TCP_CLIENT_HELLO_WIRE_LEN"
  shows "classify_tcp_client_hello hmac secret (take n (tls_wire frags)) =
           (if n < length (tls_wire frags) then Incomplete else Claim)"
  using assms by (intro classify_prefix) auto

theorem sealed_hello_claimed_witness:
  "classify_tcp_client_hello (\<lambda>k m. Some (replicate 32 0)) [1]
     (take 81 (tls_wire [take 30 sample_client_hello, drop 30 sample_client_hello])) = Claim"
proof -
  let ?frags = "[take 30 sample_client_hello, drop 30 sample_client_hello]"
  have l: "parse_client_hello_layout sample_client_hello =
      Ok \<lparr>chl_random = subslice 6 38 sample_client_hello, chl_session_id_start = SESSION_ID_START\<rparr>"
    by (intro layout_OkI)
      (simp_all add: sample_client_hello_def token_lens u24_from_be_def HANDSHAKE_TYPE_CLIENT_HELLO_def
        nth_append nth_Cons')
  have sid: "subslice 39 71 sample_client_hello = replicate 32 0"
    by (simp add: sample_client_hello_def subslice_def)
  have len: "length (tls_wire ?frags) = 81"
    unfolding length_tls_wire by (simp add: sample_client_hello_def)
  have "verify_legacy_session_id (\<lambda>k m. Some (replicate 32 0)) (concat ?frags) [1] = Ok True"
    using l sid
    by (simp add: verify_legacy_session_id_def candidate_session_id_tag_def complete_claim_tag_def
        truncated_hmac_def token_lens)
  moreover have "length (tls_wire ?frags) \<le> MAX_TCP_CLIENT_HELLO_WIRE_LEN"
    unfolding len by (simp add: MAX_TCP_CLIENT_HELLO_WIRE_LEN_def)
  moreover have "last ?frags \<noteq> []" "\<forall>f \<in> set ?frags. length f < 65536"
    by (simp_all add: sample_client_hello_def)
  ultimately show ?thesis
    using sealed_hello_claimed [where frags = ?frags and n = 81] len by simp
qed

text \<open>C38: On any input the TCP classifier answers \<open>Claim\<close>, \<open>Pass\<close> or \<open>Incomplete\<close>: it never asks for
  a connection to be dropped, and it asks for more bytes only below the wire limit.\<close>

theorem tcp_verdict_range:
  "classify_tcp_client_hello hmac secret buf \<noteq> Drop \<and>
   (classify_tcp_client_hello hmac secret buf = Incomplete \<longrightarrow>
      length buf < MAX_TCP_CLIENT_HELLO_WIRE_LEN)"
  using within_limit_mild [of hmac secret buf] within_limit_Ok [of hmac secret buf]
  by (auto simp: classify_tcp_client_hello_def classify_tcp_client_hello_within_limit_def mild_def
      Let_def split: sum.splits)

theorem tcp_verdict_range_witness:
  "length ([] :: bytes) < MAX_TCP_CLIENT_HELLO_WIRE_LEN \<and>
   classify_tcp_client_hello (\<lambda>k m. None) [1] [] = Incomplete"
proof
  show "classify_tcp_client_hello (\<lambda>k m. None) [1] [] = Incomplete"
    by (simp add: classify_tcp_client_hello_def classify_tcp_client_hello_within_limit_def
        classify_within_limit_def record_read_exact_def record_read_loop.simps record_reader_new_def
        next_record_def MAX_TCP_CLIENT_HELLO_WIRE_LEN_def)
  then show "length ([] :: bytes) < MAX_TCP_CLIENT_HELLO_WIRE_LEN"
    using tcp_verdict_range [of "\<lambda>k m. None" "[1]" "[]"] by simp
qed

end
