(* ===== verification/Payloads.thy ===== *)
theory Payloads
  imports Wire_Types
begin

text \<open>
  The payload schemas of \<open>slt-core/src/proto/payloads\<close>: one record per payload struct,
  an \<open>encode\<close> that appends to an output buffer and a \<open>decode\<close> with the source's checks
  in the source's order.  Every payload satisfies the contract \<open>payload_codec\<close>: decoding
  an encoding gives the payload back, and a byte string that decodes is exactly the encoding
  of what it decodes to (the wire form is canonical).  The interpretations give injectivity
  of the encodings and of the decoders.
\<close>

section \<open>AUTH, AUTH\_OK, AUTH\_FAIL\<close>

definition AUTH_CHALLENGE_LEN :: nat where
  "AUTH_CHALLENGE_LEN = 32"

definition AUTH_SIGNATURE_LEN :: nat where
  "AUTH_SIGNATURE_LEN = 64"

definition AUTH_PAYLOAD_LEN :: nat where
  "AUTH_PAYLOAD_LEN = 16 + 4 + 2 + AUTH_CHALLENGE_LEN + AUTH_SIGNATURE_LEN"

record auth_payload =
  ap_client_id :: client_id
  ap_assigned_ipv4 :: ipv4_addr
  ap_tun_mtu :: u16
  ap_challenge :: bytes
  ap_signature :: bytes

definition auth_payload_decode :: "bytes \<Rightarrow> (auth_payload, payload_error) result" where
  "auth_payload_decode payload =
     (if length payload \<noteq> AUTH_PAYLOAD_LEN
      then Err (LengthMismatch AUTH_PAYLOAD_LEN (length payload))
      else Ok
        \<lparr>ap_client_id = ClientId (take 16 payload),
         ap_assigned_ipv4 =
           Ipv4Addr (payload ! 16) (payload ! 17) (payload ! 18) (payload ! 19),
         ap_tun_mtu = u16_from_be_bytes [payload ! 20, payload ! 21],
         ap_challenge = subslice 22 (22 + AUTH_CHALLENGE_LEN) payload,
         ap_signature =
           subslice (22 + AUTH_CHALLENGE_LEN)
             (22 + AUTH_CHALLENGE_LEN + AUTH_SIGNATURE_LEN) payload\<rparr>)"

definition auth_payload_encode :: "auth_payload \<Rightarrow> bytes \<Rightarrow> bytes" where
  "auth_payload_encode p out =
     out @ client_id_bytes (ap_client_id p) @ ipv4_octets (ap_assigned_ipv4 p)
       @ u16_to_be_bytes (ap_tun_mtu p) @ ap_challenge p @ ap_signature p"

definition auth_payload_wf :: "auth_payload \<Rightarrow> bool" where
  "auth_payload_wf p \<longleftrightarrow>
     length (client_id_bytes (ap_client_id p)) = 16 \<and>
     length (ap_challenge p) = AUTH_CHALLENGE_LEN \<and>
     length (ap_signature p) = AUTH_SIGNATURE_LEN"

definition auth_ok_payload_decode :: "bytes \<Rightarrow> (unit, payload_error) result" where
  "auth_ok_payload_decode payload =
     (if payload \<noteq> [] then Err (LengthMismatch 0 (length payload)) else Ok ())"

definition auth_ok_payload_encode :: "unit \<Rightarrow> bytes \<Rightarrow> bytes" where
  "auth_ok_payload_encode u out = out"

definition auth_fail_payload_decode :: "bytes \<Rightarrow> (auth_fail_code, payload_error) result" where
  "auth_fail_payload_decode payload =
     (if length payload \<noteq> 1 then Err (LengthMismatch 1 (length payload))
      else case auth_fail_code_try_from (payload ! 0) of
             None \<Rightarrow> Err (InvalidAuthFailCode (payload ! 0))
           | Some code \<Rightarrow> Ok code)"

definition auth_fail_payload_encode :: "auth_fail_code \<Rightarrow> bytes \<Rightarrow> bytes" where
  "auth_fail_payload_encode code out = out @ [auth_fail_code_to_u8 code]"

section \<open>Control payloads\<close>

definition PING_PAYLOAD_LEN :: nat where
  "PING_PAYLOAD_LEN = 8"

definition FALLBACK_ID_PAYLOAD_LEN :: nat where
  "FALLBACK_ID_PAYLOAD_LEN = 8"

definition CLOSE_PAYLOAD_LEN :: nat where
  "CLOSE_PAYLOAD_LEN = 1"

record fallback_to_tcp_payload =
  ftt_fallback_id :: u64

record fallback_ok_payload =
  fok_fallback_id :: u64

record ping_payload =
  ping_nonce :: u64

record pong_payload =
  pong_nonce :: u64

definition fallback_to_tcp_decode :: "bytes \<Rightarrow> (fallback_to_tcp_payload, payload_error) result" where
  "fallback_to_tcp_decode payload =
     (if length payload \<noteq> FALLBACK_ID_PAYLOAD_LEN
      then Err (LengthMismatch FALLBACK_ID_PAYLOAD_LEN (length payload))
      else Ok \<lparr>ftt_fallback_id = u64_from_be_bytes payload\<rparr>)"

definition fallback_to_tcp_encode :: "fallback_to_tcp_payload \<Rightarrow> bytes \<Rightarrow> bytes" where
  "fallback_to_tcp_encode p out = out @ u64_to_be_bytes (ftt_fallback_id p)"

definition fallback_ok_decode :: "bytes \<Rightarrow> (fallback_ok_payload, payload_error) result" where
  "fallback_ok_decode payload =
     (if length payload \<noteq> FALLBACK_ID_PAYLOAD_LEN
      then Err (LengthMismatch FALLBACK_ID_PAYLOAD_LEN (length payload))
      else Ok \<lparr>fok_fallback_id = u64_from_be_bytes payload\<rparr>)"

definition fallback_ok_encode :: "fallback_ok_payload \<Rightarrow> bytes \<Rightarrow> bytes" where
  "fallback_ok_encode p out = out @ u64_to_be_bytes (fok_fallback_id p)"

definition ping_decode :: "bytes \<Rightarrow> (ping_payload, payload_error) result" where
  "ping_decode payload =
     (if length payload \<noteq> PING_PAYLOAD_LEN
      then Err (LengthMismatch PING_PAYLOAD_LEN (length payload))
      else Ok \<lparr>ping_nonce = u64_from_be_bytes
             [payload ! 0, payload ! 1, payload ! 2, payload ! 3,
              payload ! 4, payload ! 5, payload ! 6, payload ! 7]\<rparr>)"

definition ping_encode :: "ping_payload \<Rightarrow> bytes \<Rightarrow> bytes" where
  "ping_encode p out = out @ u64_to_be_bytes (ping_nonce p)"

definition pong_decode :: "bytes \<Rightarrow> (pong_payload, payload_error) result" where
  "pong_decode payload =
     (if length payload \<noteq> PING_PAYLOAD_LEN
      then Err (LengthMismatch PING_PAYLOAD_LEN (length payload))
      else Ok \<lparr>pong_nonce = u64_from_be_bytes
             [payload ! 0, payload ! 1, payload ! 2, payload ! 3,
              payload ! 4, payload ! 5, payload ! 6, payload ! 7]\<rparr>)"

definition pong_encode :: "pong_payload \<Rightarrow> bytes \<Rightarrow> bytes" where
  "pong_encode p out = out @ u64_to_be_bytes (pong_nonce p)"

definition close_decode :: "bytes \<Rightarrow> (close_code, payload_error) result" where
  "close_decode payload =
     (if length payload \<noteq> CLOSE_PAYLOAD_LEN
      then Err (LengthMismatch CLOSE_PAYLOAD_LEN (length payload))
      else case close_code_try_from (payload ! 0) of
             None \<Rightarrow> Err (InvalidCloseCode (payload ! 0))
           | Some code \<Rightarrow> Ok code)"

definition close_encode :: "close_code \<Rightarrow> bytes \<Rightarrow> bytes" where
  "close_encode code out = out @ [close_code_to_u8 code]"

section \<open>Upgrade payloads\<close>

definition UPGRADE_ID_PAYLOAD_LEN :: nat where
  "UPGRADE_ID_PAYLOAD_LEN = 8"

definition UPGRADE_PROBE_PAYLOAD_LEN :: nat where
  "UPGRADE_PROBE_PAYLOAD_LEN = 16"

record upgrade_probe_payload =
  probe_upgrade_id :: u64
  probe_nonce :: u64

record upgrade_probe_ack_payload =
  ack_upgrade_id :: u64
  ack_nonce :: u64

record udp_ready_payload =
  ready_upgrade_id :: u64

record switch_to_udp_payload =
  switch_upgrade_id :: u64

record switch_ack_payload =
  sack_upgrade_id :: u64

record switch_ok_payload =
  sok_upgrade_id :: u64

definition upgrade_probe_decode :: "bytes \<Rightarrow> (upgrade_probe_payload, payload_error) result" where
  "upgrade_probe_decode payload =
     (if length payload \<noteq> UPGRADE_PROBE_PAYLOAD_LEN
      then Err (LengthMismatch UPGRADE_PROBE_PAYLOAD_LEN (length payload))
      else Ok \<lparr>probe_upgrade_id = u64_from_be_bytes (take UPGRADE_ID_PAYLOAD_LEN payload),
               probe_nonce = u64_from_be_bytes (drop UPGRADE_ID_PAYLOAD_LEN payload)\<rparr>)"

definition upgrade_probe_encode :: "upgrade_probe_payload \<Rightarrow> bytes \<Rightarrow> bytes" where
  "upgrade_probe_encode p out =
     out @ u64_to_be_bytes (probe_upgrade_id p) @ u64_to_be_bytes (probe_nonce p)"

definition upgrade_probe_ack_decode ::
    "bytes \<Rightarrow> (upgrade_probe_ack_payload, payload_error) result" where
  "upgrade_probe_ack_decode payload =
     (if length payload \<noteq> UPGRADE_PROBE_PAYLOAD_LEN
      then Err (LengthMismatch UPGRADE_PROBE_PAYLOAD_LEN (length payload))
      else Ok \<lparr>ack_upgrade_id = u64_from_be_bytes (take UPGRADE_ID_PAYLOAD_LEN payload),
               ack_nonce = u64_from_be_bytes (drop UPGRADE_ID_PAYLOAD_LEN payload)\<rparr>)"

definition upgrade_probe_ack_encode :: "upgrade_probe_ack_payload \<Rightarrow> bytes \<Rightarrow> bytes" where
  "upgrade_probe_ack_encode p out =
     out @ u64_to_be_bytes (ack_upgrade_id p) @ u64_to_be_bytes (ack_nonce p)"

definition udp_ready_decode :: "bytes \<Rightarrow> (udp_ready_payload, payload_error) result" where
  "udp_ready_decode payload =
     (if length payload \<noteq> UPGRADE_ID_PAYLOAD_LEN
      then Err (LengthMismatch UPGRADE_ID_PAYLOAD_LEN (length payload))
      else Ok \<lparr>ready_upgrade_id = u64_from_be_bytes payload\<rparr>)"

definition udp_ready_encode :: "udp_ready_payload \<Rightarrow> bytes \<Rightarrow> bytes" where
  "udp_ready_encode p out = out @ u64_to_be_bytes (ready_upgrade_id p)"

definition switch_to_udp_decode :: "bytes \<Rightarrow> (switch_to_udp_payload, payload_error) result" where
  "switch_to_udp_decode payload =
     (if length payload \<noteq> UPGRADE_ID_PAYLOAD_LEN
      then Err (LengthMismatch UPGRADE_ID_PAYLOAD_LEN (length payload))
      else Ok \<lparr>switch_upgrade_id = u64_from_be_bytes payload\<rparr>)"

definition switch_to_udp_encode :: "switch_to_udp_payload \<Rightarrow> bytes \<Rightarrow> bytes" where
  "switch_to_udp_encode p out = out @ u64_to_be_bytes (switch_upgrade_id p)"

definition switch_ack_decode :: "bytes \<Rightarrow> (switch_ack_payload, payload_error) result" where
  "switch_ack_decode payload =
     (if length payload \<noteq> UPGRADE_ID_PAYLOAD_LEN
      then Err (LengthMismatch UPGRADE_ID_PAYLOAD_LEN (length payload))
      else Ok \<lparr>sack_upgrade_id = u64_from_be_bytes payload\<rparr>)"

definition switch_ack_encode :: "switch_ack_payload \<Rightarrow> bytes \<Rightarrow> bytes" where
  "switch_ack_encode p out = out @ u64_to_be_bytes (sack_upgrade_id p)"

definition switch_ok_decode :: "bytes \<Rightarrow> (switch_ok_payload, payload_error) result" where
  "switch_ok_decode payload =
     (if length payload \<noteq> UPGRADE_ID_PAYLOAD_LEN
      then Err (LengthMismatch UPGRADE_ID_PAYLOAD_LEN (length payload))
      else Ok \<lparr>sok_upgrade_id = u64_from_be_bytes payload\<rparr>)"

definition switch_ok_encode :: "switch_ok_payload \<Rightarrow> bytes \<Rightarrow> bytes" where
  "switch_ok_encode p out = out @ u64_to_be_bytes (sok_upgrade_id p)"

section \<open>Registration payloads\<close>

definition HP_KEY_LEN :: nat where
  "HP_KEY_LEN = 16"

definition AEAD_KEY_LEN :: nat where
  "AEAD_KEY_LEN = 16"

definition CHACHA20_POLY1305_KEY_LEN :: nat where
  "CHACHA20_POLY1305_KEY_LEN = 32"

definition AEAD_IV_LEN :: nat where
  "AEAD_IV_LEN = 12"

definition UDP_QSP_TRAFFIC_SECRET_LEN :: nat where
  "UDP_QSP_TRAFFIC_SECRET_LEN = 32"

definition MAX_CONTROL_FRAME_LEN :: nat where
  "MAX_CONTROL_FRAME_LEN =
     1 + MAX_DCID_LEN + 1 + MAX_DCID_LEN + 1 + (UDP_QSP_TRAFFIC_SECRET_LEN * 2) + 8 + 8 + 1"

fun cipher_hp_key_len :: "cipher_suite \<Rightarrow> nat" where
  "cipher_hp_key_len Aes128Gcm = HP_KEY_LEN"
| "cipher_hp_key_len ChaCha20Poly1305 = CHACHA20_POLY1305_KEY_LEN"

fun cipher_aead_key_len :: "cipher_suite \<Rightarrow> nat" where
  "cipher_aead_key_len Aes128Gcm = AEAD_KEY_LEN"
| "cipher_aead_key_len ChaCha20Poly1305 = CHACHA20_POLY1305_KEY_LEN"

record register_cid_payload =
  rc_client_to_server_cid :: cid
  rc_server_to_client_cid :: cid
  rc_cipher :: cipher_suite
  rc_secret_tx :: bytes
  rc_secret_rx :: bytes
  rc_pn_start :: u64
  rc_pn_start_rx :: u64
  rc_key_phase :: bool

definition register_cid_encoded_len_for :: "nat \<Rightarrow> nat \<Rightarrow> cipher_suite \<Rightarrow> nat" where
  "register_cid_encoded_len_for c2s_cid_len s2c_cid_len cipher =
     1 + c2s_cid_len + 1 + s2c_cid_len + 1 + (UDP_QSP_TRAFFIC_SECRET_LEN * 2) + 8 + 8 + 1"

definition read_secret :: "bytes \<Rightarrow> nat \<Rightarrow> bytes \<times> nat" where
  "read_secret payload offset =
     (subslice offset (offset + UDP_QSP_TRAFFIC_SECRET_LEN) payload,
      offset + UDP_QSP_TRAFFIC_SECRET_LEN)"

definition read_u64 :: "bytes \<Rightarrow> nat \<Rightarrow> u64 \<times> nat" where
  "read_u64 payload offset =
     (u64_from_be_bytes (subslice offset (offset + 8) payload), offset + 8)"

definition key_phase_try_from :: "u8 \<Rightarrow> (bool, payload_error) result" where
  "key_phase_try_from b =
     (if b = 0 then Ok False else if b = 1 then Ok True else Err (InvalidKeyPhase b))"

text \<open>The fields after the length checks, read at a running offset.\<close>

definition register_cid_decode_fields ::
    "bytes \<Rightarrow> nat \<Rightarrow> nat \<Rightarrow> cipher_suite \<Rightarrow> (register_cid_payload, payload_error) result" where
  "register_cid_decode_fields payload c2s_cid_len s2c_cid_len cipher =
     (let offset = 1 in
      bind_result
        (map_err (\<lambda>_. InvalidClientToServerCidLen c2s_cid_len)
           (cid_new (subslice offset (offset + c2s_cid_len) payload)))
        (\<lambda>client_to_server_cid.
      let offset = offset + c2s_cid_len + 1 in
      bind_result
        (map_err (\<lambda>_. InvalidServerToClientCidLen s2c_cid_len)
           (cid_new (subslice offset (offset + s2c_cid_len) payload)))
        (\<lambda>server_to_client_cid.
      let offset = offset + s2c_cid_len + 1;
          (secret_tx, offset) = read_secret payload offset;
          (secret_rx, offset) = read_secret payload offset;
          (pn_start, offset) = read_u64 payload offset;
          (pn_start_rx, offset) = read_u64 payload offset
      in bind_result (key_phase_try_from (payload ! offset))
        (\<lambda>key_phase. Ok
          \<lparr>rc_client_to_server_cid = client_to_server_cid,
           rc_server_to_client_cid = server_to_client_cid,
           rc_cipher = cipher, rc_secret_tx = secret_tx, rc_secret_rx = secret_rx,
           rc_pn_start = pn_start, rc_pn_start_rx = pn_start_rx,
           rc_key_phase = key_phase\<rparr>))))"

definition register_cid_decode :: "bytes \<Rightarrow> (register_cid_payload, payload_error) result" where
  "register_cid_decode payload =
     (if payload = [] then Err (LengthTooShort 1 (length payload))
      else
        let c2s_cid_len = unat (payload ! 0) in
        if c2s_cid_len \<noteq> MAX_DCID_LEN then Err (InvalidClientToServerCidLen c2s_cid_len)
        else
          let s2c_cid_len_offset = 1 + c2s_cid_len in
          if length payload < s2c_cid_len_offset + 1
          then Err (LengthTooShort (s2c_cid_len_offset + 1) (length payload))
          else
            let s2c_cid_len = unat (payload ! s2c_cid_len_offset) in
            if s2c_cid_len > MAX_DCID_LEN then Err (InvalidServerToClientCidLen s2c_cid_len)
            else
              let cipher_offset = s2c_cid_len_offset + 1 + s2c_cid_len in
              if length payload < cipher_offset + 1
              then Err (LengthTooShort (cipher_offset + 1) (length payload))
              else
                case cipher_suite_try_from (payload ! cipher_offset) of
                  None \<Rightarrow> Err (InvalidCipher (payload ! cipher_offset))
                | Some cipher \<Rightarrow>
                    let expected_len =
                          register_cid_encoded_len_for c2s_cid_len s2c_cid_len cipher
                    in if length payload \<noteq> expected_len
                       then Err (LengthMismatch expected_len (length payload))
                       else register_cid_decode_fields payload c2s_cid_len s2c_cid_len cipher)"

definition register_cid_encoded_len :: "register_cid_payload \<Rightarrow> nat" where
  "register_cid_encoded_len p =
     register_cid_encoded_len_for (cid_len (rc_client_to_server_cid p))
       (cid_len (rc_server_to_client_cid p)) (rc_cipher p)"

definition register_cid_encode ::
    "register_cid_payload \<Rightarrow> bytes \<Rightarrow> (bytes, payload_error) result" where
  "register_cid_encode p out =
     (if cid_len (rc_client_to_server_cid p) \<noteq> MAX_DCID_LEN
      then Err (InvalidClientToServerCidLen (cid_len (rc_client_to_server_cid p)))
      else Ok (out
        @ [word_of_nat (cid_len (rc_client_to_server_cid p))]
        @ cid_as_slice (rc_client_to_server_cid p)
        @ [word_of_nat (cid_len (rc_server_to_client_cid p))]
        @ cid_as_slice (rc_server_to_client_cid p)
        @ [cipher_suite_to_u8 (rc_cipher p)]
        @ rc_secret_tx p @ rc_secret_rx p
        @ u64_to_be_bytes (rc_pn_start p) @ u64_to_be_bytes (rc_pn_start_rx p)
        @ [if rc_key_phase p then 1 else 0]))"

definition register_cid_wf :: "register_cid_payload \<Rightarrow> bool" where
  "register_cid_wf p \<longleftrightarrow>
     cid_wf (rc_client_to_server_cid p) \<and>
     cid_len (rc_client_to_server_cid p) = MAX_DCID_LEN \<and>
     cid_wf (rc_server_to_client_cid p) \<and>
     length (rc_secret_tx p) = UDP_QSP_TRAFFIC_SECRET_LEN \<and>
     length (rc_secret_rx p) = UDP_QSP_TRAFFIC_SECRET_LEN"

text \<open>The fields of a \<open>REGISTER_CID\<close> payload, laid out as the encoder writes them.\<close>

definition register_cid_layout ::
    "bytes \<Rightarrow> bytes \<Rightarrow> u8 \<Rightarrow> bytes \<Rightarrow> bytes \<Rightarrow> bytes \<Rightarrow> bytes \<Rightarrow> u8 \<Rightarrow> bytes" where
  "register_cid_layout c2s s2c ci stx srx pn pnrx kp =
     [20] @ c2s @ [word_of_nat (length s2c)] @ s2c @ [ci] @ stx @ srx @ pn @ pnrx @ [kp]"

definition register_ok_decode :: "bytes \<Rightarrow> (cid, payload_error) result" where
  "register_ok_decode payload =
     (if payload = [] then Err (LengthTooShort 1 (length payload))
      else
        let cid_len = unat (payload ! 0) in
        if cid_len \<noteq> MAX_DCID_LEN then Err (InvalidClientToServerCidLen cid_len)
        else
          let expected_len = 1 + cid_len in
          if length payload \<noteq> expected_len
          then Err (LengthMismatch expected_len (length payload))
          else
            let cid_offset = 1; cid_end = cid_offset + cid_len in
            map_err (\<lambda>_. InvalidClientToServerCidLen cid_len)
              (cid_new (subslice cid_offset cid_end payload)))"

definition register_ok_encode :: "cid \<Rightarrow> bytes \<Rightarrow> (bytes, payload_error) result" where
  "register_ok_encode c out =
     (if cid_len c \<noteq> MAX_DCID_LEN then Err (InvalidClientToServerCidLen (cid_len c))
      else Ok (out @ [word_of_nat (cid_len c)] @ cid_as_slice c))"

definition register_fail_decode :: "bytes \<Rightarrow> (register_fail_code, payload_error) result" where
  "register_fail_decode payload =
     (if length payload \<noteq> 1 then Err (LengthMismatch 1 (length payload))
      else case register_fail_code_try_from (payload ! 0) of
             None \<Rightarrow> Err (InvalidRegisterFailCode (payload ! 0))
           | Some code \<Rightarrow> Ok code)"

definition register_fail_encode :: "register_fail_code \<Rightarrow> bytes \<Rightarrow> bytes" where
  "register_fail_encode code out = out @ [register_fail_code_to_u8 code]"

lemmas payload_lens =
  AUTH_CHALLENGE_LEN_def AUTH_SIGNATURE_LEN_def AUTH_PAYLOAD_LEN_def PING_PAYLOAD_LEN_def
  FALLBACK_ID_PAYLOAD_LEN_def CLOSE_PAYLOAD_LEN_def UPGRADE_ID_PAYLOAD_LEN_def
  UPGRADE_PROBE_PAYLOAD_LEN_def UDP_QSP_TRAFFIC_SECRET_LEN_def MAX_DCID_LEN_def

section \<open>The contract of a payload codec\<close>

text \<open>A codec whose encoder may refuse a value, and its total special case.\<close>

locale fallible_codec =
  fixes encode :: "'p \<Rightarrow> bytes \<Rightarrow> (bytes, 'e) result"
    and decode :: "bytes \<Rightarrow> ('p, 'e) result"
    and wf :: "'p \<Rightarrow> bool"
  assumes encode_append: "wf p \<Longrightarrow> \<exists>bs. encode p [] = Ok bs \<and> encode p out = Ok (out @ bs)"
    and decode_encode: "wf p \<Longrightarrow> encode p [] = Ok bs \<Longrightarrow> decode bs = Ok p"
    and decode_canonical: "decode bs = Ok p \<Longrightarrow> wf p \<and> encode p [] = Ok bs"
begin

lemma decode_Ok_iff: "decode bs = Ok p \<longleftrightarrow> wf p \<and> encode p [] = Ok bs"
  using decode_encode decode_canonical by blast

lemma encode_inject:
  "wf p \<Longrightarrow> wf q \<Longrightarrow> encode p [] = encode q [] \<Longrightarrow> p = q"
  by (metis decode_encode encode_append sum.inject(2))

lemma decode_inject: "decode bs = Ok p \<Longrightarrow> decode cs = Ok p \<Longrightarrow> bs = cs"
  using decode_canonical [of bs p] decode_canonical [of cs p] by simp

end

locale payload_codec =
  fixes enc :: "'p \<Rightarrow> bytes \<Rightarrow> bytes"
    and dec :: "bytes \<Rightarrow> ('p, 'e) result"
    and wfp :: "'p \<Rightarrow> bool"
  assumes enc_append: "enc p out = out @ enc p []"
    and dec_enc: "wfp p \<Longrightarrow> dec (enc p []) = Ok p"
    and dec_canonical: "dec bs = Ok p \<Longrightarrow> wfp p \<and> enc p [] = bs"
begin

lemma dec_Ok_iff: "dec bs = Ok p \<longleftrightarrow> wfp p \<and> enc p [] = bs"
  using dec_enc dec_canonical by blast

end

sublocale payload_codec \<subseteq> fallible_codec "\<lambda>p out. Ok (enc p out)" dec wfp
proof unfold_locales
  fix p out
  show "\<exists>bs. Ok (enc p []) = Ok bs \<and> Ok (enc p out) = Ok (out @ bs)"
    using enc_append [of p out] by blast
next
  fix p bs
  assume "wfp p" and "Ok (enc p []) = Ok bs"
  then show "dec bs = Ok p" using dec_enc by auto
next
  fix bs p
  assume "dec bs = Ok p"
  then show "wfp p \<and> Ok (enc p []) = Ok bs" using dec_canonical by blast
qed

subsection \<open>Interpretations\<close>

text \<open>Eight bytes read one by one are the payload itself.\<close>

lemma bytes8_eta:
  assumes "length xs = 8"
  shows "[xs ! 0, xs ! Suc 0, xs ! 2, xs ! 3, xs ! 4, xs ! 5, xs ! 6, xs ! 7] = xs"
proof -
  have "xs = map ((!) xs) [0..<8]"
    using assms map_nth [of xs] by simp
  also have "\<dots> = [xs ! 0, xs ! Suc 0, xs ! 2, xs ! 3, xs ! 4, xs ! 5, xs ! 6, xs ! 7]"
    by (simp add: upt_rec numeral_eq_Suc)
  finally show ?thesis ..
qed

lemma bytes1_eta: "length xs = Suc 0 \<Longrightarrow> [xs ! 0] = xs"
  by (cases xs) auto

text \<open>The payloads that are one big-endian \<open>u64\<close>.\<close>

interpretation fallback_to_tcp: payload_codec fallback_to_tcp_encode fallback_to_tcp_decode "\<lambda>_. True"
  by unfold_locales
    (auto simp: fallback_to_tcp_encode_def fallback_to_tcp_decode_def payload_lens be_bytes_inv
      split: if_splits)

interpretation fallback_ok: payload_codec fallback_ok_encode fallback_ok_decode "\<lambda>_. True"
  by unfold_locales
    (auto simp: fallback_ok_encode_def fallback_ok_decode_def payload_lens be_bytes_inv
      split: if_splits)

interpretation udp_ready: payload_codec udp_ready_encode udp_ready_decode "\<lambda>_. True"
  by unfold_locales
    (auto simp: udp_ready_encode_def udp_ready_decode_def payload_lens be_bytes_inv
      split: if_splits)

interpretation switch_to_udp: payload_codec switch_to_udp_encode switch_to_udp_decode "\<lambda>_. True"
  by unfold_locales
    (auto simp: switch_to_udp_encode_def switch_to_udp_decode_def payload_lens be_bytes_inv
      split: if_splits)

interpretation switch_ack: payload_codec switch_ack_encode switch_ack_decode "\<lambda>_. True"
  by unfold_locales
    (auto simp: switch_ack_encode_def switch_ack_decode_def payload_lens be_bytes_inv
      split: if_splits)

interpretation switch_ok: payload_codec switch_ok_encode switch_ok_decode "\<lambda>_. True"
  by unfold_locales
    (auto simp: switch_ok_encode_def switch_ok_decode_def payload_lens be_bytes_inv
      split: if_splits)

lemma ping_decode_alt:
  "ping_decode payload =
     (if length payload \<noteq> 8 then Err (LengthMismatch 8 (length payload))
      else Ok \<lparr>ping_nonce = u64_from_be_bytes payload\<rparr>)"
  by (simp add: ping_decode_def payload_lens bytes8_eta)

lemma pong_decode_alt:
  "pong_decode payload =
     (if length payload \<noteq> 8 then Err (LengthMismatch 8 (length payload))
      else Ok \<lparr>pong_nonce = u64_from_be_bytes payload\<rparr>)"
  by (simp add: pong_decode_def payload_lens bytes8_eta)

interpretation ping: payload_codec ping_encode ping_decode "\<lambda>_. True"
  by unfold_locales (auto simp: ping_encode_def ping_decode_alt be_bytes_inv split: if_splits)

interpretation pong: payload_codec pong_encode pong_decode "\<lambda>_. True"
  by unfold_locales (auto simp: pong_encode_def pong_decode_alt be_bytes_inv split: if_splits)

text \<open>The probe payloads, two \<open>u64\<close> side by side.\<close>

interpretation upgrade_probe: payload_codec upgrade_probe_encode upgrade_probe_decode "\<lambda>_. True"
  by unfold_locales
    (auto simp: upgrade_probe_encode_def upgrade_probe_decode_def payload_lens be_bytes_inv
      split: if_splits)

interpretation upgrade_probe_ack:
  payload_codec upgrade_probe_ack_encode upgrade_probe_ack_decode "\<lambda>_. True"
  by unfold_locales
    (auto simp: upgrade_probe_ack_encode_def upgrade_probe_ack_decode_def payload_lens
      be_bytes_inv split: if_splits)

text \<open>The one-byte codes.\<close>

interpretation auth_ok: payload_codec auth_ok_payload_encode auth_ok_payload_decode "\<lambda>_. True"
  by unfold_locales
    (auto simp: auth_ok_payload_encode_def auth_ok_payload_decode_def split: if_splits)

interpretation auth_fail: payload_codec auth_fail_payload_encode auth_fail_payload_decode "\<lambda>_. True"
  by unfold_locales
    (auto simp: auth_fail_payload_encode_def auth_fail_payload_decode_def bytes1_eta
      dest: auth_fail_enum.to_u8_try_from split: if_splits option.splits)

interpretation close: payload_codec close_encode close_decode "\<lambda>_. True"
  by unfold_locales
    (auto simp: close_encode_def close_decode_def bytes1_eta payload_lens
      dest: close_enum.to_u8_try_from split: if_splits option.splits)

interpretation register_fail: payload_codec register_fail_encode register_fail_decode "\<lambda>_. True"
  by unfold_locales
    (auto simp: register_fail_encode_def register_fail_decode_def bytes1_eta
      dest: register_fail_enum.to_u8_try_from split: if_splits option.splits)

text \<open>A byte string of known length splits into its fields.\<close>

lemma split_fields:
  assumes "length xs = n + m"
  obtains a b where "xs = a @ b" "length a = n" "length b = m"
  using assms by (metis append_take_drop_id length_drop length_take add_diff_cancel_left'
      min.absorb2 le_add1)

lemma length4_conv:
  assumes "length xs = 4"
  obtains a b c d where "xs = [a, b, c, d]"
  using assms by (auto simp: length_Suc_conv numeral_eq_Suc)

lemma length2_conv:
  assumes "length xs = 2"
  obtains a b where "xs = [a, b]"
  using assms by (auto simp: length_Suc_conv numeral_eq_Suc)

lemma auth_payload_decode_fields:
  assumes "length ci = 16" "length ch = 32" "length sg = 64" "length mtu = 2"
  shows "auth_payload_decode (ci @ [a, b, c, d] @ mtu @ ch @ sg) =
    Ok \<lparr>ap_client_id = ClientId ci, ap_assigned_ipv4 = Ipv4Addr a b c d,
        ap_tun_mtu = u16_from_be_bytes mtu, ap_challenge = ch, ap_signature = sg\<rparr>"
proof -
  obtain m0 m1 where "mtu = [m0, m1]" using assms(4) by (rule length2_conv)
  then show ?thesis
    using assms
    by (simp add: auth_payload_decode_def payload_lens nth_append subslice_append_left
        subslice_append_right subslice_Cons)
qed

interpretation auth: payload_codec auth_payload_encode auth_payload_decode auth_payload_wf
proof
  fix p :: auth_payload and out
  show "auth_payload_encode p out = out @ auth_payload_encode p []"
    by (simp add: auth_payload_encode_def)
next
  fix p assume "auth_payload_wf p"
  then show "auth_payload_decode (auth_payload_encode p []) = Ok p"
    by (cases "ap_assigned_ipv4 p")
      (auto simp: auth_payload_encode_def auth_payload_wf_def payload_lens
        auth_payload_decode_fields [simplified])
next
  fix bs p assume dec: "auth_payload_decode bs = Ok p"
  then have "length bs = 16 + (4 + (2 + (32 + 64)))"
    by (auto simp: auth_payload_decode_def payload_lens split: if_splits)
  then obtain ci r1 where 1: "bs = ci @ r1" "length ci = 16" "length r1 = 4 + (2 + (32 + 64))"
    by (rule split_fields)
  from 1(3) obtain ip r2 where 2: "r1 = ip @ r2" "length ip = 4" "length r2 = 2 + (32 + 64)"
    by (rule split_fields)
  from 2(3) obtain mtu r3 where 3: "r2 = mtu @ r3" "length mtu = 2" "length r3 = 32 + 64"
    by (rule split_fields)
  from 3(3) obtain ch sg where 4: "r3 = ch @ sg" "length ch = 32" "length sg = 64"
    by (rule split_fields)
  from 2(2) obtain a b c d where ip: "ip = [a, b, c, d]" by (rule length4_conv)
  have bs: "bs = ci @ [a, b, c, d] @ mtu @ ch @ sg"
    by (simp add: 1 2 3 4 ip)
  from dec have "p = \<lparr>ap_client_id = ClientId ci, ap_assigned_ipv4 = Ipv4Addr a b c d,
        ap_tun_mtu = u16_from_be_bytes mtu, ap_challenge = ch, ap_signature = sg\<rparr>"
    unfolding bs using auth_payload_decode_fields [OF 1(2) 4(2) 4(3) 3(2)] by simp
  then show "auth_payload_wf p \<and> auth_payload_encode p [] = bs"
    using 1 2 3 4 ip bs by (simp add: auth_payload_wf_def auth_payload_encode_def payload_lens
        be_bytes_inv)
qed

lemma register_ok_decode_Ok_iff:
  "register_ok_decode bs = Ok c \<longleftrightarrow>
     cid_wf c \<and> cid_len c = MAX_DCID_LEN \<and> bs = 20 # cid_as_slice c"
proof
  assume dec: "register_ok_decode bs = Ok c"
  then obtain l xs where bs: "bs = l # xs" by (cases bs) (auto simp: register_ok_decode_def)
  have l: "unat l = 20" and len: "length xs = 20" and c: "cid_new xs = Ok c"
    using dec
    by (auto simp: register_ok_decode_def bs Let_def MAX_DCID_LEN_def subslice_Cons
        split: if_splits)
  from l have "l = 20" by (simp add: word_unat_eq_iff)
  with cid_new_OkD [OF c] len bs show
    "cid_wf c \<and> cid_len c = MAX_DCID_LEN \<and> bs = 20 # cid_as_slice c"
    by (simp add: MAX_DCID_LEN_def)
next
  assume "cid_wf c \<and> cid_len c = MAX_DCID_LEN \<and> bs = 20 # cid_as_slice c"
  then show "register_ok_decode bs = Ok c"
    using cid_new_as_slice [of c] cid_length_as_slice [of c]
    by (simp add: register_ok_decode_def MAX_DCID_LEN_def subslice_Cons)
qed

interpretation register_ok:
  fallible_codec register_ok_encode register_ok_decode
    "\<lambda>c. cid_wf c \<and> cid_len c = MAX_DCID_LEN"
  by unfold_locales
    (auto simp: register_ok_encode_def register_ok_decode_Ok_iff MAX_DCID_LEN_def)

lemma register_cid_decode_layout:
  assumes len: "length c2s = 20" "length s2c \<le> 20" "length stx = 32" "length srx = 32"
      "length pn = 8" "length pnrx = 8"
    and c2s: "cid_new c2s = Ok C" and s2c: "cid_new s2c = Ok S"
    and ci: "cipher_suite_try_from ci = Some cipher"
  shows "register_cid_decode (register_cid_layout c2s s2c ci stx srx pn pnrx kp) =
    bind_result (key_phase_try_from kp) (\<lambda>k. Ok
      \<lparr>rc_client_to_server_cid = C, rc_server_to_client_cid = S, rc_cipher = cipher,
       rc_secret_tx = stx, rc_secret_rx = srx, rc_pn_start = u64_from_be_bytes pn,
       rc_pn_start_rx = u64_from_be_bytes pnrx, rc_key_phase = k\<rparr>)"
proof -
  have l: "unat (word_of_nat (length s2c) :: u8) = length s2c"
    using len by (intro unat_byte_small) simp
  show ?thesis
    using len l c2s s2c ci
    by (simp add: register_cid_decode_def register_cid_layout_def payload_lens nth_append
        register_cid_encoded_len_for_def register_cid_decode_fields_def read_secret_def
        read_u64_def subslice_append_left subslice_append_right subslice_Cons Let_def)
qed

lemma key_phase_try_from_bit [simp]: "key_phase_try_from (if b then 1 else 0) = Ok b"
  by (simp add: key_phase_try_from_def)

lemma key_phase_try_from_Ok: "key_phase_try_from x = Ok b \<longleftrightarrow> x = (if b then 1 else 0)"
  by (auto simp: key_phase_try_from_def)

lemma register_cid_encode_layout:
  assumes "register_cid_wf p"
  shows "register_cid_encode p out = Ok (out @ register_cid_layout
    (cid_as_slice (rc_client_to_server_cid p)) (cid_as_slice (rc_server_to_client_cid p))
    (cipher_suite_to_u8 (rc_cipher p)) (rc_secret_tx p) (rc_secret_rx p)
    (u64_to_be_bytes (rc_pn_start p)) (u64_to_be_bytes (rc_pn_start_rx p))
    (if rc_key_phase p then 1 else 0))"
  using assms
  by (simp add: register_cid_encode_def register_cid_wf_def register_cid_layout_def
      cid_length_as_slice MAX_DCID_LEN_def)

text \<open>Whatever passes the decoder's length checks has the layout of an encoding.\<close>

lemma register_cid_decode_Ok_layout:
  assumes "register_cid_decode bs = Ok p"
  obtains c2s s2c ci stx srx pn pnrx kp cipher where
    "bs = register_cid_layout c2s s2c ci stx srx pn pnrx kp"
    "length c2s = 20" "length s2c \<le> 20" "length stx = 32" "length srx = 32"
    "length pn = 8" "length pnrx = 8" "cipher_suite_try_from ci = Some cipher"
proof -
  obtain l r0 where bs: "bs = l # r0"
    using assms by (cases bs) (auto simp: register_cid_decode_def)
  define s where "s = unat (bs ! 21)"
  obtain cipher where l: "unat l = 20" and s: "s \<le> 20"
    and cipher: "cipher_suite_try_from (bs ! (22 + s)) = Some cipher"
    and len: "length bs = 104 + s"
    using assms
    by (auto simp: register_cid_decode_def bs s_def Let_def payload_lens
        register_cid_encoded_len_for_def split: if_splits option.splits)
  have "length r0 = 20 + (1 + (s + (1 + (32 + (32 + (8 + (8 + 1)))))))"
    using len bs by simp
  then obtain c2s r1 where 1: "r0 = c2s @ r1" "length c2s = 20"
      "length r1 = 1 + (s + (1 + (32 + (32 + (8 + (8 + 1))))))"
    by (rule split_fields)
  from 1(3) obtain sl r2 where 2: "r1 = sl @ r2" "length sl = 1"
      "length r2 = s + (1 + (32 + (32 + (8 + (8 + 1)))))"
    by (rule split_fields)
  from 2(3) obtain s2c r3 where 3: "r2 = s2c @ r3" "length s2c = s"
      "length r3 = 1 + (32 + (32 + (8 + (8 + 1))))"
    by (rule split_fields)
  from 3(3) obtain ci r4 where 4: "r3 = ci @ r4" "length ci = 1"
      "length r4 = 32 + (32 + (8 + (8 + 1)))"
    by (rule split_fields)
  from 4(3) obtain stx r5 where 5: "r4 = stx @ r5" "length stx = 32"
      "length r5 = 32 + (8 + (8 + 1))"
    by (rule split_fields)
  from 5(3) obtain srx r6 where 6: "r5 = srx @ r6" "length srx = 32" "length r6 = 8 + (8 + 1)"
    by (rule split_fields)
  from 6(3) obtain pn r7 where 7: "r6 = pn @ r7" "length pn = 8" "length r7 = 8 + 1"
    by (rule split_fields)
  from 7(3) obtain pnrx kp where 8: "r7 = pnrx @ kp" "length pnrx = 8" "length kp = 1"
    by (rule split_fields)
  obtain sl0 where sl: "sl = [sl0]" using 2(2) by (auto simp: length_Suc_conv)
  obtain ci0 where ci: "ci = [ci0]" using 4(2) by (auto simp: length_Suc_conv)
  obtain kp0 where kp: "kp = [kp0]" using 8(3) by (auto simp: length_Suc_conv)
  have bs_eq: "bs = [l] @ c2s @ [sl0] @ s2c @ [ci0] @ stx @ srx @ pn @ pnrx @ [kp0]"
    by (simp add: bs 1 2 3 4 5 6 7 8 sl ci kp)
  have "bs ! 21 = sl0" unfolding bs_eq using 1(2) by (simp add: nth_append)
  then have "sl0 = word_of_nat (length s2c)"
    using 3(2) by (simp add: s_def)
  moreover have "l = 20" using l by (simp add: word_unat_eq_iff)
  moreover have "bs ! (22 + s) = ci0"
    unfolding bs_eq using 1(2) 3(2) by (simp add: nth_append)
  ultimately show thesis
    using that [of c2s s2c ci0 stx srx pn pnrx kp0 cipher] bs_eq 1 3 5 6 7 8 s cipher
    by (simp add: register_cid_layout_def)
qed

interpretation register_cid:
  fallible_codec register_cid_encode register_cid_decode register_cid_wf
proof
  fix p :: register_cid_payload and out
  assume "register_cid_wf p"
  then show "\<exists>bs. register_cid_encode p [] = Ok bs \<and> register_cid_encode p out = Ok (out @ bs)"
    by (simp add: register_cid_encode_layout)
next
  fix p bs
  assume wf: "register_cid_wf p" and enc: "register_cid_encode p [] = Ok bs"
  have bs: "bs = register_cid_layout
    (cid_as_slice (rc_client_to_server_cid p)) (cid_as_slice (rc_server_to_client_cid p))
    (cipher_suite_to_u8 (rc_cipher p)) (rc_secret_tx p) (rc_secret_rx p)
    (u64_to_be_bytes (rc_pn_start p)) (u64_to_be_bytes (rc_pn_start_rx p))
    (if rc_key_phase p then 1 else 0)"
    using register_cid_encode_layout [OF wf, of "[]"] enc by simp
  show "register_cid_decode bs = Ok p"
    using wf unfolding bs register_cid_wf_def
    by (subst register_cid_decode_layout)
      (auto simp: cid_length_as_slice cid_new_as_slice payload_lens cid_wf_def [of "rc_server_to_client_cid p"])
next
  fix bs p
  assume dec: "register_cid_decode bs = Ok p"
  then obtain c2s s2c ci stx srx pn pnrx kp cipher where bs:
      "bs = register_cid_layout c2s s2c ci stx srx pn pnrx kp"
    and len: "length c2s = 20" "length s2c \<le> 20" "length stx = 32" "length srx = 32"
      "length pn = 8" "length pnrx = 8"
    and ci: "cipher_suite_try_from ci = Some cipher"
    by (rule register_cid_decode_Ok_layout)
  obtain C where C: "cid_new c2s = Ok C" "cid_wf C" "cid_as_slice C = c2s" "cid_len C = 20"
    using len(1) cid_new_Ok [of c2s] by (auto simp: MAX_DCID_LEN_def)
  obtain S where S: "cid_new s2c = Ok S" "cid_wf S" "cid_as_slice S = s2c" "cid_len S = length s2c"
    using len(2) cid_new_Ok [of s2c] by (auto simp: MAX_DCID_LEN_def)
  from dec obtain k where k: "key_phase_try_from kp = Ok k"
    and p: "p = \<lparr>rc_client_to_server_cid = C, rc_server_to_client_cid = S, rc_cipher = cipher,
       rc_secret_tx = stx, rc_secret_rx = srx, rc_pn_start = u64_from_be_bytes pn,
       rc_pn_start_rx = u64_from_be_bytes pnrx, rc_key_phase = k\<rparr>"
    unfolding bs register_cid_decode_layout [OF len C(1) S(1) ci] by auto
  have wf: "register_cid_wf p"
    using C S len by (simp add: register_cid_wf_def p payload_lens)
  moreover have "register_cid_encode p [] = Ok bs"
    using register_cid_encode_layout [OF wf, of "[]"] C S len k
      cipher_suite_enum.to_u8_try_from [OF ci]
    by (simp add: p bs be_bytes_inv key_phase_try_from_Ok)
  ultimately show "register_cid_wf p \<and> register_cid_encode p [] = Ok bs" ..
qed

text \<open>The bound the message layer uses for control frames covers every registration.\<close>

lemma register_cid_encoded_len_correct:
  assumes "register_cid_wf p" and "register_cid_encode p out = Ok bs"
  shows "length bs = length out + register_cid_encoded_len p"
    and "register_cid_encoded_len p \<le> MAX_CONTROL_FRAME_LEN"
proof -
  show "length bs = length out + register_cid_encoded_len p"
    using assms register_cid_encode_layout [OF assms(1), of out]
    by (auto simp: register_cid_layout_def register_cid_encoded_len_def cid_length_as_slice
        register_cid_encoded_len_for_def register_cid_wf_def payload_lens)
  show "register_cid_encoded_len p \<le> MAX_CONTROL_FRAME_LEN"
    using assms(1)
    by (simp add: register_cid_wf_def register_cid_encoded_len_def cid_wf_def
        register_cid_encoded_len_for_def MAX_CONTROL_FRAME_LEN_def)
qed

section \<open>Properties\<close>

text \<open>C29: A byte string decodes to a registration exactly when it is the encoding of that
  registration and the registration is well formed: decoding inverts encoding, and no two byte
  strings decode to the same registration.\<close>

theorem register_cid_codec:
  "register_cid_decode bs = Ok p \<longleftrightarrow> register_cid_wf p \<and> register_cid_encode p [] = Ok bs"
  by (rule register_cid.decode_Ok_iff)

text \<open>C32: The same for every other payload of the protocol: each decoder accepts exactly the
  encodings of its (well-formed) values.\<close>

theorem payload_codecs:
  "(auth_payload_decode bs = Ok au \<longleftrightarrow> auth_payload_wf au \<and> auth_payload_encode au [] = bs) \<and>
   (auth_ok_payload_decode bs = Ok ao \<longleftrightarrow> auth_ok_payload_encode ao [] = bs) \<and>
   (auth_fail_payload_decode bs = Ok af \<longleftrightarrow> auth_fail_payload_encode af [] = bs) \<and>
   (register_ok_decode bs = Ok ro \<longleftrightarrow>
      cid_wf ro \<and> cid_len ro = MAX_DCID_LEN \<and> register_ok_encode ro [] = Ok bs) \<and>
   (register_fail_decode bs = Ok rf \<longleftrightarrow> register_fail_encode rf [] = bs) \<and>
   (ping_decode bs = Ok pi \<longleftrightarrow> ping_encode pi [] = bs) \<and>
   (pong_decode bs = Ok po \<longleftrightarrow> pong_encode po [] = bs) \<and>
   (close_decode bs = Ok cl \<longleftrightarrow> close_encode cl [] = bs) \<and>
   (upgrade_probe_decode bs = Ok up \<longleftrightarrow> upgrade_probe_encode up [] = bs) \<and>
   (upgrade_probe_ack_decode bs = Ok ua \<longleftrightarrow> upgrade_probe_ack_encode ua [] = bs) \<and>
   (udp_ready_decode bs = Ok ur \<longleftrightarrow> udp_ready_encode ur [] = bs) \<and>
   (switch_to_udp_decode bs = Ok su \<longleftrightarrow> switch_to_udp_encode su [] = bs) \<and>
   (switch_ack_decode bs = Ok sa \<longleftrightarrow> switch_ack_encode sa [] = bs) \<and>
   (switch_ok_decode bs = Ok so \<longleftrightarrow> switch_ok_encode so [] = bs) \<and>
   (fallback_to_tcp_decode bs = Ok ft \<longleftrightarrow> fallback_to_tcp_encode ft [] = bs) \<and>
   (fallback_ok_decode bs = Ok fo \<longleftrightarrow> fallback_ok_encode fo [] = bs)"
  using auth.dec_Ok_iff [of bs au] auth_ok.dec_Ok_iff [of bs ao] auth_fail.dec_Ok_iff [of bs af]
    register_ok.decode_Ok_iff [of bs ro] register_fail.dec_Ok_iff [of bs rf]
    ping.dec_Ok_iff [of bs pi] pong.dec_Ok_iff [of bs po] close.dec_Ok_iff [of bs cl]
    upgrade_probe.dec_Ok_iff [of bs up] upgrade_probe_ack.dec_Ok_iff [of bs ua]
    udp_ready.dec_Ok_iff [of bs ur] switch_to_udp.dec_Ok_iff [of bs su]
    switch_ack.dec_Ok_iff [of bs sa] switch_ok.dec_Ok_iff [of bs so]
    fallback_to_tcp.dec_Ok_iff [of bs ft] fallback_ok.dec_Ok_iff [of bs fo]
  by simp

end
