(* ===== verification/Framing.thy ===== *)
theory Framing
  imports Payloads
begin

text \<open>
  Frames (\<open>slt-core/src/proto/framing.rs\<close>) and messages (\<open>proto/message.rs\<close>): a frame is
  a type byte, a big-endian \<open>u32\<close> length and the payload.  The decoder works on a buffer
  that may hold a partial frame, a frame and more, or garbage; \<open>decode_frame\<close> answers
  "not yet" (\<open>Ok None\<close>), a frame with the number of bytes consumed, or an error.
  The contract \<open>stream_codec\<close> collects what a reader of a byte stream relies on, and its
  client lemmas show that a decoded message stays decoded and that no part of a stream of encodings is
  taken for an error.
\<close>

section \<open>Frames\<close>

definition HEADER_LEN :: nat where
  "HEADER_LEN = 5"

record frame =
  frame_ty :: message_type
  frame_payload :: bytes

datatype frame_error =
    UnknownType u8
  | LengthTooLarge nat nat
  | LengthOverflow nat

definition decode_frame :: "bytes \<Rightarrow> nat \<Rightarrow> ((frame \<times> nat) option, frame_error) result" where
  "decode_frame buf max_len =
     (if length buf < HEADER_LEN then Ok None
      else case message_type_try_from (buf ! 0) of
          None \<Rightarrow> Err (UnknownType (buf ! 0))
        | Some ty \<Rightarrow>
            let len = unat (u32_from_be_bytes [buf ! 1, buf ! 2, buf ! 3, buf ! 4]) in
            if len > max_len then Err (LengthTooLarge len max_len)
            else
              let total_len = HEADER_LEN + len in
              if length buf < total_len then Ok None
              else Ok (Some (\<lparr>frame_ty = ty, frame_payload = subslice HEADER_LEN total_len buf\<rparr>,
                             total_len)))"

definition encode_frame :: "message_type \<Rightarrow> bytes \<Rightarrow> bytes \<Rightarrow> (bytes, frame_error) result" where
  "encode_frame ty payload out =
     (let len = length payload in
      if len \<ge> 2 ^ 32 then Err (LengthOverflow len)
      else Ok (out @ [message_type_to_u8 ty] @ u32_to_be_bytes (word_of_nat len) @ payload))"

section \<open>Messages\<close>

datatype message =
    Auth bytes | AuthOk bytes | AuthFail bytes | RegisterCid bytes | RegisterOk bytes
  | RegisterFail bytes | Ping bytes | Pong bytes | Close bytes | Data bytes
  | UpgradeProbe bytes | UpgradeProbeAck bytes | UdpReady bytes | SwitchToUdp bytes
  | SwitchAck bytes | FallbackToTcp bytes | FallbackOk bytes | SwitchOk bytes

fun message_ty :: "message \<Rightarrow> message_type" where
  "message_ty (Auth _) = TyAuth"
| "message_ty (AuthOk _) = TyAuthOk"
| "message_ty (AuthFail _) = TyAuthFail"
| "message_ty (RegisterCid _) = TyRegisterCid"
| "message_ty (RegisterOk _) = TyRegisterOk"
| "message_ty (RegisterFail _) = TyRegisterFail"
| "message_ty (Ping _) = TyPing"
| "message_ty (Pong _) = TyPong"
| "message_ty (Close _) = TyClose"
| "message_ty (Data _) = TyData"
| "message_ty (UpgradeProbe _) = TyUpgradeProbe"
| "message_ty (UpgradeProbeAck _) = TyUpgradeProbeAck"
| "message_ty (UdpReady _) = TyUdpReady"
| "message_ty (SwitchToUdp _) = TySwitchToUdp"
| "message_ty (SwitchAck _) = TySwitchAck"
| "message_ty (FallbackToTcp _) = TyFallbackToTcp"
| "message_ty (FallbackOk _) = TyFallbackOk"
| "message_ty (SwitchOk _) = TySwitchOk"

fun message_payload :: "message \<Rightarrow> bytes" where
  "message_payload (Data packet) = packet"
| "message_payload (Auth payload) = payload"
| "message_payload (AuthOk payload) = payload"
| "message_payload (AuthFail payload) = payload"
| "message_payload (RegisterCid payload) = payload"
| "message_payload (RegisterOk payload) = payload"
| "message_payload (RegisterFail payload) = payload"
| "message_payload (Ping payload) = payload"
| "message_payload (Pong payload) = payload"
| "message_payload (Close payload) = payload"
| "message_payload (UpgradeProbe payload) = payload"
| "message_payload (UpgradeProbeAck payload) = payload"
| "message_payload (UdpReady payload) = payload"
| "message_payload (SwitchToUdp payload) = payload"
| "message_payload (SwitchAck payload) = payload"
| "message_payload (FallbackToTcp payload) = payload"
| "message_payload (FallbackOk payload) = payload"
| "message_payload (SwitchOk payload) = payload"

definition message_from_frame :: "frame \<Rightarrow> message" where
  "message_from_frame f =
     (case frame_ty f of
        TyAuth \<Rightarrow> Auth (frame_payload f)
      | TyAuthOk \<Rightarrow> AuthOk (frame_payload f)
      | TyAuthFail \<Rightarrow> AuthFail (frame_payload f)
      | TyRegisterCid \<Rightarrow> RegisterCid (frame_payload f)
      | TyRegisterOk \<Rightarrow> RegisterOk (frame_payload f)
      | TyRegisterFail \<Rightarrow> RegisterFail (frame_payload f)
      | TyPing \<Rightarrow> Ping (frame_payload f)
      | TyPong \<Rightarrow> Pong (frame_payload f)
      | TyClose \<Rightarrow> Close (frame_payload f)
      | TyData \<Rightarrow> Data (frame_payload f)
      | TyUpgradeProbe \<Rightarrow> UpgradeProbe (frame_payload f)
      | TyUpgradeProbeAck \<Rightarrow> UpgradeProbeAck (frame_payload f)
      | TyUdpReady \<Rightarrow> UdpReady (frame_payload f)
      | TySwitchToUdp \<Rightarrow> SwitchToUdp (frame_payload f)
      | TySwitchAck \<Rightarrow> SwitchAck (frame_payload f)
      | TyFallbackToTcp \<Rightarrow> FallbackToTcp (frame_payload f)
      | TyFallbackOk \<Rightarrow> FallbackOk (frame_payload f)
      | TySwitchOk \<Rightarrow> SwitchOk (frame_payload f))"

definition frame_from_message :: "message \<Rightarrow> frame" where
  "frame_from_message m = \<lparr>frame_ty = message_ty m, frame_payload = message_payload m\<rparr>"

record message_limits =
  max_frame_len :: nat
  max_data_len :: nat

definition message_limits_from_mtu :: "u16 \<Rightarrow> message_limits" where
  "message_limits_from_mtu mtu =
     (let max_data_len = unat mtu;
          max_frame_len = max max_data_len MAX_CONTROL_FRAME_LEN
      in \<lparr>max_frame_len = max_frame_len, max_data_len = max_data_len\<rparr>)"

datatype message_error = FrameErr frame_error | DataTooLarge nat nat

definition decode_message ::
    "bytes \<Rightarrow> message_limits \<Rightarrow> ((message \<times> nat) option, message_error) result" where
  "decode_message buf limits =
     bind_result (map_err FrameErr (decode_frame buf (max_frame_len limits)))
       (\<lambda>r. case r of
          None \<Rightarrow> Ok None
        | Some (f, consumed) \<Rightarrow>
            if frame_ty f = TyData \<and> length (frame_payload f) > max_data_len limits
            then Err (DataTooLarge (length (frame_payload f)) (max_data_len limits))
            else Ok (Some (message_from_frame f, consumed)))"

definition decode_padded_message ::
    "bytes \<Rightarrow> message_limits \<Rightarrow> ((message \<times> bytes) option, message_error) result" where
  "decode_padded_message buf limits =
     bind_result (decode_message buf limits)
       (\<lambda>r. case r of
          None \<Rightarrow> Ok None
        | Some (message, consumed) \<Rightarrow> Ok (Some (message, take consumed buf)))"

definition encode_message :: "message \<Rightarrow> bytes \<Rightarrow> (bytes, frame_error) result" where
  "encode_message m out = encode_frame (message_ty m) (message_payload m) out"

text \<open>\<open>OwnedMessageBuf\<close>: a frame type and the full frame bytes, viewed as a message.\<close>

definition owned_message :: "message_type \<Rightarrow> bytes \<Rightarrow> message" where
  "owned_message ty buf = message_from_frame \<lparr>frame_ty = ty, frame_payload = drop HEADER_LEN buf\<rparr>"

text \<open>What a message must satisfy to be accepted under given limits.\<close>

definition message_within :: "message_limits \<Rightarrow> message \<Rightarrow> bool" where
  "message_within limits m \<longleftrightarrow>
     length (message_payload m) \<le> max_frame_len limits \<and>
     length (message_payload m) < 2 ^ 32 \<and>
     (message_ty m = TyData \<longrightarrow> length (message_payload m) \<le> max_data_len limits)"

text \<open>The frame encoder as a total function on messages short enough for the length field.\<close>

definition message_bytes :: "message \<Rightarrow> bytes" where
  "message_bytes m = message_type_to_u8 (message_ty m)
     # u32_to_be_bytes (word_of_nat (length (message_payload m))) @ message_payload m"

section \<open>Facts about frames\<close>

lemma message_from_frame_from_message [simp]: "message_from_frame (frame_from_message m) = m"
  by (cases m) (simp_all add: message_from_frame_def frame_from_message_def)

lemma message_from_frame_ty [simp]: "message_ty (message_from_frame f) = frame_ty f"
  by (simp add: message_from_frame_def split: message_type.split)

lemma message_from_frame_payload [simp]:
  "message_payload (message_from_frame f) = frame_payload f"
  by (simp add: message_from_frame_def split: message_type.split)

lemma frame_from_message_from_frame [simp]: "frame_from_message (message_from_frame f) = f"
  by (simp add: frame_from_message_def)

lemma message_eq_iff:
  "m = m' \<longleftrightarrow> message_ty m = message_ty m' \<and> message_payload m = message_payload m'"
  by (metis frame_from_message_def message_from_frame_from_message)

lemma header_nth:
  assumes "length lb = 4"
  shows "(t # lb @ rest) ! 0 = t"
    and "[(t # lb @ rest) ! 1, (t # lb @ rest) ! 2, (t # lb @ rest) ! 3, (t # lb @ rest) ! 4] = lb"
  using assms by (auto simp: length_Suc_conv numeral_eq_Suc)

text \<open>A buffer of at least five bytes is a type byte, a length field and a rest.\<close>

lemma header_split:
  assumes "HEADER_LEN \<le> length buf"
  obtains t lb rest where "buf = t # lb @ rest" "length lb = 4"
proof -
  from assms have "length buf = 1 + (4 + (length buf - 5))" by (simp add: HEADER_LEN_def)
  then obtain a b where 1: "buf = a @ b" "length a = 1" "length b = 4 + (length buf - 5)"
    by (rule split_fields)
  from 1(3) obtain lb rest where "b = lb @ rest" "length lb = 4"
    by (rule split_fields)
  with 1 that show thesis by (auto simp: length_Suc_conv)
qed

lemma decode_frame_header:
  assumes "length lb = 4"
  shows "decode_frame (t # lb @ rest) max_len =
    (case message_type_try_from t of
       None \<Rightarrow> Err (UnknownType t)
     | Some ty \<Rightarrow>
         if be_nat lb > max_len then Err (LengthTooLarge (be_nat lb) max_len)
         else if length rest < be_nat lb then Ok None
         else Ok (Some (\<lparr>frame_ty = ty, frame_payload = take (be_nat lb) rest\<rparr>,
                        HEADER_LEN + be_nat lb)))"
proof -
  have sub: "subslice 5 (5 + n) (t # lb @ rest) = take n rest" for n
    using assms by (simp add: subslice_Cons subslice_append_right)
  show ?thesis
    unfolding decode_frame_def header_nth [OF assms]
    using assms sub [of "be_nat lb"] unat_u32_from_be [OF assms]
    by (auto simp: HEADER_LEN_def Let_def split: option.splits)
qed

lemma encode_frame_Ok:
  "length payload < 2 ^ 32 \<Longrightarrow>
   encode_frame ty payload out =
     Ok (out @ message_type_to_u8 ty # u32_to_be_bytes (word_of_nat (length payload)) @ payload)"
  by (simp add: encode_frame_def)

lemma be_nat_u32_len:
  "n < 2 ^ 32 \<Longrightarrow> be_nat (u32_to_be_bytes (word_of_nat n)) = n"
  by (simp add: u32_to_be_bytes_def unat_of_nat)

lemma decode_frame_encode:
  assumes "length payload \<le> max_len" and "length payload < 2 ^ 32"
    and "encode_frame ty payload [] = Ok bs"
  shows "decode_frame (bs @ rest) max_len =
    Ok (Some (\<lparr>frame_ty = ty, frame_payload = payload\<rparr>, length bs))"
proof -
  have bs: "bs = message_type_to_u8 ty # u32_to_be_bytes (word_of_nat (length payload)) @ payload"
    using assms(3) encode_frame_Ok [OF assms(2), of ty "[]"] by simp
  have "decode_frame (message_type_to_u8 ty #
      u32_to_be_bytes (word_of_nat (length payload)) @ (payload @ rest)) max_len =
    Ok (Some (\<lparr>frame_ty = ty, frame_payload = payload\<rparr>, HEADER_LEN + length payload))"
    using assms(1,2) by (subst decode_frame_header) (simp_all add: be_nat_u32_len)
  then show ?thesis by (simp add: bs HEADER_LEN_def)
qed

lemma decode_frame_Some:
  assumes "decode_frame buf max_len = Ok (Some (f, n))"
  shows "encode_frame (frame_ty f) (frame_payload f) [] = Ok (take n buf)"
    and "n \<le> length buf" and "n = HEADER_LEN + length (frame_payload f)"
    and "length (frame_payload f) \<le> max_len" and "length (frame_payload f) < 2 ^ 32"
proof -
  have "HEADER_LEN \<le> length buf"
    using assms by (auto simp: decode_frame_def split: if_splits)
  then obtain t lb rest where buf: "buf = t # lb @ rest" and lb: "length lb = 4"
    by (rule header_split)
  from assms obtain ty where ty: "message_type_try_from t = Some ty"
    and le: "be_nat lb \<le> max_len" "be_nat lb \<le> length rest"
    and f: "f = \<lparr>frame_ty = ty, frame_payload = take (be_nat lb) rest\<rparr>"
    and n: "n = HEADER_LEN + be_nat lb"
    by (auto simp: buf decode_frame_header [OF lb] split: option.splits if_splits)
  have small: "be_nat lb < 2 ^ 32" using be_nat_less [of lb] lb by simp
  have "u32_to_be_bytes (word_of_nat (be_nat lb)) = lb"
    using u32_be_bytes_inv [OF lb] by (simp add: u32_from_be_bytes_def)
  then show "encode_frame (frame_ty f) (frame_payload f) [] = Ok (take n buf)"
    using le small message_type_enum.to_u8_try_from [OF ty] lb
    by (simp add: f n buf encode_frame_Ok HEADER_LEN_def take_Cons')
  show "n \<le> length buf" using le lb by (simp add: n buf HEADER_LEN_def)
  show "n = HEADER_LEN + length (frame_payload f)" using le by (simp add: f n)
  show "length (frame_payload f) \<le> max_len" using le by (simp add: f)
  show "length (frame_payload f) < 2 ^ 32" using le small by (simp add: f)
qed

section \<open>The contract of a stream decoder\<close>

text \<open>What a reader of a byte stream relies on: a complete encoding at the front of the
  buffer is returned with its length whatever follows it, a proper prefix of an encoding is
  "not yet", and whatever is returned is what stands at the front of the buffer.\<close>

locale stream_codec =
  fixes encode :: "'m \<Rightarrow> bytes"
    and decode :: "bytes \<Rightarrow> (('m \<times> nat) option, 'e) result"
    and valid :: "'m \<Rightarrow> bool"
  assumes decode_front: "valid m \<Longrightarrow> decode (encode m @ rest) = Ok (Some (m, length (encode m)))"
    and decode_prefix: "valid m \<Longrightarrow> k < length (encode m) \<Longrightarrow> decode (take k (encode m)) = Ok None"
    and decode_sound: "decode buf = Ok (Some (m, n)) \<Longrightarrow>
      valid m \<and> n \<le> length buf \<and> take n buf = encode m \<and> 0 < n"
begin

lemma decode_split:
  "decode buf = Ok (Some (m, n)) \<Longrightarrow> buf = encode m @ drop n buf \<and> n = length (encode m)"
  by (metis append_take_drop_id decode_sound length_take min.absorb2)

lemma decode_stable:
  assumes "decode buf = Ok (Some (m, n))"
  shows "decode (buf @ rest) = Ok (Some (m, n))"
  using decode_split [OF assms] decode_front [of m "drop n buf @ rest"] decode_sound [OF assms]
  by (metis append_assoc)

lemma decode_comparable:
  assumes "valid m" "buf @ rest = encode m \<or> encode m @ rest = buf"
  shows "\<exists>r. decode buf = Ok r"
proof -
  have "buf = take (length buf) (encode m) \<or> (\<exists>rest. buf = encode m @ rest)"
    using assms(2) by (metis append_eq_conv_conj)
  then show ?thesis
    using decode_front [OF assms(1)] decode_front [OF assms(1), of "[]"] decode_prefix [OF assms(1), of "length buf"]
    by (cases "length buf < length (encode m)") auto
qed

end

lemma encode_message_bytes:
  "length (message_payload m) < 2 ^ 32 \<Longrightarrow> encode_message m out = Ok (out @ message_bytes m)"
  by (simp add: encode_message_def encode_frame_Ok message_bytes_def)

lemma length_message_bytes [simp, len_simps]:
  "length (message_bytes m) = HEADER_LEN + length (message_payload m)"
  by (simp add: message_bytes_def HEADER_LEN_def)

lemma decode_message_front:
  assumes "message_within limits m"
  shows "decode_message (message_bytes m @ rest) limits = Ok (Some (m, length (message_bytes m)))"
proof -
  have "encode_frame (message_ty m) (message_payload m) [] = Ok (message_bytes m)"
    using assms by (simp add: encode_frame_Ok message_bytes_def message_within_def)
  then have "decode_frame (message_bytes m @ rest) (max_frame_len limits) =
      Ok (Some (frame_from_message m, length (message_bytes m)))"
    using assms decode_frame_encode [of "message_payload m" "max_frame_len limits"]
    by (simp add: message_within_def frame_from_message_def)
  moreover have "frame_ty (frame_from_message m) = message_ty m"
    and "frame_payload (frame_from_message m) = message_payload m"
    by (simp_all add: frame_from_message_def)
  ultimately show ?thesis
    using assms by (auto simp: decode_message_def message_within_def)
qed

lemma decode_message_prefix:
  assumes "message_within limits m" and "k < length (message_bytes m)"
  shows "decode_message (take k (message_bytes m)) limits = Ok None"
proof (cases "k < HEADER_LEN")
  case True
  then show ?thesis by (simp add: decode_message_def decode_frame_def)
next
  case False
  let ?lb = "u32_to_be_bytes (word_of_nat (length (message_payload m)))"
  from False have "take k (message_bytes m) =
      message_type_to_u8 (message_ty m) # ?lb @ take (k - 5) (message_payload m)"
    by (simp add: message_bytes_def HEADER_LEN_def take_Cons')
  moreover have "k - 5 < length (message_payload m)"
    using assms(2) False by (simp add: HEADER_LEN_def)
  moreover have "be_nat ?lb = length (message_payload m)"
    using assms(1) by (intro be_nat_u32_len) (simp add: message_within_def)
  ultimately show ?thesis
    using assms(1) by (simp add: decode_message_def decode_frame_header message_within_def)
qed

lemma decode_message_SomeD:
  assumes "decode_message buf limits = Ok (Some (m, n))"
  shows "message_within limits m" "n \<le> length buf" "take n buf = message_bytes m"
    "n = length (message_bytes m)"
proof -
  obtain f n' where "decode_frame buf (max_frame_len limits) = Ok (Some (f, n'))"
    using assms by (cases "decode_frame buf (max_frame_len limits)")
      (auto simp: decode_message_def split: option.splits)
  with assms have f: "decode_frame buf (max_frame_len limits) = Ok (Some (f, n))"
    and m: "m = message_from_frame f"
    and data: "frame_ty f = TyData \<longrightarrow> length (frame_payload f) \<le> max_data_len limits"
    by (auto simp: decode_message_def split: if_splits)
  note D = decode_frame_Some [OF f]
  show "message_within limits m"
    using D data by (simp add: message_within_def m)
  show "n \<le> length buf" by (rule D)
  show "take n buf = message_bytes m"
    using D(1) encode_frame_Ok [OF D(5), of "frame_ty f" "[]"] by (simp add: m message_bytes_def)
  show "n = length (message_bytes m)"
    using D(3) by (simp add: m)
qed

interpretation msg_stream:
  stream_codec message_bytes "\<lambda>buf. decode_message buf limits" "message_within limits"
  for limits
proof
  fix m rest
  assume "message_within limits m"
  then show "decode_message (message_bytes m @ rest) limits =
      Ok (Some (m, length (message_bytes m)))"
    by (rule decode_message_front)
next
  fix m k
  assume "message_within limits m" "k < length (message_bytes m)"
  then show "decode_message (take k (message_bytes m)) limits = Ok None"
    by (rule decode_message_prefix)
next
  fix buf m n
  assume "decode_message buf limits = Ok (Some (m, n))"
  then show "message_within limits m \<and> n \<le> length buf \<and> take n buf = message_bytes m \<and> 0 < n"
    using decode_message_SomeD [of buf limits m n] by (simp add: HEADER_LEN_def)
qed

lemma decode_message_header:
  assumes "length lb = 4"
  shows "decode_message (t # lb @ rest) limits =
    (case message_type_try_from t of
       None \<Rightarrow> Err (FrameErr (UnknownType t))
     | Some ty \<Rightarrow>
         if be_nat lb > max_frame_len limits then Err (FrameErr (LengthTooLarge (be_nat lb) (max_frame_len limits)))
         else if length rest < be_nat lb then Ok None
         else if ty = TyData \<and> be_nat lb > max_data_len limits
         then Err (DataTooLarge (be_nat lb) (max_data_len limits))
         else Ok (Some (message_from_frame \<lparr>frame_ty = ty, frame_payload = take (be_nat lb) rest\<rparr>, HEADER_LEN + be_nat lb)))"
  by (simp add: decode_message_def decode_frame_header [OF assms] split: option.splits)

lemma decode_message_short: "length buf < HEADER_LEN \<Longrightarrow> decode_message buf limits = Ok None"
  by (simp add: decode_message_def decode_frame_def)

text \<open>An error is there to stay.\<close>

lemma decode_message_error_append:
  assumes "decode_message buf limits = Err e"
  shows "decode_message (buf @ rest) limits = Err e"
proof -
  have "HEADER_LEN \<le> length buf" using assms decode_message_short by (rule_tac ccontr) simp
  then obtain t lb body where "buf = t # lb @ body" and lb: "length lb = 4" by (rule header_split)
  then show ?thesis
    using assms by (simp add: decode_message_header [OF lb] split: option.splits if_splits)
qed

lemma decode_message_bounded:
  assumes "HEADER_LEN + max_frame_len limits \<le> length buf"
  shows "decode_message buf limits \<noteq> Ok None"
proof -
  have "HEADER_LEN \<le> length buf" using assms by simp
  then obtain t lb rest where "buf = t # lb @ rest" and lb: "length lb = 4" by (rule header_split)
  then show ?thesis
    using assms by (simp add: decode_message_header [OF lb] HEADER_LEN_def split: option.splits)
qed

section \<open>Properties\<close>

text \<open>C30: Decoding a buffer yields a message and a length exactly when the buffer starts with
  the encoding of that message and the message respects the limits; the length is that of the
  encoding.\<close>

theorem decode_message_complete:
  "decode_message buf limits = Ok (Some (m, n)) \<longleftrightarrow>
     message_within limits m \<and> n = length (message_bytes m) \<and> take n buf = message_bytes m"
proof
  assume "decode_message buf limits = Ok (Some (m, n))"
  from decode_message_SomeD [OF this]
  show "message_within limits m \<and> n = length (message_bytes m) \<and> take n buf = message_bytes m"
    by simp
next
  assume r: "message_within limits m \<and> n = length (message_bytes m) \<and> take n buf = message_bytes m"
  then have "buf = message_bytes m @ drop n buf" by (metis append_take_drop_id)
  with r decode_message_front [of limits m "drop n buf"]
  show "decode_message buf limits = Ok (Some (m, n))" by simp
qed

text \<open>C39: The decoder of a byte stream decides early and for good.  Whatever it answers other than
  "not yet" stays its answer when more bytes arrive; it never waits with a full frame of the largest
  size in the buffer, so what a peer can make it buffer is bounded; and it reports an error only for a
  buffer that is neither the beginning of an encoded message within the limits nor begins with one.\<close>

theorem decode_message_decides:
  "(decode_message buf limits \<noteq> Ok None \<longrightarrow> decode_message (buf @ rest) limits = decode_message buf limits) \<and>
   (HEADER_LEN + max_frame_len limits \<le> length buf \<longrightarrow> decode_message buf limits \<noteq> Ok None) \<and>
   (decode_message buf limits = Err e \<longrightarrow>
      (\<forall>m bs ext. message_within limits m \<and> encode_message m [] = Ok bs \<longrightarrow> buf @ ext \<noteq> bs \<and> bs @ ext \<noteq> buf))"
proof (intro conjI impI allI, goal_cases)
  case 1
  then show ?case
    by (cases "decode_message buf limits")
      (auto simp: decode_message_error_append msg_stream.decode_stable)
next
  case 2
  then show ?case by (rule decode_message_bounded)
next
  case (3 m bs ext)
  then have "bs = message_bytes m" using encode_message_bytes [of m "[]"] by (simp add: message_within_def)
  then show ?case using 3 msg_stream.decode_comparable [of limits m buf ext] by auto
next
  case (4 m bs ext)
  then have "bs = message_bytes m" using encode_message_bytes [of m "[]"] by (simp add: message_within_def)
  then show ?case using 4 msg_stream.decode_comparable [of limits m buf ext] by auto
qed

text \<open>A peer announces a DATA frame of 16 megabytes: the decoder gives up with the header.\<close>

theorem decode_message_decides_witness:
  "decode_message [0x0a, 1, 0, 0, 0] (message_limits_from_mtu 1400) = Err (FrameErr (LengthTooLarge 16777216 1400)) \<and>
   decode_message ([0x0a, 1, 0, 0, 0] @ replicate 16777216 7) (message_limits_from_mtu 1400) =
     Err (FrameErr (LengthTooLarge 16777216 1400))"
proof -
  have "decode_message [0x0a, 1, 0, 0, 0] (message_limits_from_mtu 1400) = Err (FrameErr (LengthTooLarge 16777216 1400))"
    by (simp add: decode_message_def decode_frame_def HEADER_LEN_def message_type_try_from_def u32_from_be_bytes_def
        be_nat_def message_limits_from_mtu_def MAX_CONTROL_FRAME_LEN_def payload_lens Let_def)
  then show ?thesis
    using decode_message_decides [of "[0x0a, 1, 0, 0, 0]" "message_limits_from_mtu 1400" "replicate 16777216 7"]
    by (metis Inl_Inr_False)
qed

end
