(* ===== verification/Admissibility.thy ===== *)
theory Admissibility
  imports Framing
begin

text \<open>
  The shared admissibility rules of \<open>slt-core/src/proto/admissibility.rs\<close>: which endpoint may
  send which message, in which phase and on which transport, and the check of the
  fixed-layout payloads.  Also the canonical bytes an \<open>AUTH\<close> signature covers
  (\<open>proto/auth.rs\<close>) and the address extraction of \<open>packet.rs\<close> that the data path uses on
  \<open>DATA\<close> packets.
\<close>

section \<open>Direction, phase and transport\<close>

datatype message_sender = FromClient | FromServer

datatype protocol_phase = Authentication | Established

datatype message_transport = Tcp | UdpQsp

record message_context =
  ctx_sender :: message_sender
  ctx_phase :: protocol_phase
  ctx_transport :: message_transport

datatype message_validation_error =
    InvalidDirection message_type message_sender
  | InvalidPhase message_type protocol_phase
  | InvalidTransport message_type message_transport
  | InvalidPayload message_type payload_error

fun validation_error_type :: "message_validation_error \<Rightarrow> message_type" where
  "validation_error_type (InvalidDirection t _) = t"
| "validation_error_type (InvalidPhase t _) = t"
| "validation_error_type (InvalidTransport t _) = t"
| "validation_error_type (InvalidPayload t _) = t"

fun is_valid_direction :: "message_type \<Rightarrow> message_sender \<Rightarrow> bool" where
  "is_valid_direction t FromClient \<longleftrightarrow>
     t = TyAuth \<or> t = TyRegisterCid \<or> t = TyPing \<or> t = TyPong \<or> t = TyClose \<or> t = TyData \<or>
     t = TyUpgradeProbe \<or> t = TyUdpReady \<or> t = TySwitchAck \<or> t = TyFallbackToTcp \<or>
     t = TyFallbackOk"
| "is_valid_direction t FromServer \<longleftrightarrow>
     t = TyAuthOk \<or> t = TyAuthFail \<or> t = TyRegisterOk \<or> t = TyRegisterFail \<or> t = TyPing \<or>
     t = TyPong \<or> t = TyClose \<or> t = TyData \<or> t = TyUpgradeProbeAck \<or> t = TySwitchToUdp \<or>
     t = TyFallbackToTcp \<or> t = TyFallbackOk \<or> t = TySwitchOk"

fun is_valid_phase :: "message_type \<Rightarrow> protocol_phase \<Rightarrow> bool" where
  "is_valid_phase t Authentication \<longleftrightarrow>
     t = TyAuth \<or> t = TyAuthOk \<or> t = TyAuthFail \<or> t = TyPing \<or> t = TyPong \<or> t = TyClose"
| "is_valid_phase t Established \<longleftrightarrow> \<not> (t = TyAuth \<or> t = TyAuthOk \<or> t = TyAuthFail)"

fun is_valid_transport :: "message_type \<Rightarrow> message_transport \<Rightarrow> bool" where
  "is_valid_transport t Tcp \<longleftrightarrow> \<not> (t = TyUpgradeProbe \<or> t = TyUpgradeProbeAck)"
| "is_valid_transport t UdpQsp \<longleftrightarrow>
     t = TyPing \<or> t = TyPong \<or> t = TyClose \<or> t = TyData \<or> t = TyUpgradeProbe \<or>
     t = TyUpgradeProbeAck"

definition validate_message_type ::
    "message_type \<Rightarrow> message_context \<Rightarrow> (unit, message_validation_error) result" where
  "validate_message_type t ctx =
     (if \<not> is_valid_direction t (ctx_sender ctx) then Err (InvalidDirection t (ctx_sender ctx))
      else if \<not> is_valid_phase t (ctx_phase ctx) then Err (InvalidPhase t (ctx_phase ctx))
      else if \<not> is_valid_transport t (ctx_transport ctx)
      then Err (InvalidTransport t (ctx_transport ctx))
      else Ok ())"

section \<open>Fixed payloads\<close>

definition discard :: "('a, 'e) result \<Rightarrow> (unit, 'e) result" where
  "discard r = map_result (\<lambda>_. ()) r"

definition decode_fixed_payload :: "message \<Rightarrow> (unit, payload_error) result" where
  "decode_fixed_payload m =
     (case m of
        Auth payload \<Rightarrow> discard (auth_payload_decode payload)
      | AuthOk payload \<Rightarrow> discard (auth_ok_payload_decode payload)
      | AuthFail payload \<Rightarrow> discard (auth_fail_payload_decode payload)
      | RegisterCid _ \<Rightarrow> Ok ()
      | Data _ \<Rightarrow> Ok ()
      | RegisterOk payload \<Rightarrow> discard (register_ok_decode payload)
      | RegisterFail payload \<Rightarrow> discard (register_fail_decode payload)
      | Ping payload \<Rightarrow> discard (ping_decode payload)
      | Pong payload \<Rightarrow> discard (pong_decode payload)
      | Close payload \<Rightarrow> discard (close_decode payload)
      | UpgradeProbe payload \<Rightarrow> discard (upgrade_probe_decode payload)
      | UpgradeProbeAck payload \<Rightarrow> discard (upgrade_probe_ack_decode payload)
      | UdpReady payload \<Rightarrow> discard (udp_ready_decode payload)
      | SwitchToUdp payload \<Rightarrow> discard (switch_to_udp_decode payload)
      | SwitchAck payload \<Rightarrow> discard (switch_ack_decode payload)
      | FallbackToTcp payload \<Rightarrow> discard (fallback_to_tcp_decode payload)
      | FallbackOk payload \<Rightarrow> discard (fallback_ok_decode payload)
      | SwitchOk payload \<Rightarrow> discard (switch_ok_decode payload))"

definition validate_fixed_payload :: "message \<Rightarrow> (unit, message_validation_error) result" where
  "validate_fixed_payload m = map_err (InvalidPayload (message_ty m)) (decode_fixed_payload m)"

definition validate_message ::
    "message \<Rightarrow> message_context \<Rightarrow> (unit, message_validation_error) result" where
  "validate_message m ctx =
     bind_result (validate_message_type (message_ty m) ctx) (\<lambda>_. validate_fixed_payload m)"

section \<open>The signed context of an AUTH message\<close>

text \<open>The ASCII bytes of \<open>slt-auth-v2\<close>.\<close>

definition AUTH_CONTEXT_PREFIX :: bytes where
  "AUTH_CONTEXT_PREFIX = [0x73, 0x6c, 0x74, 0x2d, 0x61, 0x75, 0x74, 0x68, 0x2d, 0x76, 0x32]"

definition auth_signature_context ::
    "client_id \<Rightarrow> ipv4_addr \<Rightarrow> u16 \<Rightarrow> bytes \<Rightarrow> bytes" where
  "auth_signature_context client_id assigned_ipv4 tun_mtu challenge =
     AUTH_CONTEXT_PREFIX @ client_id_bytes client_id @ ipv4_octets assigned_ipv4
       @ u16_to_be_bytes tun_mtu @ challenge"

text \<open>\<open>build_auth_payload\<close> with the Ed25519 signer of the client's key as a parameter.\<close>

definition build_auth_payload ::
    "(bytes \<Rightarrow> bytes) \<Rightarrow> client_id \<Rightarrow> ipv4_addr \<Rightarrow> u16 \<Rightarrow> bytes \<Rightarrow> auth_payload" where
  "build_auth_payload sign client_id assigned_ipv4 tun_mtu challenge =
     (let context = auth_signature_context client_id assigned_ipv4 tun_mtu challenge
      in \<lparr>ap_client_id = client_id, ap_assigned_ipv4 = assigned_ipv4, ap_tun_mtu = tun_mtu,
          ap_challenge = challenge, ap_signature = sign context\<rparr>)"

section \<open>Addresses of a tunnelled packet\<close>

definition IPV4_MIN_HEADER_LEN :: nat where
  "IPV4_MIN_HEADER_LEN = 20"

definition extract_addr :: "bytes \<Rightarrow> nat \<Rightarrow> ipv4_addr option" where
  "extract_addr packet offset =
     (if length packet < IPV4_MIN_HEADER_LEN then None
      else if drop_bit 4 (packet ! 0) \<noteq> 4 then None
      else
        let ihl = unat (packet ! 0 AND 0x0f) * 4 in
        if ihl < IPV4_MIN_HEADER_LEN \<or> length packet < ihl then None
        else if length packet < offset + 4 then None
        else Some (Ipv4Addr (packet ! offset) (packet ! (offset + 1))
                     (packet ! (offset + 2)) (packet ! (offset + 3))))"

definition extract_src_ipv4 :: "bytes \<Rightarrow> ipv4_addr option" where
  "extract_src_ipv4 packet = extract_addr packet 12"

definition extract_dst_ipv4 :: "bytes \<Rightarrow> ipv4_addr option" where
  "extract_dst_ipv4 packet = extract_addr packet 16"

section \<open>Facts\<close>

lemma validate_message_type_Ok:
  "validate_message_type t ctx = Ok () \<longleftrightarrow>
     is_valid_direction t (ctx_sender ctx) \<and> is_valid_phase t (ctx_phase ctx) \<and>
     is_valid_transport t (ctx_transport ctx)"
  by (auto simp: validate_message_type_def)

lemma discard_Ok [simp]: "discard r = Ok u \<longleftrightarrow> is_ok r"
  by (cases r) (auto simp: discard_def)

lemma validate_fixed_payload_Ok:
  "validate_fixed_payload m = Ok () \<longleftrightarrow> decode_fixed_payload m = Ok ()"
  by (simp add: validate_fixed_payload_def)

lemma validate_message_Ok:
  "validate_message m ctx = Ok () \<longleftrightarrow>
     validate_message_type (message_ty m) ctx = Ok () \<and> decode_fixed_payload m = Ok ()"
  by (auto simp: validate_message_def validate_fixed_payload_Ok)

lemma validate_message_error_type:
  "validate_message m ctx = Err e \<Longrightarrow> validation_error_type e = message_ty m"
  by (auto simp: validate_message_def validate_fixed_payload_def bind_result_Inl
      validate_message_type_def split: if_splits)

text \<open>Every fixed payload that decodes is at most \<open>MAX_CONTROL_FRAME_LEN\<close> bytes long.\<close>

lemma fixed_payload_bound:
  assumes "decode_fixed_payload m = Ok ()" "message_ty m \<noteq> TyData" "message_ty m \<noteq> TyRegisterCid"
  shows "length (message_payload m) \<le> MAX_CONTROL_FRAME_LEN"
proof (cases m)
  case (RegisterOk payload)
  with assms show ?thesis
    by (auto simp: decode_fixed_payload_def is_ok_iff register_ok_decode_Ok_iff
        cid_length_as_slice MAX_CONTROL_FRAME_LEN_def payload_lens)
qed (use assms in \<open>auto simp: decode_fixed_payload_def is_ok_def auth_payload_decode_def
    auth_ok_payload_decode_def auth_fail_payload_decode_def register_fail_decode_def
    ping_decode_def pong_decode_def close_decode_def upgrade_probe_decode_def
    upgrade_probe_ack_decode_def udp_ready_decode_def switch_to_udp_decode_def
    switch_ack_decode_def fallback_to_tcp_decode_def fallback_ok_decode_def switch_ok_decode_def
    MAX_CONTROL_FRAME_LEN_def payload_lens split: if_splits option.splits\<close>)

lemma auth_signature_context_inject:
  assumes "length (client_id_bytes c) = 16" "length (client_id_bytes c') = 16"
    and "auth_signature_context c ip mtu ch = auth_signature_context c' ip' mtu' ch'"
  shows "c = c' \<and> ip = ip' \<and> mtu = mtu' \<and> ch = ch'"
proof -
  obtain a b d e where ip: "ip = Ipv4Addr a b d e" by (cases ip)
  obtain a' b' d' e' where ip': "ip' = Ipv4Addr a' b' d' e'" by (cases ip')
  have "client_id_bytes c = client_id_bytes c' \<and> [a, b, d, e] = [a', b', d', e'] \<and>
      u16_to_be_bytes mtu = u16_to_be_bytes mtu' \<and> ch = ch'"
    using assms by (simp add: auth_signature_context_def ip ip')
  then show ?thesis
    using u16_be_roundtrip by (metis client_id.expand ip ip' list.inject)
qed

lemma build_auth_payload_wf:
  assumes "length (client_id_bytes c) = 16" "length challenge = AUTH_CHALLENGE_LEN"
    and "\<And>ctx. length (sign ctx) = AUTH_SIGNATURE_LEN"
  shows "auth_payload_wf (build_auth_payload sign c ip mtu challenge)"
  using assms by (simp add: auth_payload_wf_def build_auth_payload_def Let_def)

section \<open>Properties\<close>

text \<open>C34: Every control message that passes validation, and every well-formed registration, fits
  the frame limit derived from any tunnel MTU, so a peer's frame decoder never rejects one as too
  large.\<close>

theorem validated_control_fits:
  assumes "validate_message m ctx = Ok ()" "message_ty m \<noteq> TyData"
    and "message_ty m = TyRegisterCid \<Longrightarrow> is_ok (register_cid_decode (message_payload m))"
  shows "message_within (message_limits_from_mtu mtu) m"
proof -
  have "length (message_payload m) \<le> MAX_CONTROL_FRAME_LEN"
  proof (cases "message_ty m = TyRegisterCid")
    case True
    then obtain p where "register_cid_decode (message_payload m) = Ok p"
      using assms(3) by (auto simp: is_ok_iff)
    then have "register_cid_wf p" "register_cid_encode p [] = Ok (message_payload m)"
      using register_cid.decode_canonical by blast+
    then show ?thesis using register_cid_encoded_len_correct [of p "[]"] by force
  next
    case False
    then show ?thesis using assms fixed_payload_bound validate_message_Ok by blast
  qed
  then show ?thesis
    using assms(2)
    by (simp add: message_within_def message_limits_from_mtu_def MAX_CONTROL_FRAME_LEN_def Let_def
        payload_lens)
qed

theorem validated_control_fits_witness:
  "message_within (message_limits_from_mtu 1280) (Ping [0, 0, 0, 0, 0, 0, 0, 7])"
  by (rule validated_control_fits [where ctx = "\<lparr>ctx_sender = FromClient, ctx_phase = Established,
          ctx_transport = UdpQsp\<rparr>"])
    (simp_all add: validate_message_def validate_message_type_def validate_fixed_payload_def
      decode_fixed_payload_def ping_decode_def discard_def payload_lens)

text \<open>C35: Before authentication completes only the three AUTH messages, each from its own side
  and over TCP, and PING, PONG and CLOSE are admissible; in the established phase no AUTH message
  is, and over UDP-QSP only liveness, close, data and probe messages are.\<close>

theorem validation_isolates_phases:
  assumes "validate_message m ctx = Ok ()"
  shows "(ctx_phase ctx = Authentication \<longrightarrow>
            message_ty m = TyAuth \<and> ctx_sender ctx = FromClient \<and> ctx_transport ctx = Tcp \<or>
            message_ty m \<in> {TyAuthOk, TyAuthFail} \<and> ctx_sender ctx = FromServer \<and>
              ctx_transport ctx = Tcp \<or>
            message_ty m \<in> {TyPing, TyPong, TyClose}) \<and>
         (ctx_phase ctx = Established \<longrightarrow> message_ty m \<notin> {TyAuth, TyAuthOk, TyAuthFail}) \<and>
         (ctx_transport ctx = UdpQsp \<longrightarrow>
            message_ty m \<in> {TyPing, TyPong, TyClose, TyData, TyUpgradeProbe, TyUpgradeProbeAck})"
proof -
  have v: "is_valid_direction (message_ty m) (ctx_sender ctx)"
      "is_valid_phase (message_ty m) (ctx_phase ctx)"
      "is_valid_transport (message_ty m) (ctx_transport ctx)"
    using assms by (simp_all add: validate_message_Ok validate_message_type_Ok)
  then show ?thesis
    by (cases "ctx_sender ctx"; cases "ctx_phase ctx"; cases "ctx_transport ctx") auto
qed

theorem validation_isolates_phases_witness:
  "message_ty (Ping [0, 0, 0, 0, 0, 0, 0, 7])
     \<in> {TyPing, TyPong, TyClose, TyData, TyUpgradeProbe, TyUpgradeProbeAck}"
  using validation_isolates_phases [of "Ping [0, 0, 0, 0, 0, 0, 0, 7]"
      "\<lparr>ctx_sender = FromClient, ctx_phase = Established, ctx_transport = UdpQsp\<rparr>"]
  by (simp add: validate_message_def validate_message_type_def validate_fixed_payload_def
      decode_fixed_payload_def ping_decode_def discard_def payload_lens)

text \<open>C36: The context signed for an AUTH message determines the client identity, the assigned
  address, the tunnel MTU and the challenge, so a signature for one set of values is never a
  signature over the context of another.\<close>

theorem auth_context_binds_fields:
  assumes "length (client_id_bytes c) = 16" "length (client_id_bytes c') = 16"
    and "auth_signature_context c ip mtu ch = auth_signature_context c' ip' mtu' ch'"
  shows "c = c' \<and> ip = ip' \<and> mtu = mtu' \<and> ch = ch'"
  using assms by (rule auth_signature_context_inject)

theorem auth_context_binds_fields_witness:
  "ClientId (replicate 16 5) = ClientId (replicate 16 5) \<and> Ipv4Addr 10 0 0 2 = Ipv4Addr 10 0 0 2 \<and>
   (1400 :: u16) = 1400 \<and> [1, 2 :: u8] = [1, 2]"
  by (rule auth_context_binds_fields) simp_all

end
