(* ===== verification/Tcp_Channel.thy ===== *)
theory Tcp_Channel
  imports Admissibility
begin

text \<open>
  The framed message channel over TLS (\<open>slt-core/src/transport/tcp.rs\<close>): the read buffer and
  \<open>pop_message_buf\<close>, the draining loop its users run after every read, \<open>write_message\<close>, and
  the interval key updater that requests a TLS key update every \<open>N\<close> outbound messages.
  The TLS stream itself (BoringSSL, tokio) is a parameter: whether \<open>SSL_key_update\<close> and
  \<open>write_all\<close> succeed are arguments of the operations that call them, and the bytes
  written are kept in the channel record.
\<close>

section \<open>The interval key updater\<close>

record interval_key_updater =
  iku_interval :: u64
  iku_until_update :: u64
  iku_request_peer_update :: bool

definition interval_key_updater_new :: "u64 \<Rightarrow> interval_key_updater" where
  "interval_key_updater_new interval =
     \<lparr>iku_interval = interval, iku_until_update = interval, iku_request_peer_update = False\<rparr>"

definition with_peer_response_requested :: "bool \<Rightarrow> interval_key_updater \<Rightarrow> interval_key_updater" where
  "with_peer_response_requested b k = k\<lparr>iku_request_peer_update := b\<rparr>"

definition TCP_TLS_KEY_UPDATE_INTERVAL_MESSAGES :: u64 where
  "TCP_TLS_KEY_UPDATE_INTERVAL_MESSAGES = 2097152"

definition default_interval_key_updater :: interval_key_updater where
  "default_interval_key_updater =
     with_peer_response_requested False
       (interval_key_updater_new TCP_TLS_KEY_UPDATE_INTERVAL_MESSAGES)"

datatype io_error = TlsKeyUpdateFailed | TlsWriteFailed

text \<open>\<open>ssl_key_update req\<close> tells whether \<open>SSL_key_update\<close> returns 1; the second component of
  the answer records the request that was made, if any.\<close>

definition maybe_request_key_update ::
    "(bool \<Rightarrow> bool) \<Rightarrow> interval_key_updater \<Rightarrow>
     interval_key_updater \<times> (bool option, io_error) result" where
  "maybe_request_key_update ssl_key_update k =
     (if iku_until_update k > 1
      then (k\<lparr>iku_until_update := iku_until_update k - 1\<rparr>, Ok None)
      else if ssl_key_update (iku_request_peer_update k)
      then (k\<lparr>iku_until_update := iku_interval k\<rparr>, Ok (Some (iku_request_peer_update k)))
      else (k, Err TlsKeyUpdateFailed))"

section \<open>The channel\<close>

record tcp_channel =
  tc_key_updater :: interval_key_updater
  tc_read_buf :: bytes
  tc_write_buf :: bytes
  tc_sent :: bytes
  tc_key_updates :: nat

datatype tcp_write_error = TcpFrame frame_error | TcpIo io_error

definition tcp_channel_with_state :: "interval_key_updater \<Rightarrow> bytes \<Rightarrow> tcp_channel" where
  "tcp_channel_with_state k read_buf =
     \<lparr>tc_key_updater = k, tc_read_buf = read_buf, tc_write_buf = [], tc_sent = [],
      tc_key_updates = 0\<rparr>"

text \<open>\<open>read_more\<close> appends what the TLS stream delivers.\<close>

definition tcp_read_more :: "bytes \<Rightarrow> tcp_channel \<Rightarrow> tcp_channel" where
  "tcp_read_more chunk c = c\<lparr>tc_read_buf := tc_read_buf c @ chunk\<rparr>"

definition has_buffered_input :: "tcp_channel \<Rightarrow> bool" where
  "has_buffered_input c \<longleftrightarrow> tc_read_buf c \<noteq> []"

definition pop_message_buf ::
    "bytes \<Rightarrow> message_limits \<Rightarrow> ((message_type \<times> bytes) option, message_error) result \<times> bytes" where
  "pop_message_buf read_buf limits =
     (case decode_frame read_buf (max_frame_len limits) of
        Inl e \<Rightarrow> (Err (FrameErr e), read_buf)
      | Inr None \<Rightarrow> (Ok None, read_buf)
      | Inr (Some (f, consumed)) \<Rightarrow>
          if frame_ty f = TyData \<and> length (frame_payload f) > max_data_len limits
          then (Err (DataTooLarge (length (frame_payload f)) (max_data_len limits)), read_buf)
          else (Ok (Some (frame_ty f, take consumed read_buf)), drop consumed read_buf))"

definition try_pop_message ::
    "message_limits \<Rightarrow> tcp_channel \<Rightarrow>
     ((message_type \<times> bytes) option, message_error) result \<times> tcp_channel" where
  "try_pop_message limits c =
     (let (r, rest) = pop_message_buf (tc_read_buf c) limits
      in (r, c\<lparr>tc_read_buf := rest\<rparr>))"

definition tcp_write_message ::
    "(bool \<Rightarrow> bool) \<Rightarrow> (bytes \<Rightarrow> bool) \<Rightarrow> message \<Rightarrow> tcp_channel \<Rightarrow>
     (unit, tcp_write_error) result \<times> tcp_channel" where
  "tcp_write_message ssl_key_update write_all m c =
     (case maybe_request_key_update ssl_key_update (tc_key_updater c) of
        (k, Inl e) \<Rightarrow> (Err (TcpIo e), c\<lparr>tc_key_updater := k\<rparr>)
      | (k, Inr req) \<Rightarrow>
          let c = c\<lparr>tc_key_updater := k,
                    tc_key_updates := tc_key_updates c + (if req = None then 0 else 1),
                    tc_write_buf := []\<rparr>
          in case encode_message m [] of
               Inl e \<Rightarrow> (Err (TcpFrame e), c)
             | Inr buf \<Rightarrow>
                 if write_all buf
                 then (Ok (), c\<lparr>tc_write_buf := buf, tc_sent := tc_sent c @ buf\<rparr>)
                 else (Err (TcpIo TlsWriteFailed), c\<lparr>tc_write_buf := buf\<rparr>))"

text \<open>The loop the users of the channel run after each read: pop messages until the buffer
  holds no complete frame.  Every pop removes at least a header, so it ends.\<close>

lemma pop_message_buf_decreases:
  "pop_message_buf buf limits = (Ok (Some r), rest) \<Longrightarrow> length rest < length buf"
proof -
  assume pop: "pop_message_buf buf limits = (Ok (Some r), rest)"
  then obtain f n where dec: "decode_frame buf (max_frame_len limits) = Ok (Some (f, n))"
    and rest: "rest = drop n buf"
    by (auto simp: pop_message_buf_def split: sum.splits option.splits if_splits)
  have "0 < n" "n \<le> length buf"
    using decode_frame_Some(2,3) [OF dec] by (auto simp: HEADER_LEN_def)
  then show ?thesis by (simp add: rest)
qed

function (sequential) drain_messages ::
    "message_limits \<Rightarrow> bytes \<Rightarrow> message list \<times> bytes \<times> message_error option" where
  "drain_messages limits buf =
     (case pop_message_buf buf limits of
        (Inl e, rest) \<Rightarrow> ([], rest, Some e)
      | (Inr None, rest) \<Rightarrow> ([], rest, None)
      | (Inr (Some (ty, frame_buf)), rest) \<Rightarrow>
          (case drain_messages limits rest of
             (ms, rest', e) \<Rightarrow> (owned_message ty frame_buf # ms, rest', e)))"
  by pat_completeness auto
termination
  by (relation "measure (\<lambda>(limits, buf). length buf)") (auto dest!: sym [of _ "pop_message_buf _ _"] dest: pop_message_buf_decreases)

declare drain_messages.simps [simp del]

text \<open>A reader: for each chunk the stream delivers, read it and drain.  It stops at the
  first error.\<close>

fun run_reader ::
    "message_limits \<Rightarrow> bytes \<Rightarrow> bytes list \<Rightarrow> message list \<times> bytes \<times> message_error option" where
  "run_reader limits buf [] = ([], buf, None)"
| "run_reader limits buf (chunk # chunks) =
     (case drain_messages limits (buf @ chunk) of
        (ms, rest, Some e) \<Rightarrow> (ms, rest, Some e)
      | (ms, rest, None) \<Rightarrow>
          (case run_reader limits rest chunks of
             (ms', rest', e) \<Rightarrow> (ms @ ms', rest', e)))"

text \<open>A writer: send the messages in order, stopping at the first failure.\<close>

fun write_all_messages ::
    "(bool \<Rightarrow> bool) \<Rightarrow> (bytes \<Rightarrow> bool) \<Rightarrow> message list \<Rightarrow> tcp_channel \<Rightarrow>
     (unit, tcp_write_error) result \<times> tcp_channel" where
  "write_all_messages ssl_ku wa [] c = (Ok (), c)"
| "write_all_messages ssl_ku wa (m # ms) c =
     (case tcp_write_message ssl_ku wa m c of
        (Inl e, c') \<Rightarrow> (Err e, c')
      | (Inr _, c') \<Rightarrow> write_all_messages ssl_ku wa ms c')"

text \<open>The countdown stays within the interval.\<close>

definition iku_inv :: "interval_key_updater \<Rightarrow> bool" where
  "iku_inv k \<longleftrightarrow> 1 \<le> iku_until_update k \<and> iku_until_update k \<le> iku_interval k"

lemma tcp_write_message_read_buf:
  "tcp_write_message ku wa m c = (r, c') \<Longrightarrow> tc_read_buf c' = tc_read_buf c"
  by (auto simp: tcp_write_message_def Let_def split: prod.splits sum.splits if_splits)

lemma try_pop_message_decreases:
  "try_pop_message limits c = (Ok (Some r), c') \<Longrightarrow> length (tc_read_buf c') < length (tc_read_buf c)"
  by (auto simp: try_pop_message_def split: prod.splits dest: pop_message_buf_decreases)

lemma tcp_write_message_done:
  assumes "\<And>b. ku b" "\<And>bs. wa bs" "length (message_payload m) < 2 ^ 32"
  obtains tcp where "tcp_write_message ku wa m c = (Ok (), tcp)" "tc_read_buf tcp = tc_read_buf c"
proof -
  have "\<exists>buf. encode_message m [] = Ok buf" using assms(3) by (simp add: encode_message_def encode_frame_Ok)
  then have "\<exists>tcp. tcp_write_message ku wa m c = (Ok (), tcp)"
    using assms(1,2)
    by (cases "1 < iku_until_update (tc_key_updater c)")
      (auto simp: tcp_write_message_def maybe_request_key_update_def Let_def)
  then show ?thesis using that tcp_write_message_read_buf by blast
qed

section \<open>Reading\<close>

text \<open>Popping a frame is decoding a message, with the frame bytes kept.\<close>

lemma pop_message_buf_decode:
  "pop_message_buf buf limits =
     (case decode_message buf limits of
        Inl e \<Rightarrow> (Err e, buf)
      | Inr None \<Rightarrow> (Ok None, buf)
      | Inr (Some (m, n)) \<Rightarrow> (Ok (Some (message_ty m, take n buf)), drop n buf))"
  by (auto simp: pop_message_buf_def decode_message_def split: sum.splits option.splits)

lemma owned_message_bytes: "owned_message (message_ty m) (message_bytes m) = m"
proof -
  have "drop HEADER_LEN (message_bytes m) = message_payload m"
    by (simp add: message_bytes_def HEADER_LEN_def drop_Cons')
  then show ?thesis
    using message_from_frame_from_message [of m]
    by (simp add: owned_message_def frame_from_message_def)
qed

lemma drain_messages_Some:
  assumes "decode_message buf limits = Ok (Some (m, n))"
  shows "drain_messages limits buf =
    (case drain_messages limits (drop n buf) of (ms, rest, e) \<Rightarrow> (m # ms, rest, e))"
  using decode_message_SomeD(3) [OF assms] owned_message_bytes [of m]
  by (subst drain_messages.simps) (simp add: pop_message_buf_decode assms)

lemma drain_messages_None:
  assumes "decode_message buf limits = Ok None"
  shows "drain_messages limits buf = ([], buf, None)"
  by (subst drain_messages.simps) (simp add: pop_message_buf_decode assms)

lemma drain_messages_front:
  assumes "message_within limits m"
  shows "drain_messages limits (message_bytes m @ buf) =
    (case drain_messages limits buf of (ms, rest, e) \<Rightarrow> (m # ms, rest, e))"
  using drain_messages_Some [OF decode_message_front [OF assms, of buf]] by simp

text \<open>A buffer that is a number of whole frames and a proper prefix of a further one.\<close>

lemma drain_messages_concat:
  assumes "list_all (message_within limits) ms" "decode_message buf limits = Ok None"
  shows "drain_messages limits (concat (map message_bytes ms) @ buf) = (ms, buf, None)"
  using assms by (induction ms) (simp_all add: drain_messages_front drain_messages_None)

text \<open>Whatever was read so far, the rest of a stream of whole frames splits the same way.\<close>

lemma stream_cut:
  assumes "list_all (message_within limits) ms" "concat (map message_bytes ms) = xs @ ys"
  obtains sofar todo buf where "ms = sofar @ todo" "xs = concat (map message_bytes sofar) @ buf"
    "decode_message buf limits = Ok None" "concat (map message_bytes todo) = buf @ ys"
  using assms
proof (induction ms arbitrary: xs thesis)
  case Nil
  show ?case
    by (rule Nil.prems(1) [of "[]" "[]" "[]"])
      (use Nil in \<open>simp_all add: decode_message_def decode_frame_def HEADER_LEN_def\<close>)
next
  case (Cons m ms)
  show ?case
  proof (cases "length xs < length (message_bytes m)")
    case True
    have "xs = take (length xs) (message_bytes m)"
      using arg_cong [OF Cons.prems(3), of "take (length xs)"] True by simp
    then have "decode_message xs limits = Ok None"
      using decode_message_prefix [of limits m "length xs"] Cons.prems(2) True by simp
    with Cons.prems(3) show ?thesis by (intro Cons.prems(1) [of "[]" "m # ms" xs]) simp_all
  next
    case False
    then have "take (length (message_bytes m)) xs = message_bytes m"
      using arg_cong [OF Cons.prems(3), of "take (length (message_bytes m))"] by simp
    then obtain xs' where xs: "xs = message_bytes m @ xs'"
      by (metis append_take_drop_id)
    with Cons.prems have "list_all (message_within limits) ms"
      and "concat (map message_bytes ms) = xs' @ ys" by auto
    then obtain sofar todo buf where "ms = sofar @ todo"
      "xs' = concat (map message_bytes sofar) @ buf"
      "decode_message buf limits = Ok None" "concat (map message_bytes todo) = buf @ ys"
      using Cons.IH by blast
    with xs show ?thesis by (intro Cons.prems(1) [of "m # sofar" todo buf]) simp_all
  qed
qed

lemma run_reader_stream:
  assumes "list_all (message_within limits) ms"
    and "buf @ concat chunks = concat (map message_bytes ms)"
    and "decode_message buf limits = Ok None"
  shows "run_reader limits buf chunks = (ms, [], None)"
  using assms
proof (induction chunks arbitrary: ms buf)
  case Nil
  have "drain_messages limits (concat (map message_bytes ms) @ []) = (ms, [], None)"
    by (rule drain_messages_concat)
      (use Nil in \<open>simp_all add: decode_message_def decode_frame_def HEADER_LEN_def\<close>)
  moreover have "drain_messages limits buf = ([], buf, None)"
    using Nil by (intro drain_messages_None)
  ultimately show ?case using Nil by simp
next
  case (Cons chunk chunks)
  have "concat (map message_bytes ms) = (buf @ chunk) @ concat chunks"
    using Cons.prems(2) by simp
  then obtain sofar todo rest where split: "ms = sofar @ todo"
    "buf @ chunk = concat (map message_bytes sofar) @ rest"
    "decode_message rest limits = Ok None" "concat (map message_bytes todo) = rest @ concat chunks"
    by (rule stream_cut [OF Cons.prems(1)])
  have "drain_messages limits (buf @ chunk) = (sofar, rest, None)"
    unfolding split(2) using Cons.prems(1) split by (intro drain_messages_concat) auto
  moreover have "run_reader limits rest chunks = (todo, [], None)"
    using Cons.prems(1) split by (intro Cons.IH) auto
  ultimately show ?case by (simp add: split(1))
qed

section \<open>Writing\<close>

lemma tcp_write_message_sent:
  assumes "tcp_write_message ssl_ku wa m c = (Ok (), c')"
  shows "tc_sent c' = tc_sent c @ message_bytes m" "length (message_payload m) < 2 ^ 32"
  using assms
  by (auto simp: tcp_write_message_def encode_message_def encode_frame_def message_bytes_def
      Let_def split: prod.splits sum.splits if_splits)

lemma write_all_messages_sent:
  "write_all_messages ssl_ku wa ms c = (Ok (), c') \<Longrightarrow>
   tc_sent c' = tc_sent c @ concat (map message_bytes ms)"
  by (induction ms arbitrary: c) (auto split: prod.splits sum.splits dest!: tcp_write_message_sent(1))

text \<open>One update is requested per interval.\<close>

lemma maybe_request_key_update_count:
  assumes "iku_inv k" "maybe_request_key_update ssl_ku k = (k', Ok req)"
  shows "iku_inv k'" "iku_interval k' = iku_interval k"
    "unat (iku_interval k) - unat (iku_until_update k) + 1 =
       (if req = None then 0 else 1) * unat (iku_interval k)
       + (unat (iku_interval k) - unat (iku_until_update k'))"
proof -
  let ?u = "iku_until_update k" and ?i = "iku_interval k"
  have inv: "1 \<le> unat ?u" "unat ?u \<le> unat ?i"
    using assms(1) by (auto simp: iku_inv_def word_le_nat_alt)
  have dec: "unat (?u - 1) = unat ?u - 1" if "?u > 1"
    using unat_sub_u64 [OF less_imp_le [OF that]] by simp
  have gt: "1 < unat ?u" if "?u > 1" using that by (simp add: word_less_nat_alt)
  have le: "unat ?u = 1" if "\<not> ?u > 1" using that inv by (simp add: word_less_nat_alt)
  show "iku_inv k'" "iku_interval k' = iku_interval k"
    "unat ?i - unat ?u + 1 = (if req = None then 0 else 1) * unat ?i + (unat ?i - unat (iku_until_update k'))"
    using assms inv dec gt le
    by (auto simp: maybe_request_key_update_def iku_inv_def word_le_nat_alt split: if_splits)
qed

lemma tcp_write_message_updates:
  assumes "iku_inv (tc_key_updater c)" "tcp_write_message ssl_ku wa m c = (Ok (), c')"
  shows "iku_inv (tc_key_updater c')" "iku_interval (tc_key_updater c') = iku_interval (tc_key_updater c)"
    "tc_key_updates c * unat (iku_interval (tc_key_updater c))
       + (unat (iku_interval (tc_key_updater c)) - unat (iku_until_update (tc_key_updater c))) + 1 =
     tc_key_updates c' * unat (iku_interval (tc_key_updater c))
       + (unat (iku_interval (tc_key_updater c)) - unat (iku_until_update (tc_key_updater c')))"
proof -
  obtain k req where k: "maybe_request_key_update ssl_ku (tc_key_updater c) = (k, Ok req)"
    using assms(2) by (auto simp: tcp_write_message_def split: prod.splits sum.splits)
  have c': "tc_key_updater c' = k" "tc_key_updates c' = tc_key_updates c + (if req = None then 0 else 1)"
    using assms(2) k by (auto simp: tcp_write_message_def Let_def split: sum.splits if_splits)
  note D = maybe_request_key_update_count [OF assms(1) k]
  show "iku_inv (tc_key_updater c')" "iku_interval (tc_key_updater c') = iku_interval (tc_key_updater c)"
    using D by (simp_all add: c')
  show "tc_key_updates c * unat (iku_interval (tc_key_updater c))
       + (unat (iku_interval (tc_key_updater c)) - unat (iku_until_update (tc_key_updater c))) + 1 =
     tc_key_updates c' * unat (iku_interval (tc_key_updater c))
       + (unat (iku_interval (tc_key_updater c)) - unat (iku_until_update (tc_key_updater c')))"
    using D(3) by (simp add: c' add_mult_distrib)
qed

lemma write_all_messages_updates:
  assumes "iku_inv (tc_key_updater c)" "write_all_messages ssl_ku wa ms c = (Ok (), c')"
  shows "iku_inv (tc_key_updater c') \<and>
    iku_interval (tc_key_updater c') = iku_interval (tc_key_updater c) \<and>
    tc_key_updates c * unat (iku_interval (tc_key_updater c))
       + (unat (iku_interval (tc_key_updater c)) - unat (iku_until_update (tc_key_updater c)))
       + length ms =
     tc_key_updates c' * unat (iku_interval (tc_key_updater c))
       + (unat (iku_interval (tc_key_updater c)) - unat (iku_until_update (tc_key_updater c')))"
  using assms
proof (induction ms arbitrary: c)
  case Nil
  then show ?case by simp
next
  case (Cons m ms)
  then obtain c1 where c1: "tcp_write_message ssl_ku wa m c = (Ok (), c1)"
    and rest: "write_all_messages ssl_ku wa ms c1 = (Ok (), c')"
    by (auto split: prod.splits sum.splits)
  note D = tcp_write_message_updates [OF Cons.prems(1) c1]
  from Cons.IH [OF D(1) rest] D(2,3) show ?case by simp
qed

section \<open>Properties\<close>

text \<open>C7: Whatever the TLS stream does to the segmentation of the bytes, a reader that drains its
  buffer after every read receives exactly the messages the peer wrote, in order, with nothing left
  over and no error, provided the messages are within the reader's limits.\<close>

theorem tcp_stream_roundtrip:
  assumes "write_all_messages ssl_ku wa ms (tcp_channel_with_state k []) = (Ok (), c)"
    and "list_all (message_within limits) ms"
    and "concat chunks = tc_sent c"
  shows "run_reader limits [] chunks = (ms, [], None)"
proof -
  have "tc_sent c = concat (map message_bytes ms)"
    using write_all_messages_sent [OF assms(1)] by (simp add: tcp_channel_with_state_def)
  then show ?thesis
    using assms(2,3) by (intro run_reader_stream) (simp_all add: decode_message_def decode_frame_def HEADER_LEN_def)
qed

theorem tcp_stream_roundtrip_witness:
  "run_reader (message_limits_from_mtu 1400) [] [[7, 0, 0], [0, 1, 9, 10, 0, 0, 0], [1, 4]] =
     ([Ping [9], Data [4]], [], None)"
proof -
  obtain c where c: "write_all_messages (\<lambda>_. True) (\<lambda>_. True) [Ping [9], Data [4]]
        (tcp_channel_with_state default_interval_key_updater []) = (Ok (), c)"
      "tc_sent c = [7, 0, 0, 0, 1, 9, 10, 0, 0, 0, 1, 4]"
    by (simp add: tcp_channel_with_state_def default_interval_key_updater_def
        interval_key_updater_new_def with_peer_response_requested_def tcp_write_message_def
        maybe_request_key_update_def TCP_TLS_KEY_UPDATE_INTERVAL_MESSAGES_def encode_message_def
        encode_frame_def u32_to_be_bytes_def be_bytes_numeral)
  show ?thesis
    by (rule tcp_stream_roundtrip [OF c(1)])
      (simp_all add: c(2) message_within_def message_limits_from_mtu_def le_max_iff_disj)
qed

text \<open>C37: A writer with a fresh interval key updater requests one TLS key update per interval of
  messages written.\<close>

theorem tls_key_update_cadence:
  assumes "interval \<noteq> 0"
    and "write_all_messages ssl_ku wa ms
           (tcp_channel_with_state (interval_key_updater_new interval) buf) = (Ok (), c)"
  shows "tc_key_updates c = length ms div unat interval"
proof -
  let ?c = "tcp_channel_with_state (interval_key_updater_new interval) buf"
  have pos: "0 < unat interval" using assms(1) by (simp add: unat_gt_0)
  have "iku_inv (tc_key_updater ?c)"
    using pos by (simp add: iku_inv_def tcp_channel_with_state_def interval_key_updater_new_def
        word_le_nat_alt)
  from write_all_messages_updates [OF this assms(2)]
  have inv: "iku_inv (tc_key_updater c)" "iku_interval (tc_key_updater c) = interval"
    and n: "length ms = tc_key_updates c * unat interval
        + (unat interval - unat (iku_until_update (tc_key_updater c)))"
    by (simp_all add: tcp_channel_with_state_def interval_key_updater_new_def)
  have "unat interval - unat (iku_until_update (tc_key_updater c)) < unat interval"
    using inv pos by (simp add: iku_inv_def word_le_nat_alt)
  then show ?thesis using n pos by simp
qed

theorem tls_key_update_cadence_witness:
  "tc_key_updates (snd (write_all_messages (\<lambda>_. True) (\<lambda>_. True) [Ping [], Ping [], Ping []]
     (tcp_channel_with_state (interval_key_updater_new 2) []))) = 1"
proof -
  obtain c where c: "write_all_messages (\<lambda>_. True) (\<lambda>_. True) [Ping [], Ping [], Ping []]
     (tcp_channel_with_state (interval_key_updater_new 2) []) = (Ok (), c)"
    by (simp add: tcp_channel_with_state_def interval_key_updater_new_def tcp_write_message_def
        maybe_request_key_update_def encode_message_def encode_frame_def)
  from tls_key_update_cadence [OF _ c] c show ?thesis by simp
qed

end
