(* ===== verification/Packet_Number.thy ===== *)
theory Packet_Number
  imports Slt_Prelude
begin

text \<open>
  Packet numbers of UDP-QSP (\<open>slt-core/src/crypto/udp_qsp/pn.rs\<close>): the length of the truncated
  number on the wire and the reconstruction of the full 64-bit number from the truncated one
  and the next expected number.  The reconstruction is shown to return the sender's number
  whenever that lies within half a window of the expected one, up to both ends of the 64-bit
  range.
\<close>

definition MAX_WIRE_PN_LEN :: nat where
  "MAX_WIRE_PN_LEN = 4"

definition packet_number_len :: "u64 \<Rightarrow> nat" where
  "packet_number_len pn =
     (if pn \<le> 0xff then 1 else if pn \<le> 0xffff then 2 else if pn \<le> 0xffffff then 3 else 4)"

definition reconstruct_packet_number :: "u64 \<Rightarrow> u64 \<Rightarrow> nat \<Rightarrow> u64" where
  "reconstruct_packet_number truncated_pn expected_pn pn_len =
     (if pn_len = 0 \<or> pn_len > MAX_WIRE_PN_LEN then truncated_pn
      else
        let pn_window = push_bit (pn_len * 8) 1;
            pn_half_window = pn_window div 2;
            pn_mask = pn_window - 1;
            candidate = (expected_pn AND NOT pn_mask) OR truncated_pn;
            candidate =
              (case checked_add_u64 candidate pn_half_window of
                 None \<Rightarrow> candidate
               | Some s \<Rightarrow>
                   if s \<le> expected_pn
                   then (case checked_add_u64 candidate pn_window of
                           None \<Rightarrow> candidate
                         | Some advanced \<Rightarrow> advanced)
                   else candidate);
            candidate =
              (case checked_add_u64 expected_pn pn_half_window of
                 None \<Rightarrow> candidate
               | Some expected_limit \<Rightarrow>
                   if candidate > expected_limit \<and> candidate \<ge> pn_window
                   then candidate - pn_window
                   else candidate)
        in candidate)"

text \<open>The truncated number a header carries: the low \<open>pn_len\<close> bytes.\<close>

definition truncate_pn :: "u64 \<Rightarrow> nat \<Rightarrow> nat" where
  "truncate_pn pn pn_len = unat pn mod 256 ^ pn_len"

text \<open>The sender's number lies within half a window of the receiver's expected one.\<close>

definition within_half_window :: "u64 \<Rightarrow> u64 \<Rightarrow> nat \<Rightarrow> bool" where
  "within_half_window pn expected_pn pn_len \<longleftrightarrow>
     unat expected_pn < unat pn + 256 ^ pn_len div 2 \<and>
     unat pn \<le> unat expected_pn + 256 ^ pn_len div 2"

section \<open>Facts\<close>

lemma packet_number_len_bounds [simp]:
  "1 \<le> packet_number_len pn" "packet_number_len pn \<le> MAX_WIRE_PN_LEN"
  by (simp_all add: packet_number_len_def MAX_WIRE_PN_LEN_def)

lemma packet_number_len_valid [simp]:
  "\<not> MAX_WIRE_PN_LEN < packet_number_len pn" "0 < packet_number_len pn"
  "packet_number_len pn \<noteq> 0"
  by (simp_all add: packet_number_len_def MAX_WIRE_PN_LEN_def)

lemma packet_number_len_small:
  "unat pn < 2 ^ 32 \<Longrightarrow> unat pn < 256 ^ packet_number_len pn"
  by (simp add: packet_number_len_def word_le_nat_alt)

lemma packet_number_len_minimal:
  assumes "n < packet_number_len pn"
  shows "256 ^ n \<le> unat pn \<or> n = 0"
proof -
  consider "n = 0" | "n = 1" | "n = 2" | "n = 3"
    using assms packet_number_len_bounds(2) [of pn] unfolding MAX_WIRE_PN_LEN_def by linarith
  then show ?thesis
    using assms by cases (auto simp: packet_number_len_def word_le_nat_alt split: if_splits)
qed

text \<open>Clearing the low bits and inserting a shorter number is arithmetic.\<close>

lemma unat_take_bit_mod: "unat (take_bit n (w :: u64)) = unat w mod 2 ^ n"
  by (subst unsigned_take_bit_eq) (rule take_bit_eq_mod)

lemma unat_clear_low:
  fixes e :: u64
  shows "unat (e AND NOT (mask n)) = unat e - unat e mod 2 ^ n"
proof -
  have "e AND NOT (mask n) = e - take_bit n e"
    by (subst disjunctive_diff_eq_and_not) (auto simp: bit_eq_iff bit_simps)
  moreover have "take_bit n e \<le> e"
    by (simp add: word_le_nat_alt unat_take_bit_mod)
  ultimately show ?thesis
    by (simp add: unat_sub unat_take_bit_mod)
qed

lemma unat_high_or_low:
  fixes e t :: u64
  assumes "unat t < 2 ^ n" "n < 64"
  shows "unat ((e AND NOT (mask n)) OR t) = unat e - unat e mod 2 ^ n + unat t"
proof -
  have t: "take_bit n t = t"
    using assms by (simp add: word_unat_eq_iff unat_take_bit_mod)
  have "(e AND NOT (mask n)) AND take_bit n t = 0"
    by (simp add: bit_eq_iff bit_simps)
  then have "(e AND NOT (mask n)) OR t = (e AND NOT (mask n)) + t"
    using t by (simp add: disjunctive_add_eq_or)
  moreover have "unat e - unat e mod 2 ^ n + unat t < 2 ^ 64"
  proof -
    have "unat e - unat e mod 2 ^ n = 2 ^ n * (unat e div 2 ^ n)"
      by (simp add: minus_mod_eq_mult_div)
    moreover have "unat e div 2 ^ n < 2 ^ (64 - n)"
      using unat_less_exp [of e] assms(2)
      by (simp add: less_mult_imp_div_less flip: power_add)
    then have "2 ^ n * (unat e div 2 ^ n) + 2 ^ n \<le> 2 ^ n * 2 ^ (64 - n)"
      by (metis Suc_leI mult_Suc_right add.commute mult_le_mono2)
    moreover have "(2::nat) ^ n * 2 ^ (64 - n) = 2 ^ 64"
      using assms(2) by (simp flip: power_add)
    ultimately show ?thesis using assms(1) by linarith
  qed
  ultimately show ?thesis
    by (simp add: unat_clear_low unat_add_u64)
qed

lemma unat_exp_u64: "n < 64 \<Longrightarrow> unat (2 ^ n :: u64) = 2 ^ n"
  using unat_of_nat [of "2 ^ n", where ?'a = 64] power_strict_increasing [of n 64 "2::nat"]
  by simp

text \<open>Two numbers with the same low part that are less than a window apart are equal.\<close>

lemma window_candidates:
  fixes p e w :: nat
  assumes w: "w = 2 * h" "0 < h" and near: "e < p + h" "p \<le> e + h"
  defines "c \<equiv> e - e mod w + p mod w"
  shows "p = c \<or> p = c + w \<or> p + w = c"
proof -
  define a b where "a = e div w" and "b = p div w"
  have e: "e = w * a + e mod w" and p: "p = w * b + p mod w"
    by (simp_all add: a_def b_def)
  have c: "c = w * a + p mod w" using e by (simp add: c_def)
  have m: "e mod w < w" "p mod w < w" using w by simp_all
  have "w * b < w * a + 2 * w" "w * a < w * b + 2 * w" using near e p m w by linarith+
  then have "w * b < w * (a + 2)" "w * a < w * (b + 2)" by (simp_all add: algebra_simps)
  then have "b < a + 2" "a < b + 2" using mult_less_cancel1 by blast+
  then have "b = a \<or> b = a + 1 \<or> a = b + 1" by linarith
  then show ?thesis using c p by (auto simp: algebra_simps)
qed

text \<open>The reconstruction after its guard, over the values it computes first.\<close>

lemma reconstruct_steps:
  assumes near: "unat e < unat pn + h" "unat pn \<le> unat e + h"
    and win: "unat W = 2 * h" "unat H = h" "0 < h"
    and cands: "unat pn = unat c \<or> unat pn = unat c + 2 * h \<or> unat pn + 2 * h = unat c"
  shows "(let c1 = (case checked_add_u64 c H of None \<Rightarrow> c
                    | Some s \<Rightarrow> if s \<le> e
                               then (case checked_add_u64 c W of None \<Rightarrow> c | Some a \<Rightarrow> a)
                               else c)
          in case checked_add_u64 e H of None \<Rightarrow> c1
             | Some l \<Rightarrow> if c1 > l \<and> c1 \<ge> W then c1 - W else c1) = pn"
proof -
  have lt: "unat c < 2 ^ 64" "unat pn < 2 ^ 64" "unat e < 2 ^ 64"
    using unat_less_exp [of c] unat_less_exp [of pn] unat_less_exp [of e] by simp_all
  note cmp = checked_add_u64_def word_le_nat_alt word_less_nat_alt unat_add_u64 win
  from cands consider (same) "unat pn = unat c" | (up) "unat pn = unat c + 2 * h"
    | (down) "unat pn + 2 * h = unat c" by blast
  then show ?thesis
  proof cases
    case same
    with near have "c = pn" "\<not> unat c + h \<le> unat e" "\<not> unat e + h < unat c"
      by (simp_all add: word_unat_eq_iff)
    then show ?thesis by (simp add: cmp Let_def)
  next
    case up
    with near lt have "c + W = pn" "unat c + h \<le> unat e" "unat c + 2 * h < 2 ^ 64"
        "unat c + h < 2 ^ 64" "\<not> unat e + h < unat pn"
      by (simp_all add: word_unat_eq_iff unat_add_u64 win)
    then show ?thesis by (simp add: cmp Let_def)
  next
    case down
    then have "c - W = pn" using win
      by (simp add: word_unat_eq_iff unat_sub word_le_nat_alt)
    moreover have "\<not> unat c + h \<le> unat e" "unat e + h < unat c" "unat e + h < 2 ^ 64"
        "2 * h \<le> unat c"
      using near lt down by linarith+
    ultimately show ?thesis by (simp add: cmp Let_def)
  qed
qed

lemma reconstruct_packet_number_correct:
  assumes len: "1 \<le> pn_len" "pn_len \<le> MAX_WIRE_PN_LEN"
    and trunc: "unat t = truncate_pn pn pn_len"
    and near: "within_half_window pn expected_pn pn_len"
  shows "reconstruct_packet_number t expected_pn pn_len = pn"
proof -
  define h w c where "h = (256::nat) ^ pn_len div 2" and "w = (256::nat) ^ pn_len"
    and "c = (expected_pn AND NOT (push_bit (pn_len * 8) 1 - 1)) OR t"
  have n: "pn_len * 8 < 64" using len by (simp add: MAX_WIRE_PN_LEN_def)
  have w2: "w = 2 ^ (pn_len * 8)" by (simp add: w_def power_mult mult.commute [of pn_len])
  have wh: "w = 2 * h" "0 < h"
    using len by (simp_all add: w_def h_def Suc_le_eq) (cases pn_len; simp)+
  have win: "unat (push_bit (pn_len * 8) 1 :: u64) = w"
    using n by (simp add: w2 push_bit_eq_mult unat_exp_u64)
  have half: "unat (push_bit (pn_len * 8) 1 div 2 :: u64) = h"
    using wh win by (simp only: unat_div) simp
  have t: "unat t = unat pn mod w" using trunc by (simp add: truncate_pn_def w_def)
  have c: "unat c = unat expected_pn - unat expected_pn mod w + unat pn mod w"
    using unat_high_or_low [of t "pn_len * 8" expected_pn] n t wh
    by (simp add: c_def w2 [symmetric] mask_eq_decr_exp push_bit_eq_mult)
  have near': "unat expected_pn < unat pn + h" "unat pn \<le> unat expected_pn + h"
    using near by (simp_all add: within_half_window_def h_def)
  have "unat pn = unat c \<or> unat pn = unat c + 2 * h \<or> unat pn + 2 * h = unat c"
    using window_candidates [OF wh near'] c wh(1) by simp
  note body = reconstruct_steps [OF near' win [unfolded wh(1)] half wh(2) this]
  have "\<not> (pn_len = 0 \<or> pn_len > MAX_WIRE_PN_LEN)" using len by simp
  then show ?thesis
    using body unfolding reconstruct_packet_number_def Let_def c_def by (simp only: if_False)
qed

lemma replay_distance_within_half_window:
  assumes "0xff < pn" "unat expected_pn \<le> unat pn + 1024" "unat pn \<le> unat expected_pn + 32768"
  shows "within_half_window pn expected_pn (packet_number_len pn)"
  using assms
  by (simp add: within_half_window_def packet_number_len_def word_less_nat_alt word_le_nat_alt)

lemma unat_truncated:
  "unat (word_of_nat (truncate_pn pn n) :: u64) = truncate_pn pn n"
proof -
  have "truncate_pn pn n \<le> unat pn" by (simp add: truncate_pn_def)
  also have "unat pn < 2 ^ LENGTH(64)" by (rule unat_less_exp)
  finally show ?thesis by (simp add: unat_of_nat)
qed

section \<open>Properties\<close>

text \<open>C31: From the low one to four bytes of a packet number the receiver reconstructs exactly the
  sender's number, anywhere in the 64-bit range, whenever that lies within half a window of the
  number it expects.\<close>

theorem reconstruct_packet_number_exact:
  assumes "1 \<le> pn_len" "pn_len \<le> MAX_WIRE_PN_LEN"
    and "within_half_window pn expected_pn pn_len"
  shows "reconstruct_packet_number (word_of_nat (truncate_pn pn pn_len)) expected_pn pn_len = pn"
  using assms by (intro reconstruct_packet_number_correct) (simp_all add: unat_truncated)

theorem reconstruct_packet_number_exact_witness:
  "reconstruct_packet_number (word_of_nat (truncate_pn 65600 2)) 65500 2 = 65600"
  by (rule reconstruct_packet_number_exact)
    (simp_all add: MAX_WIRE_PN_LEN_def within_half_window_def)

text \<open>With the length the sender chooses, every number above 255 that is at most a replay
  window (1024) behind and at most 32768 ahead of the expected one is reconstructed, so packet
  reordering inside the replay window never corrupts a number.\<close>

lemma reordered_number_reconstructs:
  assumes "0xff < pn" "unat expected_pn \<le> unat pn + 1024" "unat pn \<le> unat expected_pn + 32768"
  shows "reconstruct_packet_number (word_of_nat (truncate_pn pn (packet_number_len pn))) expected_pn
           (packet_number_len pn) = pn"
  using replay_distance_within_half_window [OF assms]
  by (intro reconstruct_packet_number_correct packet_number_len_bounds) (simp_all add: unat_truncated)

text \<open>C40: The bound of 255 in the lemma before is needed: a one-byte number that arrives 128 packets late is
  reconstructed 256 too high, although the replay window would still admit it.\<close>

theorem one_byte_number_late:
  assumes "pn \<le> 0xff"
  shows "reconstruct_packet_number (word_of_nat (truncate_pn pn (packet_number_len pn))) (pn + 128)
           (packet_number_len pn) = pn + 256"
proof -
  have u: "unat pn \<le> 255" using assms by (simp add: word_le_nat_alt)
  then have a: "unat (pn + 128) = unat pn + 128" "unat (pn + 256) = unat pn + 256"
    by (simp_all add: unat_add_u64)
  have l: "packet_number_len pn = 1" using assms by (simp add: packet_number_len_def)
  have "truncate_pn pn 1 = truncate_pn (pn + 256) 1"
    using a by (simp add: truncate_pn_def)
  moreover have "within_half_window (pn + 256) (pn + 128) 1"
    using a by (simp add: within_half_window_def)
  ultimately show ?thesis
    unfolding l by (intro reconstruct_packet_number_correct) (simp_all add: unat_truncated MAX_WIRE_PN_LEN_def)
qed

theorem one_byte_number_late_witness:
  "reconstruct_packet_number (word_of_nat (truncate_pn 255 (packet_number_len 255))) (255 + 128)
     (packet_number_len 255) = 255 + 256"
  by (rule one_byte_number_late) simp

end
