(* ===== verification/Qsp_Packet.thy ===== *)
theory Qsp_Packet
  imports Packet_Number
begin

text \<open>
  Short headers of UDP-QSP packets (\<open>slt-core/src/crypto/udp_qsp/packet.rs\<close> and the constants
  and errors of \<open>udp_qsp/mod.rs\<close>): building a header, masking its first byte and packet
  number with the header-protection mask, and reading it back.  Parsing with the mask that
  protected a built header returns the header's fields and its unmasked bytes.

  \<open>parse_header\<close> and \<open>apply_header_protection\<close> index the first byte of the packet; their
  callers check \<open>require_hp_sample\<close> first, so the packet is never empty there.
\<close>

definition HP_MASK_LEN :: nat where
  "HP_MASK_LEN = 5"

definition HP_SAMPLE_LEN :: nat where
  "HP_SAMPLE_LEN = 16"

definition AEAD_TAG_LEN :: nat where
  "AEAD_TAG_LEN = 16"

datatype qsp_crypto_error =
    UnsupportedCipher | PacketTooShort | InvalidHeader | InvalidPacketNumber | CryptoFail
  | InvalidCid

definition FIXED_BIT :: u8 where
  "FIXED_BIT = 0x40"

definition KEY_PHASE_BIT :: u8 where
  "KEY_PHASE_BIT = 0x04"

definition RESERVED_MASK :: u8 where
  "RESERVED_MASK = 0x18"

definition PN_LEN_MASK :: u8 where
  "PN_LEN_MASK = 0x03"

record opened_packet =
  op_pn :: u64
  op_pn_len :: nat
  op_key_phase :: bool
  op_payload :: bytes

record built_header =
  bh_pn_len :: nat
  bh_pn_offset :: nat

record parsed_header =
  ph_pn :: u64
  ph_pn_len :: nat
  ph_key_phase :: bool
  ph_header :: bytes

definition build_header ::
    "bytes \<Rightarrow> u64 \<Rightarrow> bool \<Rightarrow> bytes \<Rightarrow> (built_header \<times> bytes, qsp_crypto_error) result" where
  "build_header dcid pn key_phase out =
     (let pn_len = packet_number_len pn in
      if pn_len = 0 \<or> pn_len > MAX_WIRE_PN_LEN then Err InvalidPacketNumber
      else
        let pn_offset = 1 + length dcid in
        if pn_len > 255 then Err InvalidPacketNumber
        else
          let pn_len_u8 = (word_of_nat pn_len :: u8);
              first = FIXED_BIT OR ((pn_len_u8 - 1) AND PN_LEN_MASK);
              first = (if key_phase then first OR KEY_PHASE_BIT else first)
          in Ok (\<lparr>bh_pn_len = pn_len, bh_pn_offset = pn_offset\<rparr>,
                 out @ [first] @ dcid @ drop (8 - pn_len) (u64_to_be_bytes pn)))"

definition unmask_pn_bytes :: "nat \<Rightarrow> nat \<Rightarrow> bytes \<Rightarrow> bytes \<Rightarrow> bytes" where
  "unmask_pn_bytes pn_offset pn_len packet hp_mask =
     fold (\<lambda>i b. b[MAX_WIRE_PN_LEN - pn_len + i := packet ! (pn_offset + i) XOR hp_mask ! (1 + i)])
       [0..<pn_len] (replicate MAX_WIRE_PN_LEN 0)"

definition parse_header ::
    "nat \<Rightarrow> bytes \<Rightarrow> bytes \<Rightarrow> (parsed_header, qsp_crypto_error) result" where
  "parse_header dcid_len packet hp_mask =
     (let pn_offset = 1 + dcid_len;
          first = packet ! 0 XOR (hp_mask ! 0 AND 0x1f)
      in
      if first AND FIXED_BIT = 0 \<or> first AND 0x80 \<noteq> 0 then Err InvalidHeader
      else if first AND RESERVED_MASK \<noteq> 0 then Err InvalidHeader
      else
        let pn_len = unat ((first AND PN_LEN_MASK) + 1) in
        if pn_len = 0 \<or> pn_len > MAX_WIRE_PN_LEN then Err InvalidPacketNumber
        else if length packet < pn_offset + pn_len + AEAD_TAG_LEN then Err PacketTooShort
        else
          let pn_bytes = unmask_pn_bytes pn_offset pn_len packet hp_mask;
              pn = ucast (u32_from_be_bytes pn_bytes);
              key_phase = (first AND KEY_PHASE_BIT \<noteq> 0);
              header = [first] @ subslice 1 pn_offset packet
                         @ drop (MAX_WIRE_PN_LEN - pn_len) pn_bytes
          in Ok \<lparr>ph_pn = pn, ph_pn_len = pn_len, ph_key_phase = key_phase,
                 ph_header = header\<rparr>)"

definition apply_header_protection ::
    "bytes \<Rightarrow> nat \<Rightarrow> nat \<Rightarrow> bytes \<Rightarrow> (bytes, qsp_crypto_error) result" where
  "apply_header_protection packet pn_offset pn_len hp_mask =
     (if pn_len = 0 \<or> pn_len > MAX_WIRE_PN_LEN then Err InvalidPacketNumber
      else if length packet < pn_offset + pn_len then Err PacketTooShort
      else
        let packet = packet[0 := packet ! 0 XOR (hp_mask ! 0 AND 0x1f)]
        in Ok (fold (\<lambda>i p. p[pn_offset + i := p ! (pn_offset + i) XOR hp_mask ! (1 + i)])
                 [0..<pn_len] packet))"

definition sample_offset :: "nat \<Rightarrow> nat" where
  "sample_offset dcid_len = 1 + dcid_len + 4"

definition require_hp_sample :: "bytes \<Rightarrow> nat \<Rightarrow> (unit, qsp_crypto_error) result" where
  "require_hp_sample packet dcid_len =
     (let offset = sample_offset dcid_len in
      if length packet < offset + HP_SAMPLE_LEN then Err PacketTooShort else Ok ())"

text \<open>The range is the pair of its start and its end.\<close>

definition hp_sample_range :: "nat \<Rightarrow> nat \<times> nat" where
  "hp_sample_range dcid_len =
     (let offset = sample_offset dcid_len in (offset, offset + HP_SAMPLE_LEN))"

text \<open>The bytes a header occupies before protection.\<close>

definition header_first :: "u64 \<Rightarrow> bool \<Rightarrow> u8" where
  "header_first pn key_phase =
     (let first = FIXED_BIT OR ((word_of_nat (packet_number_len pn) - 1) AND PN_LEN_MASK)
      in if key_phase then first OR KEY_PHASE_BIT else first)"

definition header_bytes :: "bytes \<Rightarrow> u64 \<Rightarrow> bool \<Rightarrow> bytes" where
  "header_bytes dcid pn key_phase =
     [header_first pn key_phase] @ dcid @ be_bytes (packet_number_len pn) (unat pn)"

text \<open>A protected header as bytes: the first byte and the packet number masked.\<close>

definition protected_header :: "bytes \<Rightarrow> u64 \<Rightarrow> bool \<Rightarrow> u8 \<Rightarrow> bytes \<Rightarrow> bytes" where
  "protected_header dcid pn key_phase m ms =
     (header_first pn key_phase XOR (m AND 0x1f)) # dcid
       @ xor_bytes (be_bytes (packet_number_len pn) (unat pn)) ms"

section \<open>Building\<close>

lemma drop_be_bytes: "k \<le> n \<Longrightarrow> drop (n - k) (be_bytes n m) = be_bytes k m"
proof (induction k arbitrary: n m)
  case 0
  then show ?case by simp
next
  case (Suc k)
  then obtain n' where "n = Suc n'" "k \<le> n'" by (cases n) auto
  with Suc.IH [of n' "m div 256"] show ?case by simp
qed

lemma packet_number_len_le_8: "packet_number_len pn \<le> 8"
  using packet_number_len_bounds(2) [of pn] by (simp add: MAX_WIRE_PN_LEN_def)

lemma build_header_eq:
  "build_header dcid pn key_phase out =
     Ok (\<lparr>bh_pn_len = packet_number_len pn, bh_pn_offset = 1 + length dcid\<rparr>,
         out @ header_bytes dcid pn key_phase)"
proof -
  have "\<not> packet_number_len pn > 255"
    using packet_number_len_le_8 [of pn] by simp
  then show ?thesis
    using drop_be_bytes [OF packet_number_len_le_8]
    by (simp add: build_header_def Let_def header_bytes_def header_first_def u64_to_be_bytes_def)
qed

lemma length_header_bytes [simp]:
  "length (header_bytes dcid pn key_phase) = 1 + length dcid + packet_number_len pn"
  by (simp add: header_bytes_def)

section \<open>Masking\<close>

lemma length_fold_update [simp]:
  "length (fold (\<lambda>i p. p[f i := g i p]) is xs) = length xs"
  by (induction "is" arbitrary: xs) auto

lemma nth_fold_xor:
  assumes "a + n \<le> length xs" "j < length xs"
  shows "fold (\<lambda>i p. p[a + i := p ! (a + i) XOR m i]) [0..<n] xs ! j =
           (if a \<le> j \<and> j < a + n then xs ! j XOR m (j - a) else xs ! j)"
  using assms
proof (induction n)
  case 0
  then show ?case by auto
next
  case (Suc n)
  then show ?case by (auto simp: nth_list_update less_Suc_eq)
qed

lemma apply_header_protection_eq:
  assumes "length p = pn_len" "0 < pn_len" "pn_len \<le> MAX_WIRE_PN_LEN"
    and "length ms \<ge> pn_len"
  shows "apply_header_protection (f # d @ p @ rest) (1 + length d) pn_len (m # ms) =
           Ok ((f XOR (m AND 0x1f)) # d @ xor_bytes p ms @ rest)"
proof -
  define pkt where "pkt = (f XOR (m AND 0x1f)) # d @ p @ rest"
  have "fold (\<lambda>i p. p[1 + length d + i := p ! (1 + length d + i) XOR ms ! i]) [0..<pn_len] pkt =
          (f XOR (m AND 0x1f)) # d @ xor_bytes p ms @ rest" (is "?l = ?r")
  proof (rule nth_equalityI)
    show len: "length ?l = length ?r" using assms by (simp add: pkt_def)
    fix j assume "j < length ?l"
    then have j: "j < length pkt" by simp
    show "?l ! j = ?r ! j"
      using assms j
      by (subst nth_fold_xor) (auto simp: pkt_def nth_append nth_Cons xor_bytes_def split: nat.splits)
  qed
  then show ?thesis
    using assms by (simp add: apply_header_protection_def pkt_def)
qed

section \<open>Reading back\<close>

lemma header_first_bits:
  "header_first pn key_phase AND FIXED_BIT \<noteq> 0"
  "header_first pn key_phase AND 0x80 = 0"
  "header_first pn key_phase AND RESERVED_MASK = 0"
  "unat ((header_first pn key_phase AND PN_LEN_MASK) + 1) = packet_number_len pn"
  "header_first pn key_phase AND KEY_PHASE_BIT \<noteq> 0 \<longleftrightarrow> key_phase"
  by (simp_all add: header_first_def packet_number_len_def FIXED_BIT_def RESERVED_MASK_def
      PN_LEN_MASK_def KEY_PHASE_BIT_def)

lemma nth_fold_set:
  assumes "a + n \<le> length xs" "j < length xs"
  shows "fold (\<lambda>i b. b[a + i := g i]) [0..<n] xs ! j =
           (if a \<le> j \<and> j < a + n then g (j - a) else xs ! j)"
  using assms
proof (induction n)
  case 0
  then show ?case by auto
next
  case (Suc n)
  then show ?case by (auto simp: nth_list_update less_Suc_eq)
qed

lemma unmask_pn_bytes_eq:
  assumes "pn_len \<le> MAX_WIRE_PN_LEN"
  shows "unmask_pn_bytes pn_offset pn_len packet hp_mask =
           replicate (MAX_WIRE_PN_LEN - pn_len) 0
             @ map (\<lambda>i. packet ! (pn_offset + i) XOR hp_mask ! (1 + i)) [0..<pn_len]"
    (is "_ = ?r")
  unfolding unmask_pn_bytes_def
proof (rule nth_equalityI)
  show "length (fold (\<lambda>i b. b[MAX_WIRE_PN_LEN - pn_len + i :=
            packet ! (pn_offset + i) XOR hp_mask ! (1 + i)])
          [0..<pn_len] (replicate MAX_WIRE_PN_LEN 0)) = length ?r"
    using assms by simp
  fix j assume "j < length (fold (\<lambda>i b. b[MAX_WIRE_PN_LEN - pn_len + i :=
            packet ! (pn_offset + i) XOR hp_mask ! (1 + i)])
          [0..<pn_len] (replicate MAX_WIRE_PN_LEN 0))"
  then have "j < length (replicate MAX_WIRE_PN_LEN (0 :: u8))" by simp
  then show "fold (\<lambda>i b. b[MAX_WIRE_PN_LEN - pn_len + i :=
            packet ! (pn_offset + i) XOR hp_mask ! (1 + i)])
          [0..<pn_len] (replicate MAX_WIRE_PN_LEN 0) ! j = ?r ! j"
    using assms by (subst nth_fold_set) (auto simp: nth_append)
qed

lemma be_nat_zeros: "be_nat (replicate k 0 @ bs) = be_nat bs"
  by (induction k) (auto simp: be_nat_Cons)

lemma unat_ucast_u32_u64: "unat (ucast (w :: u32) :: u64) = unat w"
proof -
  have "unat w < 2 ^ LENGTH(32)" by (rule unat_less_exp)
  also have "(2::nat) ^ LENGTH(32) < 2 ^ LENGTH(64)" by simp
  finally show ?thesis by (simp only: unsigned_ucast_eq take_bit_nat_eq_self)
qed

lemma unmask_protected:
  assumes "length ms = 4"
  shows "unmask_pn_bytes (1 + length dcid) (packet_number_len pn)
           (protected_header dcid pn key_phase m ms @ rest) (m # ms) =
         replicate (MAX_WIRE_PN_LEN - packet_number_len pn) 0
           @ be_bytes (packet_number_len pn) (unat pn)"
proof -
  let ?k = "packet_number_len pn" and ?p = "be_bytes (packet_number_len pn) (unat pn)"
  have k: "?k \<le> 4" using packet_number_len_bounds(2) [of pn] by (simp add: MAX_WIRE_PN_LEN_def)
  have "map (\<lambda>i. (protected_header dcid pn key_phase m ms @ rest) ! (1 + length dcid + i)
               XOR (m # ms) ! (1 + i)) [0..<?k] = ?p"
    using assms k
    by (intro nth_equalityI) (auto simp: protected_header_def nth_append xor_bytes_def)
  then show ?thesis by (simp only: unmask_pn_bytes_eq [OF packet_number_len_bounds(2)])
qed

lemma parse_header_protected:
  assumes "length ms = 4" "AEAD_TAG_LEN \<le> length rest"
  shows "parse_header (length dcid) (protected_header dcid pn key_phase m ms @ rest) (m # ms) =
           Ok \<lparr>ph_pn = word_of_nat (truncate_pn pn (packet_number_len pn)),
               ph_pn_len = packet_number_len pn, ph_key_phase = key_phase,
               ph_header = header_bytes dcid pn key_phase\<rparr>"
proof -
  let ?k = "packet_number_len pn"
  define pkt where "pkt = protected_header dcid pn key_phase m ms @ rest"
  have k: "?k \<le> 4" using packet_number_len_bounds(2) [of pn] by (simp add: MAX_WIRE_PN_LEN_def)
  have first: "pkt ! 0 XOR ((m # ms) ! 0 AND 0x1f) = header_first pn key_phase"
    by (simp add: pkt_def protected_header_def)
  have len: "\<not> length pkt < 1 + length dcid + ?k + AEAD_TAG_LEN"
    using assms k by (simp add: pkt_def protected_header_def)
  have mid: "subslice 1 (1 + length dcid) pkt = dcid"
    by (simp add: pkt_def protected_header_def subslice_def)
  define pb where "pb = replicate (MAX_WIRE_PN_LEN - ?k) 0 @ be_bytes ?k (unat pn)"
  have pb: "unmask_pn_bytes (1 + length dcid) ?k pkt (m # ms) = pb"
    using unmask_protected [OF assms(1)] by (simp add: pkt_def pb_def)
  have pn: "(ucast (u32_from_be_bytes pb) :: u64) = word_of_nat (truncate_pn pn ?k)"
  proof -
    have "length pb = 4" using k by (simp add: pb_def MAX_WIRE_PN_LEN_def)
    then have "unat (u32_from_be_bytes pb) = truncate_pn pn ?k"
      by (simp add: unat_u32_from_be pb_def be_nat_zeros truncate_pn_def)
    then show ?thesis
      by (simp add: word_unat_eq_iff unat_ucast_u32_u64 unat_truncated)
  qed
  have hdr: "[header_first pn key_phase] @ dcid @ drop (MAX_WIRE_PN_LEN - ?k) pb =
               header_bytes dcid pn key_phase"
    by (simp add: pb_def header_bytes_def)
  show ?thesis
    unfolding pkt_def [symmetric]
    using len pb pn hdr mid header_first_bits [of pn key_phase]
    by (simp only: parse_header_def Let_def first) simp
qed

lemma apply_header_protection_header:
  assumes "length ms = 4"
  shows "apply_header_protection (header_bytes dcid pn key_phase @ rest) (1 + length dcid)
           (packet_number_len pn) (m # ms) = Ok (protected_header dcid pn key_phase m ms @ rest)"
proof -
  have k: "packet_number_len pn \<le> 4"
    using packet_number_len_bounds(2) [of pn] by (simp add: MAX_WIRE_PN_LEN_def)
  then show ?thesis
    using assms apply_header_protection_eq [where p = "be_bytes (packet_number_len pn) (unat pn)"
        and pn_len = "packet_number_len pn" and d = dcid and f = "header_first pn key_phase"]
    by (simp add: header_bytes_def protected_header_def)
qed

end
