(* ===== verification/Qsp_Keys.thy ===== *)
theory Qsp_Keys
  imports Payloads Qsp_Packet
begin

text \<open>
  UDP-QSP keys (\<open>slt-core/src/crypto/udp_qsp/keys/\<close>): the TLS 1.3 label expansion and the
  packet-key derivation (\<open>derivation.rs\<close>), header-protection and packet keys
  (\<open>backend.rs\<close>), the keys of one direction and their next generation (\<open>schedule.rs\<close>), and
  protecting and opening a packet (\<open>mod.rs\<close>).

  BoringSSL is a parameter: a record \<open>qsp_crypto\<close> with the primitives the code calls.
  \<open>crypto_ok\<close> states what their documentation promises: output lengths, success on keys of
  the right length, and that opening inverts sealing.
\<close>

datatype aead_kind = AeadAes128Gcm | AeadChaCha20Poly1305

datatype header_protection_kind = HpAes128 | HpChaCha20

record qsp_crypto =
  hmac_sha256 :: "bytes \<Rightarrow> bytes \<Rightarrow> bytes option"
  AES_set_encrypt_key :: "bytes \<Rightarrow> bool"
  AES_encrypt :: "bytes \<Rightarrow> bytes \<Rightarrow> bytes"
  CRYPTO_chacha_20 :: "bytes \<Rightarrow> bytes \<Rightarrow> bytes \<Rightarrow> u32 \<Rightarrow> bytes"
  EVP_AEAD_CTX_new :: "aead_kind \<Rightarrow> bytes \<Rightarrow> bool"
  EVP_AEAD_CTX_seal :: "aead_kind \<Rightarrow> bytes \<Rightarrow> nat \<Rightarrow> bytes \<Rightarrow> bytes \<Rightarrow> bytes \<Rightarrow> bytes option"
  EVP_AEAD_CTX_open :: "aead_kind \<Rightarrow> bytes \<Rightarrow> nat \<Rightarrow> bytes \<Rightarrow> bytes \<Rightarrow> bytes \<Rightarrow> bytes option"

section \<open>Cipher configuration\<close>

record cipher_config =
  cc_hp :: header_protection_kind
  cc_aead :: aead_kind
  cc_iv_len :: nat

fun aead_kind_key_len :: "aead_kind \<Rightarrow> nat" where
  "aead_kind_key_len AeadAes128Gcm = AEAD_KEY_LEN"
| "aead_kind_key_len AeadChaCha20Poly1305 = CHACHA20_POLY1305_KEY_LEN"

fun hp_kind_key_len :: "header_protection_kind \<Rightarrow> nat" where
  "hp_kind_key_len HpAes128 = HP_KEY_LEN"
| "hp_kind_key_len HpChaCha20 = CHACHA20_POLY1305_KEY_LEN"

fun cipher_config_for_suite :: "cipher_suite \<Rightarrow> cipher_config" where
  "cipher_config_for_suite Aes128Gcm =
     \<lparr>cc_hp = HpAes128, cc_aead = AeadAes128Gcm, cc_iv_len = AEAD_IV_LEN\<rparr>"
| "cipher_config_for_suite ChaCha20Poly1305 =
     \<lparr>cc_hp = HpChaCha20, cc_aead = AeadChaCha20Poly1305, cc_iv_len = AEAD_IV_LEN\<rparr>"

section \<open>Key derivation\<close>

definition TLS13_LABEL_PREFIX :: bytes where
  "TLS13_LABEL_PREFIX = ascii_bytes ''tls13 ''"

definition QUIC_KEY_LABEL :: bytes where
  "QUIC_KEY_LABEL = ascii_bytes ''quic key''"

definition QUIC_IV_LABEL :: bytes where
  "QUIC_IV_LABEL = ascii_bytes ''quic iv''"

definition QUIC_HP_LABEL :: bytes where
  "QUIC_HP_LABEL = ascii_bytes ''quic hp''"

definition QUIC_KU_LABEL :: bytes where
  "QUIC_KU_LABEL = ascii_bytes ''quic ku''"

record packet_material =
  pm_key :: bytes
  pm_iv :: bytes

text \<open>The loop of \<open>hkdf_expand_sha256_vec\<close>; the checked counter ends it.\<close>

function hkdf_expand_loop ::
    "qsp_crypto \<Rightarrow> bytes \<Rightarrow> bytes \<Rightarrow> nat \<Rightarrow> bytes \<Rightarrow> bytes \<Rightarrow> nat \<Rightarrow> u8 \<Rightarrow>
     (bytes, qsp_crypto_error) result" where
  "hkdf_expand_loop cr prk info len out prev prev_len counter =
     (if length out < len then
        let input = (if prev_len \<noteq> 0 then take prev_len prev else []) @ info @ [counter] in
        case hmac_sha256 cr prk input of
          None \<Rightarrow> Err CryptoFail
        | Some prev \<Rightarrow>
            let prev_len = length prev;
                remaining = len - length out;
                tk = min remaining prev_len;
                out = out @ take tk prev
            in if counter = 255 then Err CryptoFail
               else hkdf_expand_loop cr prk info len out prev prev_len (counter + 1)
      else Ok out)"
  by pat_completeness auto

termination hkdf_expand_loop
  by (relation "measure (\<lambda>(cr, prk, info, len, out, prev, prev_len, counter). 255 - unat counter)")
    (auto simp: u8_succ dest: u8_below_max)

declare hkdf_expand_loop.simps [simp del]

definition hkdf_expand_sha256_vec ::
    "qsp_crypto \<Rightarrow> bytes \<Rightarrow> bytes \<Rightarrow> nat \<Rightarrow> (bytes, qsp_crypto_error) result" where
  "hkdf_expand_sha256_vec cr prk info len =
     (if len = 0 then Ok []
      else hkdf_expand_loop cr prk info len [] (replicate 32 0) 0 1)"

definition hkdf_label_info :: "nat \<Rightarrow> bytes \<Rightarrow> bytes \<Rightarrow> bytes" where
  "hkdf_label_info len label context =
     u16_to_be_bytes (word_of_nat len)
       @ [word_of_nat (length TLS13_LABEL_PREFIX + length label)] @ TLS13_LABEL_PREFIX @ label
       @ [word_of_nat (length context)] @ context"

definition hkdf_expand_label_sha256 ::
    "qsp_crypto \<Rightarrow> bytes \<Rightarrow> bytes \<Rightarrow> bytes \<Rightarrow> nat \<Rightarrow> (bytes, qsp_crypto_error) result" where
  "hkdf_expand_label_sha256 cr secret label context len =
     (if len > 65535 then Err CryptoFail
      else if length TLS13_LABEL_PREFIX + length label > 255 then Err CryptoFail
      else if length context > 255 then Err CryptoFail
      else hkdf_expand_sha256_vec cr secret (hkdf_label_info len label context) len)"

definition derive_header_protection_key ::
    "qsp_crypto \<Rightarrow> bytes \<Rightarrow> nat \<Rightarrow> (bytes, qsp_crypto_error) result" where
  "derive_header_protection_key cr secret key_len =
     hkdf_expand_label_sha256 cr secret QUIC_HP_LABEL [] key_len"

definition derive_packet_material ::
    "qsp_crypto \<Rightarrow> bytes \<Rightarrow> nat \<Rightarrow> nat \<Rightarrow> (packet_material, qsp_crypto_error) result" where
  "derive_packet_material cr secret key_len iv_len =
     bind_result (hkdf_expand_label_sha256 cr secret QUIC_KEY_LABEL [] key_len) (\<lambda>key.
     bind_result (hkdf_expand_label_sha256 cr secret QUIC_IV_LABEL [] iv_len) (\<lambda>iv.
       Ok \<lparr>pm_key = key, pm_iv = iv\<rparr>))"

definition derive_next_secret :: "qsp_crypto \<Rightarrow> bytes \<Rightarrow> (bytes, qsp_crypto_error) result" where
  "derive_next_secret cr secret =
     bind_result (hkdf_expand_label_sha256 cr secret QUIC_KU_LABEL [] UDP_QSP_TRAFFIC_SECRET_LEN)
       (\<lambda>s. if length s = UDP_QSP_TRAFFIC_SECRET_LEN then Ok s else Err CryptoFail)"

section \<open>Header-protection and packet keys\<close>

datatype header_protection_key = HpKeyAes128 bytes | HpKeyChaCha20 bytes

definition header_protection_key_new ::
    "qsp_crypto \<Rightarrow> header_protection_kind \<Rightarrow> bytes \<Rightarrow>
     (header_protection_key, qsp_crypto_error) result" where
  "header_protection_key_new cr kind key =
     (if length key \<noteq> hp_kind_key_len kind then Err CryptoFail
      else case kind of
        HpAes128 \<Rightarrow>
          if length key * 8 > 4294967295 then Err CryptoFail
          else if \<not> AES_set_encrypt_key cr key then Err CryptoFail
          else Ok (HpKeyAes128 key)
      | HpChaCha20 \<Rightarrow> Ok (HpKeyChaCha20 key))"

definition u32_from_le_bytes :: "bytes \<Rightarrow> u32" where
  "u32_from_le_bytes bs = word_of_nat (be_nat (rev bs))"

definition header_protection_key_mask ::
    "qsp_crypto \<Rightarrow> header_protection_key \<Rightarrow> bytes \<Rightarrow> (bytes, qsp_crypto_error) result" where
  "header_protection_key_mask cr hp sample =
     (if length sample \<noteq> HP_SAMPLE_LEN then Err PacketTooShort
      else case hp of
        HpKeyAes128 key \<Rightarrow> Ok (take HP_MASK_LEN (AES_encrypt cr key sample))
      | HpKeyChaCha20 key \<Rightarrow>
          let counter = u32_from_le_bytes (take 4 sample)
          in Ok (CRYPTO_chacha_20 cr (replicate HP_MASK_LEN 0) key (drop 4 sample) counter))"

fun header_protection_key_try_clone ::
    "qsp_crypto \<Rightarrow> header_protection_key \<Rightarrow> (header_protection_key, qsp_crypto_error) result" where
  "header_protection_key_try_clone cr (HpKeyAes128 key) =
     header_protection_key_new cr HpAes128 key"
| "header_protection_key_try_clone cr (HpKeyChaCha20 key) =
     header_protection_key_new cr HpChaCha20 key"

record packet_key =
  pk_key :: bytes
  pk_iv :: bytes
  pk_aead :: aead_kind

definition aead_context_new :: "qsp_crypto \<Rightarrow> aead_kind \<Rightarrow> bytes \<Rightarrow> (unit, qsp_crypto_error) result" where
  "aead_context_new cr aead key =
     (if length key \<noteq> aead_kind_key_len aead then Err CryptoFail
      else if \<not> EVP_AEAD_CTX_new cr aead key then Err CryptoFail
      else Ok ())"

definition packet_key_new ::
    "qsp_crypto \<Rightarrow> bytes \<Rightarrow> bytes \<Rightarrow> aead_kind \<Rightarrow> (packet_key, qsp_crypto_error) result" where
  "packet_key_new cr key iv aead =
     (if length iv \<noteq> AEAD_IV_LEN then Err CryptoFail
      else bind_result (aead_context_new cr aead key)
             (\<lambda>_. Ok \<lparr>pk_key = key, pk_iv = iv, pk_aead = aead\<rparr>))"

definition make_nonce :: "bytes \<Rightarrow> u64 \<Rightarrow> bytes" where
  "make_nonce iv counter = take 4 iv @ xor_bytes (drop 4 iv) (u64_to_be_bytes counter)"

definition packet_key_seal_into ::
    "qsp_crypto \<Rightarrow> packet_key \<Rightarrow> u64 \<Rightarrow> nat \<Rightarrow> bytes \<Rightarrow> bytes \<Rightarrow> (bytes, qsp_crypto_error) result" where
  "packet_key_seal_into cr k pn ad_len plaintext out =
     (let nonce = make_nonce (pk_iv k) pn;
          max_out_len = length plaintext + AEAD_TAG_LEN
      in case EVP_AEAD_CTX_seal cr (pk_aead k) (pk_key k) max_out_len nonce plaintext
                (take ad_len out) of
           None \<Rightarrow> Err CryptoFail
         | Some ciphertext \<Rightarrow> Ok (out @ ciphertext))"

definition packet_key_open_into ::
    "qsp_crypto \<Rightarrow> packet_key \<Rightarrow> u64 \<Rightarrow> bytes \<Rightarrow> bytes \<Rightarrow> (bytes, qsp_crypto_error) result" where
  "packet_key_open_into cr k pn ad ciphertext =
     (if length ciphertext < AEAD_TAG_LEN then Err PacketTooShort
      else
        let nonce = make_nonce (pk_iv k) pn
        in case EVP_AEAD_CTX_open cr (pk_aead k) (pk_key k) (length ciphertext) nonce ciphertext ad of
             None \<Rightarrow> Err CryptoFail
           | Some plaintext \<Rightarrow> Ok plaintext)"

definition packet_key_try_clone ::
    "qsp_crypto \<Rightarrow> packet_key \<Rightarrow> (packet_key, qsp_crypto_error) result" where
  "packet_key_try_clone cr k = packet_key_new cr (pk_key k) (pk_iv k) (pk_aead k)"

section \<open>The keys of one direction\<close>

record direction_keys =
  dk_secret :: bytes
  dk_hp :: header_protection_key
  dk_aead :: packet_key

definition direction_keys_from_secret ::
    "qsp_crypto \<Rightarrow> bytes \<Rightarrow> cipher_config \<Rightarrow> (direction_keys, qsp_crypto_error) result" where
  "direction_keys_from_secret cr secret config =
     (if length secret \<noteq> UDP_QSP_TRAFFIC_SECRET_LEN then Err CryptoFail
      else
        bind_result (derive_header_protection_key cr secret (hp_kind_key_len (cc_hp config)))
          (\<lambda>hp_key.
        bind_result
          (derive_packet_material cr secret (aead_kind_key_len (cc_aead config)) (cc_iv_len config))
          (\<lambda>packet.
        bind_result (header_protection_key_new cr (cc_hp config) hp_key) (\<lambda>hp.
        bind_result (packet_key_new cr (pm_key packet) (pm_iv packet) (cc_aead config)) (\<lambda>aead.
          Ok \<lparr>dk_secret = secret, dk_hp = hp, dk_aead = aead\<rparr>)))))"

definition direction_keys_next_generation ::
    "qsp_crypto \<Rightarrow> direction_keys \<Rightarrow> cipher_config \<Rightarrow> (direction_keys, qsp_crypto_error) result" where
  "direction_keys_next_generation cr d config =
     bind_result (derive_next_secret cr (dk_secret d)) (\<lambda>secret.
     bind_result (header_protection_key_try_clone cr (dk_hp d)) (\<lambda>hp.
     bind_result
       (derive_packet_material cr secret (aead_kind_key_len (cc_aead config)) (cc_iv_len config))
       (\<lambda>packet.
     bind_result (packet_key_new cr (pm_key packet) (pm_iv packet) (cc_aead config)) (\<lambda>aead.
       Ok \<lparr>dk_secret = secret, dk_hp = hp, dk_aead = aead\<rparr>))))"

definition direction_keys_try_clone ::
    "qsp_crypto \<Rightarrow> direction_keys \<Rightarrow> (direction_keys, qsp_crypto_error) result" where
  "direction_keys_try_clone cr d =
     bind_result (header_protection_key_try_clone cr (dk_hp d)) (\<lambda>hp.
     bind_result (packet_key_try_clone cr (dk_aead d)) (\<lambda>aead.
       Ok \<lparr>dk_secret = dk_secret d, dk_hp = hp, dk_aead = aead\<rparr>))"

section \<open>The key facade\<close>

record udp_qsp_keys =
  ks_cipher :: cipher_suite
  ks_tx :: direction_keys
  ks_rx :: direction_keys

definition udp_qsp_keys_new ::
    "qsp_crypto \<Rightarrow> cipher_suite \<Rightarrow> bytes \<Rightarrow> bytes \<Rightarrow> (udp_qsp_keys, qsp_crypto_error) result" where
  "udp_qsp_keys_new cr cipher secret_tx secret_rx =
     (let config = cipher_config_for_suite cipher in
      bind_result (direction_keys_from_secret cr secret_tx config) (\<lambda>tx.
      bind_result (direction_keys_from_secret cr secret_rx config) (\<lambda>rx.
        Ok \<lparr>ks_cipher = cipher, ks_tx = tx, ks_rx = rx\<rparr>)))"

definition udp_qsp_keys_from_register ::
    "qsp_crypto \<Rightarrow> register_cid_payload \<Rightarrow> (udp_qsp_keys, qsp_crypto_error) result" where
  "udp_qsp_keys_from_register cr payload =
     udp_qsp_keys_new cr (rc_cipher payload) (rc_secret_tx payload) (rc_secret_rx payload)"

definition udp_qsp_keys_try_clone ::
    "qsp_crypto \<Rightarrow> udp_qsp_keys \<Rightarrow> (udp_qsp_keys, qsp_crypto_error) result" where
  "udp_qsp_keys_try_clone cr ks =
     bind_result (direction_keys_try_clone cr (ks_tx ks)) (\<lambda>tx.
     bind_result (direction_keys_try_clone cr (ks_rx ks)) (\<lambda>rx.
       Ok \<lparr>ks_cipher = ks_cipher ks, ks_tx = tx, ks_rx = rx\<rparr>))"

definition with_next_tx_keys ::
    "qsp_crypto \<Rightarrow> udp_qsp_keys \<Rightarrow> (udp_qsp_keys, qsp_crypto_error) result" where
  "with_next_tx_keys cr ks =
     (let config = cipher_config_for_suite (ks_cipher ks) in
      bind_result (direction_keys_next_generation cr (ks_tx ks) config) (\<lambda>tx.
      bind_result (direction_keys_try_clone cr (ks_rx ks)) (\<lambda>rx.
        Ok \<lparr>ks_cipher = ks_cipher ks, ks_tx = tx, ks_rx = rx\<rparr>)))"

definition with_next_rx_keys ::
    "qsp_crypto \<Rightarrow> udp_qsp_keys \<Rightarrow> (udp_qsp_keys, qsp_crypto_error) result" where
  "with_next_rx_keys cr ks =
     (let config = cipher_config_for_suite (ks_cipher ks) in
      bind_result (direction_keys_try_clone cr (ks_tx ks)) (\<lambda>tx.
      bind_result (direction_keys_next_generation cr (ks_rx ks) config) (\<lambda>rx.
        Ok \<lparr>ks_cipher = ks_cipher ks, ks_tx = tx, ks_rx = rx\<rparr>)))"

definition qsp_pad_len :: "nat \<Rightarrow> u64 \<Rightarrow> nat \<Rightarrow> nat" where
  "qsp_pad_len dcid_len pn plaintext_len =
     (let pn_len = packet_number_len pn;
          header_len = 1 + dcid_len + pn_len;
          min_cipher_len = snd (hp_sample_range dcid_len) - header_len
      in min_cipher_len - (plaintext_len + AEAD_TAG_LEN))"

definition protect_into ::
    "qsp_crypto \<Rightarrow> udp_qsp_keys \<Rightarrow> bytes \<Rightarrow> u64 \<Rightarrow> bool \<Rightarrow> bytes \<Rightarrow> (bytes, qsp_crypto_error) result" where
  "protect_into cr ks dcid pn key_phase plaintext =
     (let pad_len = qsp_pad_len (length dcid) pn (length plaintext) in
      bind_result (build_header dcid pn key_phase []) (\<lambda>(header, out).
      let header_len = length out;
          padded = (if pad_len = 0 then plaintext else plaintext @ replicate pad_len 0)
      in
      bind_result (packet_key_seal_into cr (dk_aead (ks_tx ks)) pn header_len padded out) (\<lambda>out.
      bind_result (require_hp_sample out (length dcid)) (\<lambda>_.
      let (a, b) = hp_sample_range (length dcid) in
      bind_result (header_protection_key_mask cr (dk_hp (ks_tx ks)) (subslice a b out)) (\<lambda>hp_mask.
        apply_header_protection out (bh_pn_offset header) (bh_pn_len header) hp_mask)))))"

definition protect ::
    "qsp_crypto \<Rightarrow> udp_qsp_keys \<Rightarrow> bytes \<Rightarrow> u64 \<Rightarrow> bool \<Rightarrow> bytes \<Rightarrow> (bytes, qsp_crypto_error) result" where
  "protect cr ks dcid pn key_phase plaintext =
     bind_result (protect_into cr ks dcid pn key_phase plaintext) (\<lambda>out. Ok out)"

record opened_packet_meta =
  om_pn :: u64
  om_pn_len :: nat
  om_key_phase :: bool

definition open_into_inner ::
    "qsp_crypto \<Rightarrow> direction_keys \<Rightarrow> nat \<Rightarrow> bytes \<Rightarrow> u64 \<Rightarrow>
     (opened_packet_meta \<times> bytes, qsp_crypto_error) result" where
  "open_into_inner cr rx dcid_len packet expected_pn =
     bind_result (require_hp_sample packet dcid_len) (\<lambda>_.
     let (a, b) = hp_sample_range dcid_len in
     bind_result (header_protection_key_mask cr (dk_hp rx) (subslice a b packet)) (\<lambda>hp_mask.
     bind_result (parse_header dcid_len packet hp_mask) (\<lambda>parsed.
     if length packet < length (ph_header parsed) + AEAD_TAG_LEN then Err PacketTooShort
     else
       let pn = reconstruct_packet_number (ph_pn parsed) expected_pn (ph_pn_len parsed) in
       bind_result
         (packet_key_open_into cr (dk_aead rx) pn (ph_header parsed)
            (drop (length (ph_header parsed)) packet))
         (\<lambda>out. Ok (\<lparr>om_pn = pn, om_pn_len = ph_pn_len parsed,
                    om_key_phase = ph_key_phase parsed\<rparr>, out)))))"

definition open_into ::
    "qsp_crypto \<Rightarrow> udp_qsp_keys \<Rightarrow> nat \<Rightarrow> bytes \<Rightarrow> u64 \<Rightarrow>
     (opened_packet, qsp_crypto_error) result" where
  "open_into cr ks dcid_len packet expected_pn =
     bind_result (open_into_inner cr (ks_rx ks) dcid_len packet expected_pn) (\<lambda>(meta, out).
       Ok \<lparr>op_pn = om_pn meta, op_pn_len = om_pn_len meta, op_key_phase = om_key_phase meta,
           op_payload = out\<rparr>)"

definition open_packet_bytes ::
    "qsp_crypto \<Rightarrow> udp_qsp_keys \<Rightarrow> nat \<Rightarrow> bytes \<Rightarrow> u64 \<Rightarrow>
     (opened_packet, qsp_crypto_error) result" where
  "open_packet_bytes cr ks dcid_len packet expected_pn =
     bind_result (open_into_inner cr (ks_rx ks) dcid_len packet expected_pn) (\<lambda>(meta, payload).
       Ok \<lparr>op_pn = om_pn meta, op_pn_len = om_pn_len meta, op_key_phase = om_key_phase meta,
           op_payload = payload\<rparr>)"

text \<open>The plaintext a packet carries: the payload and its zero padding.\<close>

definition padded_plaintext :: "nat \<Rightarrow> u64 \<Rightarrow> bytes \<Rightarrow> bytes" where
  "padded_plaintext dcid_len pn plaintext =
     plaintext @ replicate (qsp_pad_len dcid_len pn (length plaintext)) 0"

section \<open>What the primitives promise\<close>

text \<open>\<open>hmac_sha256\<close> returns 32 bytes; AES key setup and AEAD contexts accept keys of their
  length; an AES block has 16 bytes and ChaCha20 keeps the length of its input; sealing with a
  12-byte nonce and room for the tag appends a 16-byte tag, and opening the result with the same
  nonce and associated data gives the plaintext back.\<close>

definition crypto_ok :: "qsp_crypto \<Rightarrow> bool" where
  "crypto_ok cr \<longleftrightarrow>
     (\<forall>k m. \<exists>h. hmac_sha256 cr k m = Some h \<and> length h = 32) \<and>
     (\<forall>k. length k = 16 \<longrightarrow> AES_set_encrypt_key cr k) \<and>
     (\<forall>k b. length (AES_encrypt cr k b) = 16) \<and>
     (\<forall>p k n c. length (CRYPTO_chacha_20 cr p k n c) = length p) \<and>
     (\<forall>kind k. length k = aead_kind_key_len kind \<longrightarrow> EVP_AEAD_CTX_new cr kind k) \<and>
     (\<forall>kind k n p ad.
        length k = aead_kind_key_len kind \<and> length n = AEAD_IV_LEN \<longrightarrow>
        (\<exists>c. EVP_AEAD_CTX_seal cr kind k (length p + AEAD_TAG_LEN) n p ad = Some c \<and>
             length c = length p + AEAD_TAG_LEN \<and>
             EVP_AEAD_CTX_open cr kind k (length c) n c ad = Some p))"

text \<open>A concrete instance that keeps these promises, for the witnesses: no secrecy, a tag of
  zero bytes.\<close>

definition plain_crypto :: qsp_crypto where
  "plain_crypto =
     \<lparr>hmac_sha256 = (\<lambda>k m. Some (replicate 32 0)),
      AES_set_encrypt_key = (\<lambda>k. True),
      AES_encrypt = (\<lambda>k b. replicate 16 0x5a),
      CRYPTO_chacha_20 = (\<lambda>p k n c. p),
      EVP_AEAD_CTX_new = (\<lambda>kind k. True),
      EVP_AEAD_CTX_seal = (\<lambda>kind k max_out n p ad. Some (p @ replicate 16 0)),
      EVP_AEAD_CTX_open = (\<lambda>kind k max_out n c ad.
         if drop (length c - 16) c = replicate 16 0 then Some (take (length c - 16) c) else None)\<rparr>"

definition sample_direction :: direction_keys where
  "sample_direction =
     \<lparr>dk_secret = replicate 32 1, dk_hp = HpKeyChaCha20 (replicate 32 2),
      dk_aead = \<lparr>pk_key = replicate 32 3, pk_iv = replicate 12 4,
                 pk_aead = AeadChaCha20Poly1305\<rparr>\<rparr>"

definition sample_keys :: udp_qsp_keys where
  "sample_keys =
     \<lparr>ks_cipher = ChaCha20Poly1305, ks_tx = sample_direction, ks_rx = sample_direction\<rparr>"

text \<open>Keys as the derivation builds them: the header key, packet key and IV have the lengths
  of the suite.\<close>

fun hp_key_wf :: "header_protection_kind \<Rightarrow> header_protection_key \<Rightarrow> bool" where
  "hp_key_wf HpAes128 (HpKeyAes128 key) = (length key = HP_KEY_LEN)"
| "hp_key_wf HpChaCha20 (HpKeyChaCha20 key) = (length key = CHACHA20_POLY1305_KEY_LEN)"
| "hp_key_wf _ _ = False"

definition direction_keys_wf :: "cipher_config \<Rightarrow> direction_keys \<Rightarrow> bool" where
  "direction_keys_wf config d \<longleftrightarrow>
     length (dk_secret d) = UDP_QSP_TRAFFIC_SECRET_LEN \<and>
     hp_key_wf (cc_hp config) (dk_hp d) \<and>
     pk_aead (dk_aead d) = cc_aead config \<and>
     length (pk_key (dk_aead d)) = aead_kind_key_len (cc_aead config) \<and>
     length (pk_iv (dk_aead d)) = AEAD_IV_LEN"

definition udp_qsp_keys_wf :: "udp_qsp_keys \<Rightarrow> bool" where
  "udp_qsp_keys_wf ks \<longleftrightarrow>
     direction_keys_wf (cipher_config_for_suite (ks_cipher ks)) (ks_tx ks) \<and>
     direction_keys_wf (cipher_config_for_suite (ks_cipher ks)) (ks_rx ks)"

text \<open>The reference expansion of RFC 5869 over a total keyed hash.\<close>

fun hkdf_T :: "(bytes \<Rightarrow> bytes) \<Rightarrow> bytes \<Rightarrow> nat \<Rightarrow> bytes" where
  "hkdf_T h info 0 = []"
| "hkdf_T h info (Suc i) = h (hkdf_T h info i @ info @ [word_of_nat (Suc i)])"

definition hkdf_okm :: "(bytes \<Rightarrow> bytes) \<Rightarrow> bytes \<Rightarrow> nat \<Rightarrow> bytes" where
  "hkdf_okm h info len =
     take len (concat (map (hkdf_T h info) [1..<Suc ((len + 31) div 32)]))"

section \<open>Expansion agrees with the reference\<close>

lemma length_hkdf_T: "(\<And>m. length (h m) = 32) \<Longrightarrow> 0 < i \<Longrightarrow> length (hkdf_T h info i) = 32"
  by (cases i) simp_all

lemma length_hkdf_blocks:
  "(\<And>m. length (h m) = 32) \<Longrightarrow> length (concat (map (hkdf_T h info) [1..<Suc i])) = 32 * i"
  by (induction i) (simp_all add: length_hkdf_T)

text \<open>One turn of the loop: the next block, unless the counter is at its last value.\<close>

lemma hkdf_expand_loop_step:
  assumes hmac: "\<And>m. hmac_sha256 cr prk m = Some (h m)" and h32: "\<And>m. length (h m) = 32"
    and i: "i \<le> 254" and lt: "32 * i < len"
    and prev: "prev_len = length (hkdf_T h info i)" "0 < i \<Longrightarrow> prev = hkdf_T h info i"
  shows "hkdf_expand_loop cr prk info len
           (take len (concat (map (hkdf_T h info) [1..<Suc i]))) prev prev_len (word_of_nat (Suc i)) =
         (if i = 254 then Err CryptoFail
          else hkdf_expand_loop cr prk info len
            (take len (concat (map (hkdf_T h info) [1..<Suc (Suc i)])))
            (hkdf_T h info (Suc i)) (length (hkdf_T h info (Suc i))) (word_of_nat (Suc (Suc i))))"
proof -
  let ?out = "take len (concat (map (hkdf_T h info) [1..<Suc i]))"
  have len_out: "length ?out = 32 * i"
    using length_hkdf_blocks [where h = h, OF h32, where info = info and i = i] lt by simp
  have input: "(if prev_len \<noteq> 0 then take prev_len prev else []) @ info @ [word_of_nat (Suc i)] =
                 hkdf_T h info i @ info @ [word_of_nat (Suc i)]"
    using prev by (cases i) simp_all
  have blk: "?out @ take (min (len - 32 * i) 32) (hkdf_T h info (Suc i)) =
               take len (concat (map (hkdf_T h info) [1..<Suc (Suc i)]))"
    using length_hkdf_blocks [where h = h, OF h32, where info = info and i = i] length_hkdf_T [where h = h, OF h32, where i = "Suc i" and info = info] lt
    by (simp add: min_def del: hkdf_T.simps)
  have "unat (word_of_nat (Suc i) :: u8) = Suc i"
    using i by (simp add: unat_of_nat del: of_nat_Suc)
  then have cnt: "(word_of_nat (Suc i) :: u8) = 255 \<longleftrightarrow> i = 254"
    using i by (simp add: word_unat_eq_iff del: of_nat_Suc)
  show ?thesis
    using len_out lt cnt
    by (subst hkdf_expand_loop.simps)
      (simp only: Let_def input hmac hkdf_T.simps(2) [symmetric] option.case if_True if_False
        length_hkdf_T [OF h32] zero_less_Suc blk; simp add: add.commute)
qed

lemma hkdf_expand_loop_okm:
  assumes hmac: "\<And>m. hmac_sha256 cr prk m = Some (h m)" and h32: "\<And>m. length (h m) = 32"
    and n: "n = (len + 31) div 32" "n \<le> 254"
    and i: "i \<le> n"
    and prev: "prev_len = length (hkdf_T h info i)" "0 < i \<Longrightarrow> prev = hkdf_T h info i"
  shows "hkdf_expand_loop cr prk info len
           (take len (concat (map (hkdf_T h info) [1..<Suc i]))) prev prev_len
           (word_of_nat (Suc i)) = Ok (hkdf_okm h info len)"
  using i prev
proof (induction "n - i" arbitrary: i prev prev_len)
  case 0
  then have "i = n" by simp
  moreover have "len \<le> 32 * n" using n(1) by linarith
  ultimately show ?case
    using length_hkdf_blocks [where h = h, OF h32, where info = info and i = i]
    by (subst hkdf_expand_loop.simps) (simp add: hkdf_okm_def n(1))
next
  case (Suc k)
  have i: "i < n" using Suc.hyps(2) by simp
  then have "32 * i < len" "i < 254" using n by linarith+
  then show ?case
    using hkdf_expand_loop_step [where h = h and i = i, OF hmac h32 _ _ Suc.prems(2,3)] Suc.hyps i
    by (simp del: hkdf_T.simps upt_Suc of_nat_Suc)
qed

text \<open>Beyond 254 blocks the counter runs out before the output is complete.\<close>

lemma hkdf_expand_loop_too_long:
  assumes hmac: "\<And>m. hmac_sha256 cr prk m = Some (h m)" and h32: "\<And>m. length (h m) = 32"
    and long: "8128 < len" and i: "i \<le> 254"
    and prev: "prev_len = length (hkdf_T h info i)" "0 < i \<Longrightarrow> prev = hkdf_T h info i"
  shows "hkdf_expand_loop cr prk info len
           (take len (concat (map (hkdf_T h info) [1..<Suc i]))) prev prev_len
           (word_of_nat (Suc i)) = Err CryptoFail"
  using i prev
proof (induction "254 - i" arbitrary: i prev prev_len)
  case 0
  then show ?case
    using hkdf_expand_loop_step [where h = h and i = i, OF hmac h32 _ _ "0.prems"(2,3)] long
    by (simp del: hkdf_T.simps upt_Suc of_nat_Suc)
next
  case (Suc k)
  then have "i < 254" "32 * i < len" using long by linarith+
  then show ?case
    using hkdf_expand_loop_step [where h = h and i = i, OF hmac h32 _ _ Suc.prems(2,3)] Suc.hyps
    by (simp del: hkdf_T.simps upt_Suc of_nat_Suc)
qed

lemma hkdf_expand_sha256_vec_okm:
  assumes "\<And>m. hmac_sha256 cr prk m = Some (h m)" "\<And>m. length (h m) = 32" "len \<le> 8128"
  shows "hkdf_expand_sha256_vec cr prk info len = Ok (hkdf_okm h info len)"
proof -
  have "(len + 31) div 32 \<le> 254" using assms(3) by simp
  from hkdf_expand_loop_okm [OF assms(1,2) refl this, of 0 0 info "replicate 32 0"]
  show ?thesis by (simp add: hkdf_expand_sha256_vec_def hkdf_okm_def)
qed

lemma hkdf_expand_sha256_vec_too_long:
  assumes "\<And>m. hmac_sha256 cr prk m = Some (h m)" "\<And>m. length (h m) = 32" "8128 < len"
  shows "hkdf_expand_sha256_vec cr prk info len = Err CryptoFail"
  using hkdf_expand_loop_too_long [OF assms, of 0 0 info "replicate 32 0"] assms(3)
  by (simp add: hkdf_expand_sha256_vec_def)

lemma length_hkdf_okm: "(\<And>m. length (h m) = 32) \<Longrightarrow> length (hkdf_okm h info len) = len"
  using length_hkdf_blocks [of h info "(len + 31) div 32"] by (simp add: hkdf_okm_def)

section \<open>Derivation succeeds\<close>

lemma crypto_okD:
  assumes "crypto_ok cr"
  shows "\<exists>h. hmac_sha256 cr k m = Some h \<and> length h = 32"
    and "length k = 16 \<Longrightarrow> AES_set_encrypt_key cr k"
    and "length (AES_encrypt cr k b) = 16"
    and "length (CRYPTO_chacha_20 cr p k n c) = length p"
    and "length k = aead_kind_key_len kind \<Longrightarrow> EVP_AEAD_CTX_new cr kind k"
  using assms unfolding crypto_ok_def by blast+

lemma crypto_ok_sealD:
  assumes "crypto_ok cr" "length k = aead_kind_key_len kind" "length n = AEAD_IV_LEN"
  obtains c where "EVP_AEAD_CTX_seal cr kind k (length p + AEAD_TAG_LEN) n p ad = Some c"
    "length c = length p + AEAD_TAG_LEN" "EVP_AEAD_CTX_open cr kind k (length c) n c ad = Some p"
  using assms unfolding crypto_ok_def by blast

lemma hkdf_expand_label_Ok:
  assumes "crypto_ok cr" "len \<le> 8128" "length TLS13_LABEL_PREFIX + length label \<le> 255"
  obtains okm where "hkdf_expand_label_sha256 cr secret label [] len = Ok okm" "length okm = len"
proof -
  define h where "h m = the (hmac_sha256 cr secret m)" for m
  have h: "hmac_sha256 cr secret m = Some (h m)" "length (h m) = 32" for m
    using crypto_okD(1) [OF assms(1), of secret m] by (auto simp: h_def)
  let ?info = "hkdf_label_info len label []"
  have "hkdf_expand_label_sha256 cr secret label [] len = Ok (hkdf_okm h ?info len)"
    using hkdf_expand_sha256_vec_okm [where h = h, OF h assms(2)] assms(2,3)
    by (simp add: hkdf_expand_label_sha256_def)
  with length_hkdf_okm [where h = h, OF h(2)] that show thesis by blast
qed

lemma quic_label_lens:
  "length TLS13_LABEL_PREFIX + length QUIC_KEY_LABEL \<le> 255"
  "length TLS13_LABEL_PREFIX + length QUIC_IV_LABEL \<le> 255"
  "length TLS13_LABEL_PREFIX + length QUIC_HP_LABEL \<le> 255"
  "length TLS13_LABEL_PREFIX + length QUIC_KU_LABEL \<le> 255"
  by (simp_all add: TLS13_LABEL_PREFIX_def QUIC_KEY_LABEL_def QUIC_IV_LABEL_def
      QUIC_HP_LABEL_def QUIC_KU_LABEL_def ascii_bytes_def)

lemma suite_key_lens:
  "aead_kind_key_len k \<le> 8128" "hp_kind_key_len hk \<le> 8128" "AEAD_IV_LEN \<le> 8128"
  "UDP_QSP_TRAFFIC_SECRET_LEN \<le> 8128"
  by (cases k; cases hk; simp add: AEAD_KEY_LEN_def CHACHA20_POLY1305_KEY_LEN_def
      HP_KEY_LEN_def AEAD_IV_LEN_def UDP_QSP_TRAFFIC_SECRET_LEN_def)+

lemma cc_iv_len_for_suite [simp]: "cc_iv_len (cipher_config_for_suite c) = AEAD_IV_LEN"
  by (cases c) simp_all

lemma header_protection_key_new_Ok:
  assumes "crypto_ok cr" "length key = hp_kind_key_len kind"
  obtains hp where "header_protection_key_new cr kind key = Ok hp" "hp_key_wf kind hp"
  using assms crypto_okD(2) [OF assms(1), of key]
  by (cases kind) (auto simp: header_protection_key_new_def HP_KEY_LEN_def)

lemma header_protection_key_clone:
  assumes "crypto_ok cr" "hp_key_wf kind hp"
  shows "header_protection_key_try_clone cr hp = Ok hp"
  using assms(2) crypto_okD(2) [OF assms(1)]
  by (cases kind; cases hp) (simp_all add: header_protection_key_new_def HP_KEY_LEN_def)

lemma packet_key_new_Ok:
  assumes "crypto_ok cr" "length key = aead_kind_key_len kind" "length iv = AEAD_IV_LEN"
  shows "packet_key_new cr key iv kind = Ok \<lparr>pk_key = key, pk_iv = iv, pk_aead = kind\<rparr>"
  using crypto_okD(5) [OF assms(1,2)] assms(2,3)
  by (simp add: packet_key_new_def aead_context_new_def)

lemma derive_packet_material_Ok:
  assumes "crypto_ok cr"
  obtains m where "derive_packet_material cr secret (aead_kind_key_len kind) AEAD_IV_LEN = Ok m"
    "length (pm_key m) = aead_kind_key_len kind" "length (pm_iv m) = AEAD_IV_LEN"
proof -
  obtain k where k: "hkdf_expand_label_sha256 cr secret QUIC_KEY_LABEL [] (aead_kind_key_len kind) = Ok k"
      "length k = aead_kind_key_len kind"
    using hkdf_expand_label_Ok [OF assms suite_key_lens(1) quic_label_lens(1)] by blast
  obtain iv where iv: "hkdf_expand_label_sha256 cr secret QUIC_IV_LABEL [] AEAD_IV_LEN = Ok iv"
      "length iv = AEAD_IV_LEN"
    using hkdf_expand_label_Ok [OF assms suite_key_lens(3) quic_label_lens(2)] by blast
  show thesis
    by (rule that [of "\<lparr>pm_key = k, pm_iv = iv\<rparr>"]) (simp_all add: derive_packet_material_def k iv)
qed

lemma direction_keys_from_secret_Ok:
  assumes "crypto_ok cr" "length secret = UDP_QSP_TRAFFIC_SECRET_LEN" "cc_iv_len config = AEAD_IV_LEN"
  obtains d where "direction_keys_from_secret cr secret config = Ok d"
    "direction_keys_wf config d" "dk_secret d = secret"
proof -
  obtain hk where hk: "derive_header_protection_key cr secret (hp_kind_key_len (cc_hp config)) = Ok hk"
      "length hk = hp_kind_key_len (cc_hp config)"
    using hkdf_expand_label_Ok [OF assms(1) suite_key_lens(2) quic_label_lens(3)]
    unfolding derive_header_protection_key_def by blast
  obtain m where m: "derive_packet_material cr secret (aead_kind_key_len (cc_aead config)) AEAD_IV_LEN = Ok m"
      "length (pm_key m) = aead_kind_key_len (cc_aead config)" "length (pm_iv m) = AEAD_IV_LEN"
    using derive_packet_material_Ok [OF assms(1)] by blast
  obtain hp where hp: "header_protection_key_new cr (cc_hp config) hk = Ok hp"
      "hp_key_wf (cc_hp config) hp"
    using header_protection_key_new_Ok [OF assms(1) hk(2)] by blast
  show thesis
    by (rule that [of "\<lparr>dk_secret = secret, dk_hp = hp,
            dk_aead = \<lparr>pk_key = pm_key m, pk_iv = pm_iv m, pk_aead = cc_aead config\<rparr>\<rparr>"])
      (simp_all add: direction_keys_from_secret_def direction_keys_wf_def assms hk m hp
        packet_key_new_Ok)
qed

lemma direction_keys_next_generation_Ok:
  assumes "crypto_ok cr" "direction_keys_wf config d" "cc_iv_len config = AEAD_IV_LEN"
  obtains d' where "direction_keys_next_generation cr d config = Ok d'"
    "direction_keys_wf config d'" "dk_hp d' = dk_hp d"
proof -
  obtain s where s: "hkdf_expand_label_sha256 cr (dk_secret d) QUIC_KU_LABEL [] UDP_QSP_TRAFFIC_SECRET_LEN = Ok s"
      "length s = UDP_QSP_TRAFFIC_SECRET_LEN"
    using hkdf_expand_label_Ok [OF assms(1) suite_key_lens(4) quic_label_lens(4)] by blast
  obtain m where m: "derive_packet_material cr s (aead_kind_key_len (cc_aead config)) AEAD_IV_LEN = Ok m"
      "length (pm_key m) = aead_kind_key_len (cc_aead config)" "length (pm_iv m) = AEAD_IV_LEN"
    using derive_packet_material_Ok [OF assms(1)] by blast
  have hp: "header_protection_key_try_clone cr (dk_hp d) = Ok (dk_hp d)"
    using assms(1,2) header_protection_key_clone by (auto simp: direction_keys_wf_def)
  show thesis
    by (rule that [of "\<lparr>dk_secret = s, dk_hp = dk_hp d,
            dk_aead = \<lparr>pk_key = pm_key m, pk_iv = pm_iv m, pk_aead = cc_aead config\<rparr>\<rparr>"])
      (use assms in \<open>simp_all add: direction_keys_next_generation_def direction_keys_wf_def s m hp
        derive_next_secret_def packet_key_new_Ok\<close>)
qed

lemma direction_keys_clone:
  assumes "crypto_ok cr" "direction_keys_wf config d"
  shows "direction_keys_try_clone cr d = Ok d"
proof -
  have "header_protection_key_try_clone cr (dk_hp d) = Ok (dk_hp d)"
    using assms header_protection_key_clone by (auto simp: direction_keys_wf_def)
  moreover have "packet_key_try_clone cr (dk_aead d) = Ok (dk_aead d)"
    using assms packet_key_new_Ok [OF assms(1), of "pk_key (dk_aead d)" "cc_aead config"]
    by (simp add: packet_key_try_clone_def direction_keys_wf_def)
  ultimately show ?thesis by (simp add: direction_keys_try_clone_def)
qed

lemma udp_qsp_keys_new_Ok:
  assumes "crypto_ok cr" "length secret_tx = UDP_QSP_TRAFFIC_SECRET_LEN"
    "length secret_rx = UDP_QSP_TRAFFIC_SECRET_LEN"
  obtains ks where "udp_qsp_keys_new cr cipher secret_tx secret_rx = Ok ks" "udp_qsp_keys_wf ks"
    "direction_keys_from_secret cr secret_tx (cipher_config_for_suite cipher) = Ok (ks_tx ks)"
    "direction_keys_from_secret cr secret_rx (cipher_config_for_suite cipher) = Ok (ks_rx ks)"
    "ks_cipher ks = cipher"
proof -
  obtain tx where tx: "direction_keys_from_secret cr secret_tx (cipher_config_for_suite cipher) = Ok tx"
      "direction_keys_wf (cipher_config_for_suite cipher) tx"
    using direction_keys_from_secret_Ok [OF assms(1,2) cc_iv_len_for_suite] by blast
  obtain rx where rx: "direction_keys_from_secret cr secret_rx (cipher_config_for_suite cipher) = Ok rx"
      "direction_keys_wf (cipher_config_for_suite cipher) rx"
    using direction_keys_from_secret_Ok [OF assms(1,3) cc_iv_len_for_suite] by blast
  show thesis
    by (rule that [of "\<lparr>ks_cipher = cipher, ks_tx = tx, ks_rx = rx\<rparr>"])
      (simp_all add: udp_qsp_keys_new_def udp_qsp_keys_wf_def tx rx)
qed

lemma udp_qsp_keys_clone:
  assumes "crypto_ok cr" "udp_qsp_keys_wf ks"
  shows "udp_qsp_keys_try_clone cr ks = Ok ks"
proof -
  have "direction_keys_try_clone cr (ks_tx ks) = Ok (ks_tx ks)"
      "direction_keys_try_clone cr (ks_rx ks) = Ok (ks_rx ks)"
    using assms direction_keys_clone unfolding udp_qsp_keys_wf_def by blast+
  then show ?thesis by (simp add: udp_qsp_keys_try_clone_def)
qed

lemma with_next_tx_keys_Ok:
  assumes "crypto_ok cr" "udp_qsp_keys_wf ks"
  obtains ks' where "with_next_tx_keys cr ks = Ok ks'" "udp_qsp_keys_wf ks'"
    "ks_rx ks' = ks_rx ks" "ks_cipher ks' = ks_cipher ks"
    "direction_keys_next_generation cr (ks_tx ks) (cipher_config_for_suite (ks_cipher ks)) = Ok (ks_tx ks')"
proof -
  have wf: "direction_keys_wf (cipher_config_for_suite (ks_cipher ks)) (ks_tx ks)"
      "direction_keys_wf (cipher_config_for_suite (ks_cipher ks)) (ks_rx ks)"
    using assms(2) by (simp_all add: udp_qsp_keys_wf_def)
  obtain d where "direction_keys_next_generation cr (ks_tx ks)
      (cipher_config_for_suite (ks_cipher ks)) = Ok d"
      "direction_keys_wf (cipher_config_for_suite (ks_cipher ks)) d"
    using direction_keys_next_generation_Ok [OF assms(1) wf(1) cc_iv_len_for_suite] by blast
  then show thesis
    using that [of "ks\<lparr>ks_tx := d\<rparr>"] wf(2) direction_keys_clone [OF assms(1) wf(2)]
    by (simp add: with_next_tx_keys_def udp_qsp_keys_wf_def)
qed

lemma with_next_rx_keys_Ok:
  assumes "crypto_ok cr" "udp_qsp_keys_wf ks"
  obtains ks' where "with_next_rx_keys cr ks = Ok ks'" "udp_qsp_keys_wf ks'"
    "ks_tx ks' = ks_tx ks" "ks_cipher ks' = ks_cipher ks"
    "direction_keys_next_generation cr (ks_rx ks) (cipher_config_for_suite (ks_cipher ks)) = Ok (ks_rx ks')"
proof -
  have wf: "direction_keys_wf (cipher_config_for_suite (ks_cipher ks)) (ks_tx ks)"
      "direction_keys_wf (cipher_config_for_suite (ks_cipher ks)) (ks_rx ks)"
    using assms(2) by (simp_all add: udp_qsp_keys_wf_def)
  obtain d where "direction_keys_next_generation cr (ks_rx ks)
      (cipher_config_for_suite (ks_cipher ks)) = Ok d"
      "direction_keys_wf (cipher_config_for_suite (ks_cipher ks)) d"
    using direction_keys_next_generation_Ok [OF assms(1) wf(2) cc_iv_len_for_suite] by blast
  then show thesis
    using that [of "ks\<lparr>ks_rx := d\<rparr>"] wf(1) direction_keys_clone [OF assms(1) wf(1)]
    by (simp add: with_next_rx_keys_def udp_qsp_keys_wf_def)
qed

section \<open>Nonces\<close>

lemma length_make_nonce: "length iv = AEAD_IV_LEN \<Longrightarrow> length (make_nonce iv pn) = AEAD_IV_LEN"
  by (simp add: make_nonce_def AEAD_IV_LEN_def)

lemma make_nonce_inject:
  assumes "length iv = AEAD_IV_LEN"
  shows "make_nonce iv pn = make_nonce iv pn' \<longleftrightarrow> pn = pn'"
proof
  assume "make_nonce iv pn = make_nonce iv pn'"
  then have "xor_bytes (u64_to_be_bytes pn) (drop 4 iv) = xor_bytes (u64_to_be_bytes pn') (drop 4 iv)"
    by (simp add: make_nonce_def xor_bytes_commute)
  then have "u64_to_be_bytes pn = u64_to_be_bytes pn'"
    using assms by (simp add: xor_bytes_inject AEAD_IV_LEN_def)
  then show "pn = pn'" by (metis u64_be_roundtrip)
qed simp

section \<open>Opening a protected packet\<close>

lemma header_protection_key_mask_Ok:
  assumes "crypto_ok cr" "length sample = HP_SAMPLE_LEN"
  obtains m ms where "header_protection_key_mask cr hp sample = Ok (m # ms)" "length ms = 4"
proof -
  obtain k where k: "header_protection_key_mask cr hp sample = Ok k" "length k = 5"
    using assms crypto_okD(3,4) [OF assms(1)]
    by (cases hp) (simp_all add: header_protection_key_mask_def HP_MASK_LEN_def Let_def)
  then show thesis using that by (cases k) auto
qed

lemma require_hp_sample_Ok:
  "sample_offset dcid_len + HP_SAMPLE_LEN \<le> length packet \<Longrightarrow> require_hp_sample packet dcid_len = Ok ()"
  by (simp add: require_hp_sample_def)

lemma length_protected_header:
  "length ms = 4 \<Longrightarrow> length (protected_header dcid pn key_phase m ms) = 1 + length dcid + packet_number_len pn"
  using packet_number_len_bounds(2) [of pn] by (simp add: protected_header_def MAX_WIRE_PN_LEN_def)

text \<open>The sample lies in the ciphertext, whatever the header bytes are.\<close>

lemma sample_in_ciphertext:
  assumes "length hdr = 1 + dcid_len + packet_number_len pn"
  shows "subslice (fst (hp_sample_range dcid_len)) (snd (hp_sample_range dcid_len)) (hdr @ c) =
           subslice (4 - packet_number_len pn) (20 - packet_number_len pn) c"
  using assms packet_number_len_bounds(2) [of pn]
  by (subst subslice_append_right)
    (simp_all add: hp_sample_range_def sample_offset_def HP_SAMPLE_LEN_def MAX_WIRE_PN_LEN_def Let_def)

lemma qsp_pad_len_enough:
  "20 - packet_number_len pn \<le> n + qsp_pad_len dcid_len pn n + AEAD_TAG_LEN"
  by (simp add: qsp_pad_len_def hp_sample_range_def sample_offset_def HP_SAMPLE_LEN_def
      AEAD_TAG_LEN_def Let_def)

lemma protect_into_Ok:
  assumes cr: "crypto_ok cr" and wf: "direction_keys_wf config (ks_tx ks)"
  obtains c m ms where
    "protect_into cr ks dcid pn key_phase plaintext =
       Ok (protected_header dcid pn key_phase m ms @ c)"
    "length ms = 4"
    "header_protection_key_mask cr (dk_hp (ks_tx ks))
       (subslice (4 - packet_number_len pn) (20 - packet_number_len pn) c) = Ok (m # ms)"
    "length c = length (padded_plaintext (length dcid) pn plaintext) + AEAD_TAG_LEN"
    "EVP_AEAD_CTX_open cr (pk_aead (dk_aead (ks_tx ks))) (pk_key (dk_aead (ks_tx ks))) (length c)
       (make_nonce (pk_iv (dk_aead (ks_tx ks))) pn) c (header_bytes dcid pn key_phase) =
       Some (padded_plaintext (length dcid) pn plaintext)"
proof -
  let ?k = "dk_aead (ks_tx ks)" and ?pad = "padded_plaintext (length dcid) pn plaintext"
    and ?h = "header_bytes dcid pn key_phase" and ?l = "packet_number_len pn"
  have kw: "length (pk_key ?k) = aead_kind_key_len (pk_aead ?k)" "length (pk_iv ?k) = AEAD_IV_LEN"
    using wf by (auto simp: direction_keys_wf_def)
  obtain c where c: "EVP_AEAD_CTX_seal cr (pk_aead ?k) (pk_key ?k) (length ?pad + AEAD_TAG_LEN)
        (make_nonce (pk_iv ?k) pn) ?pad ?h = Some c"
      "length c = length ?pad + AEAD_TAG_LEN"
      "EVP_AEAD_CTX_open cr (pk_aead ?k) (pk_key ?k) (length c) (make_nonce (pk_iv ?k) pn) c ?h = Some ?pad"
    using crypto_ok_sealD [OF cr kw(1) length_make_nonce [OF kw(2)]] by blast
  have l: "?l \<le> 4" using packet_number_len_bounds(2) [of pn] by (simp add: MAX_WIRE_PN_LEN_def)
  have enough: "20 - ?l \<le> length c"
    using c(2) qsp_pad_len_enough [of pn "length plaintext" "length dcid"]
    by (simp add: padded_plaintext_def)
  then have "length (subslice (4 - ?l) (20 - ?l) c) = HP_SAMPLE_LEN"
    using l by (simp add: HP_SAMPLE_LEN_def)
  then obtain m ms where m: "header_protection_key_mask cr (dk_hp (ks_tx ks))
        (subslice (4 - ?l) (20 - ?l) c) = Ok (m # ms)" "length ms = 4"
    using header_protection_key_mask_Ok [OF cr] by blast
  have seal: "packet_key_seal_into cr ?k pn (length ?h) ?pad ?h = Ok (?h @ c)"
    using c(1) by (simp add: packet_key_seal_into_def)
  have req: "require_hp_sample (?h @ c) (length dcid) = Ok ()"
    using enough l by (intro require_hp_sample_Ok)
      (simp add: sample_offset_def HP_SAMPLE_LEN_def del: length_header_bytes, simp)
  have sample: "subslice (fst (hp_sample_range (length dcid))) (snd (hp_sample_range (length dcid)))
      (?h @ c) = subslice (4 - ?l) (20 - ?l) c"
    by (rule sample_in_ciphertext) simp
  have pad: "(if qsp_pad_len (length dcid) pn (length plaintext) = 0 then plaintext
      else plaintext @ replicate (qsp_pad_len (length dcid) pn (length plaintext)) 0) = ?pad"
    by (simp add: padded_plaintext_def)
  have "protect_into cr ks dcid pn key_phase plaintext =
          Ok (protected_header dcid pn key_phase m ms @ c)"
    using seal req m sample apply_header_protection_header [OF m(2), of dcid pn key_phase c m]
    by (simp add: protect_into_def build_header_eq Let_def pad case_prod_unfold
        del: length_header_bytes)
  with m c that show thesis by blast
qed

lemma open_protected:
  assumes cr: "crypto_ok cr" and wf: "direction_keys_wf config (ks_tx ks)"
    and near: "within_half_window pn expected_pn (packet_number_len pn)"
    and pkt: "protect_into cr ks dcid pn key_phase plaintext = Ok pkt"
    and hp: "dk_hp rx = dk_hp (ks_tx ks)"
  shows "open_into_inner cr rx (length dcid) pkt expected_pn =
           bind_result
             (packet_key_open_into cr (dk_aead rx) pn (header_bytes dcid pn key_phase)
                (drop (1 + length dcid + packet_number_len pn) pkt))
             (\<lambda>out. Ok (\<lparr>om_pn = pn, om_pn_len = packet_number_len pn,
                        om_key_phase = key_phase\<rparr>, out))"
    and "dk_aead rx = dk_aead (ks_tx ks) \<Longrightarrow>
           packet_key_open_into cr (dk_aead rx) pn (header_bytes dcid pn key_phase)
             (drop (1 + length dcid + packet_number_len pn) pkt) =
           Ok (padded_plaintext (length dcid) pn plaintext)"
proof -
  let ?l = "packet_number_len pn"
  obtain c m ms where p: "pkt = protected_header dcid pn key_phase m ms @ c" "length ms = 4"
      "header_protection_key_mask cr (dk_hp (ks_tx ks)) (subslice (4 - ?l) (20 - ?l) c) = Ok (m # ms)"
      "length c = length (padded_plaintext (length dcid) pn plaintext) + AEAD_TAG_LEN"
      "EVP_AEAD_CTX_open cr (pk_aead (dk_aead (ks_tx ks))) (pk_key (dk_aead (ks_tx ks))) (length c)
         (make_nonce (pk_iv (dk_aead (ks_tx ks))) pn) c (header_bytes dcid pn key_phase) =
         Some (padded_plaintext (length dcid) pn plaintext)"
    using protect_into_Ok [OF cr wf, of dcid pn key_phase plaintext] pkt by (metis Inr_inject)
  have l: "?l \<le> 4" using packet_number_len_bounds(2) [of pn] by (simp add: MAX_WIRE_PN_LEN_def)
  note hl = length_protected_header [OF p(2), of dcid pn key_phase m]
  have req: "require_hp_sample pkt (length dcid) = Ok ()"
    using p(1,4) l hl qsp_pad_len_enough [of pn "length plaintext" "length dcid"]
    by (intro require_hp_sample_Ok)
      (simp add: sample_offset_def HP_SAMPLE_LEN_def padded_plaintext_def)
  have sample: "subslice (fst (hp_sample_range (length dcid))) (snd (hp_sample_range (length dcid)))
      pkt = subslice (4 - ?l) (20 - ?l) c"
    unfolding p(1) using hl by (rule sample_in_ciphertext)
  have parse: "parse_header (length dcid) pkt (m # ms) =
           Ok \<lparr>ph_pn = word_of_nat (truncate_pn pn ?l), ph_pn_len = ?l, ph_key_phase = key_phase,
               ph_header = header_bytes dcid pn key_phase\<rparr>"
    unfolding p(1) using p(2,4) by (intro parse_header_protected) simp_all
  have pn: "reconstruct_packet_number (word_of_nat (truncate_pn pn ?l)) expected_pn ?l = pn"
    using near by (intro reconstruct_packet_number_correct packet_number_len_bounds)
      (simp_all add: unat_truncated)
  have len: "\<not> length pkt < length (header_bytes dcid pn key_phase) + AEAD_TAG_LEN"
    using p(1,4) hl by simp
  show "open_into_inner cr rx (length dcid) pkt expected_pn =
           bind_result
             (packet_key_open_into cr (dk_aead rx) pn (header_bytes dcid pn key_phase)
                (drop (1 + length dcid + packet_number_len pn) pkt))
             (\<lambda>out. Ok (\<lparr>om_pn = pn, om_pn_len = packet_number_len pn,
                        om_key_phase = key_phase\<rparr>, out))"
    using req sample p(3) parse pn len
    by (simp add: open_into_inner_def hp case_prod_unfold Let_def)
  show "packet_key_open_into cr (dk_aead rx) pn (header_bytes dcid pn key_phase)
             (drop (1 + length dcid + packet_number_len pn) pkt) =
           Ok (padded_plaintext (length dcid) pn plaintext)"
    if "dk_aead rx = dk_aead (ks_tx ks)"
    using that p(1,4,5) hl by (simp add: packet_key_open_into_def)
qed

lemma protect_open:
  assumes "crypto_ok cr" "udp_qsp_keys_wf a" "ks_rx b = ks_tx a"
    and "within_half_window pn expected_pn (packet_number_len pn)"
  shows "\<exists>pkt. protect cr a dcid pn key_phase plaintext = Ok pkt \<and>
               open_packet_bytes cr b (length dcid) pkt expected_pn =
                 Ok \<lparr>op_pn = pn, op_pn_len = packet_number_len pn, op_key_phase = key_phase,
                     op_payload = padded_plaintext (length dcid) pn plaintext\<rparr>"
proof -
  have wf: "direction_keys_wf (cipher_config_for_suite (ks_cipher a)) (ks_tx a)"
    using assms(2) by (simp add: udp_qsp_keys_wf_def)
  then obtain pkt where pkt: "protect_into cr a dcid pn key_phase plaintext = Ok pkt"
    using protect_into_Ok [OF assms(1) wf] by blast
  from open_protected [OF assms(1) wf assms(4) pkt, of "ks_rx b"] assms(3) pkt
  show ?thesis by (simp add: protect_def open_packet_bytes_def)
qed

section \<open>Properties\<close>

lemma sample_keys_wf: "udp_qsp_keys_wf sample_keys"
  by (simp add: sample_keys_def sample_direction_def udp_qsp_keys_wf_def direction_keys_wf_def
      CHACHA20_POLY1305_KEY_LEN_def AEAD_IV_LEN_def UDP_QSP_TRAFFIC_SECRET_LEN_def)

lemma plain_crypto_ok: "crypto_ok plain_crypto"
  by (simp add: crypto_ok_def plain_crypto_def AEAD_TAG_LEN_def)

text \<open>C33: For every output length of up to 254 blocks (8128 bytes) the HKDF-Expand loop computes
  the RFC 5869 reference, the first \<open>len\<close> bytes of \<open>T(1) T(2) ...\<close>; for every longer output it
  fails, because the block counter is advanced after the last block too.  RFC 5869 allows one block more
  (8160 bytes).  The HMAC primitive is assumed to return 32 bytes.\<close>

theorem hkdf_expand_reference:
  assumes "\<And>m. hmac_sha256 cr prk m = Some (h m)" and "\<And>m. length (h m) = 32"
  shows "hkdf_expand_sha256_vec cr prk info len =
           (if len \<le> 254 * 32 then Ok (hkdf_okm h info len) else Err CryptoFail) \<and>
         length (hkdf_okm h info len) = len"
  using hkdf_expand_sha256_vec_okm [OF assms] hkdf_expand_sha256_vec_too_long [OF assms]
    length_hkdf_okm [of h, OF assms(2)] by simp

theorem hkdf_expand_reference_witness:
  "hkdf_expand_sha256_vec plain_crypto [1] [2] 40 = Ok (hkdf_okm (\<lambda>_. replicate 32 0) [2] 40) \<and>
   length (hkdf_okm (\<lambda>_. replicate 32 0) [2] 40) = 40 \<and>
   hkdf_expand_sha256_vec plain_crypto [1] [2] (255 * 32) = Err CryptoFail"
  using hkdf_expand_reference [of plain_crypto "[1]" "\<lambda>_. replicate 32 0" "[2]" 40]
    hkdf_expand_reference [of plain_crypto "[1]" "\<lambda>_. replicate 32 0" "[2]" "255 * 32"]
  by (simp add: plain_crypto_def)

text \<open>C28: With working primitives and derived keys, protecting a packet always succeeds,
  and a peer whose receive keys are the sender's transmit keys opens it to the same packet
  number, key phase and plaintext followed by zero padding, whenever the packet number lies
  within half a window of the one the peer expects.\<close>

theorem packet_protection_roundtrip:
  assumes "crypto_ok cr" "udp_qsp_keys_wf a" "ks_rx b = ks_tx a"
    and "within_half_window pn expected_pn (packet_number_len pn)"
  shows "\<exists>pkt. protect cr a dcid pn key_phase plaintext = Ok pkt \<and>
               open_packet_bytes cr b (length dcid) pkt expected_pn =
                 Ok \<lparr>op_pn = pn, op_pn_len = packet_number_len pn, op_key_phase = key_phase,
                     op_payload = padded_plaintext (length dcid) pn plaintext\<rparr>"
  using assms by (rule protect_open)

theorem packet_protection_roundtrip_witness:
  "\<exists>pkt. protect plain_crypto sample_keys [1, 2] 300 True [9, 9] = Ok pkt \<and>
          open_packet_bytes plain_crypto sample_keys (length [1, 2 :: u8]) pkt 280 =
            Ok \<lparr>op_pn = 300, op_pn_len = packet_number_len 300, op_key_phase = True,
                op_payload = padded_plaintext (length [1, 2 :: u8]) 300 [9, 9]\<rparr>"
  by (rule packet_protection_roundtrip [OF plain_crypto_ok sample_keys_wf])
    (simp_all add: sample_keys_def within_half_window_def packet_number_len_def)

end
