(* ===== verification/Replay_Window.thy ===== *)
theory Replay_Window
  imports Slt_Prelude
begin

text \<open>
  The replay window of a UDP-QSP session (\<open>ReplayWindow\<close> in
  \<open>slt-core/src/crypto/udp_qsp/session.rs\<close>): a ring of 1024 bits over sixteen 64-bit words and
  the largest accepted packet number.

  The abstract window is the whole set of accepted numbers.  \<open>replay_rel\<close> relates a bitmap to
  such a set, and \<open>check_and_update\<close> is shown to take the same decision and to keep the
  relation, for every 64-bit packet number.  The locale \<open>replay_guard\<close> is what a client relies
  on: a filter of that kind never accepts a number twice.
\<close>

definition PN_REPLAY_WINDOW :: nat where
  "PN_REPLAY_WINDOW = 1024"

definition WINDOW_WORD_BITS :: nat where
  "WINDOW_WORD_BITS = 64"

definition WINDOW_WORDS :: nat where
  "WINDOW_WORDS = PN_REPLAY_WINDOW div WINDOW_WORD_BITS"

datatype replay_error = Replay | TooOld

record replay_window =
  rw_largest_pn :: "u64 option"
  rw_initial_expected :: u64
  rw_bits :: "u64 list"

definition replay_window_new :: "u64 \<Rightarrow> replay_window" where
  "replay_window_new initial_expected =
     \<lparr>rw_largest_pn = None, rw_initial_expected = initial_expected,
      rw_bits = replicate WINDOW_WORDS 0\<rparr>"

definition replay_expected_pn :: "replay_window \<Rightarrow> u64" where
  "replay_expected_pn w =
     (case rw_largest_pn w of
        None \<Rightarrow> rw_initial_expected w
      | Some pn \<Rightarrow> saturating_add_u64 pn 1)"

definition bit_position :: "u64 \<Rightarrow> nat \<times> u64" where
  "bit_position pn =
     (let idx = unat (pn mod word_of_nat PN_REPLAY_WINDOW);
          word = idx div WINDOW_WORD_BITS;
          b = idx mod WINDOW_WORD_BITS
      in (word, push_bit b 1))"

definition is_set :: "u64 list \<Rightarrow> u64 \<Rightarrow> bool" where
  "is_set bits pn = (let (word, m) = bit_position pn in bits ! word AND m \<noteq> 0)"

definition set_bit_at :: "u64 \<Rightarrow> u64 list \<Rightarrow> u64 list" where
  "set_bit_at pn bits = (let (word, m) = bit_position pn in bits[word := bits ! word OR m])"

definition clear_bit_at :: "u64 \<Rightarrow> u64 list \<Rightarrow> u64 list" where
  "clear_bit_at pn bits = (let (word, m) = bit_position pn in bits[word := bits ! word AND NOT m])"

definition clear_range :: "u64 \<Rightarrow> u64 \<Rightarrow> u64 list \<Rightarrow> u64 list" where
  "clear_range old_start new_start bits =
     fold (\<lambda>old_pn. clear_bit_at (word_of_nat old_pn)) [unat old_start..<unat new_start] bits"

definition check_and_update :: "replay_window \<Rightarrow> u64 \<Rightarrow> (replay_window, replay_error) result" where
  "check_and_update w pn =
     (case rw_largest_pn w of
        None \<Rightarrow>
          if pn < rw_initial_expected w then Err TooOld
          else Ok (w\<lparr>rw_bits := set_bit_at pn (replicate WINDOW_WORDS 0), rw_largest_pn := Some pn\<rparr>)
      | Some largest \<Rightarrow>
          if pn > largest then
            let delta = pn - largest;
                bits =
                  (if delta \<ge> word_of_nat PN_REPLAY_WINDOW then replicate WINDOW_WORDS 0
                   else
                     let window = word_of_nat (PN_REPLAY_WINDOW - 1);
                         old_start = saturating_sub_u64 largest window;
                         new_start = saturating_sub_u64 pn window
                     in if new_start > old_start then clear_range old_start new_start (rw_bits w)
                        else rw_bits w)
            in Ok (w\<lparr>rw_bits := set_bit_at pn bits, rw_largest_pn := Some pn\<rparr>)
          else
            let delta = largest - pn in
            if delta \<ge> word_of_nat PN_REPLAY_WINDOW then Err TooOld
            else if is_set (rw_bits w) pn then Err Replay
            else Ok (w\<lparr>rw_bits := set_bit_at pn (rw_bits w)\<rparr>))"

text \<open>The abstract window: the set of all accepted numbers.\<close>

definition replay_spec :: "nat \<Rightarrow> nat set \<Rightarrow> nat \<Rightarrow> (nat set, replay_error) result" where
  "replay_spec initial_expected seen pn =
     (if seen = {} then if pn < initial_expected then Err TooOld else Ok {pn}
      else if Max seen < pn then Ok (insert pn seen)
      else if pn + PN_REPLAY_WINDOW \<le> Max seen then Err TooOld
      else if pn \<in> seen then Err Replay
      else Ok (insert pn seen))"

definition window_bit :: "u64 list \<Rightarrow> nat \<Rightarrow> bool" where
  "window_bit bits i = bit (bits ! (i div WINDOW_WORD_BITS)) (i mod WINDOW_WORD_BITS)"

definition replay_rel :: "replay_window \<Rightarrow> nat set \<Rightarrow> bool" where
  "replay_rel w seen \<longleftrightarrow>
     length (rw_bits w) = WINDOW_WORDS \<and> finite seen \<and>
     (case rw_largest_pn w of
        None \<Rightarrow> seen = {}
      | Some largest \<Rightarrow>
          seen \<noteq> {} \<and> unat largest = Max seen \<and>
          (\<forall>i < PN_REPLAY_WINDOW.
             window_bit (rw_bits w) i \<longleftrightarrow>
             (\<exists>q \<in> seen. q mod PN_REPLAY_WINDOW = i \<and> Max seen < q + PN_REPLAY_WINDOW)))"

text \<open>One decision of the window, as a step that reports the accepted number.\<close>

definition replay_step :: "replay_window \<Rightarrow> u64 \<Rightarrow> replay_window \<times> nat option" where
  "replay_step w pn =
     (case check_and_update w pn of Inl _ \<Rightarrow> (w, None) | Inr w' \<Rightarrow> (w', Some (unat pn)))"

text \<open>The decisions on a sequence of packet numbers, by the window and by the abstract set.\<close>

fun replay_run :: "replay_window \<Rightarrow> u64 list \<Rightarrow> (unit, replay_error) result list" where
  "replay_run w [] = []"
| "replay_run w (pn # pns) =
     (case check_and_update w pn of
        Inl e \<Rightarrow> Err e # replay_run w pns
      | Inr w' \<Rightarrow> Ok () # replay_run w' pns)"

fun replay_spec_run :: "nat \<Rightarrow> nat set \<Rightarrow> nat list \<Rightarrow> (unit, replay_error) result list" where
  "replay_spec_run initial_expected seen [] = []"
| "replay_spec_run initial_expected seen (pn # pns) =
     (case replay_spec initial_expected seen pn of
        Inl e \<Rightarrow> Err e # replay_spec_run initial_expected seen pns
      | Inr seen' \<Rightarrow> Ok () # replay_spec_run initial_expected seen' pns)"

section \<open>The bitmap\<close>

lemmas window_consts = PN_REPLAY_WINDOW_def WINDOW_WORD_BITS_def WINDOW_WORDS_def

lemma unat_mod_window: "unat (pn mod word_of_nat PN_REPLAY_WINDOW :: u64) = unat pn mod PN_REPLAY_WINDOW"
  by (simp add: unat_mod window_consts)

lemma bit_position_eq:
  "bit_position pn = (unat pn mod 1024 div 64, 2 ^ (unat pn mod 1024 mod 64))"
  by (simp add: bit_position_def Let_def unat_mod_window) (simp add: window_consts)

lemma word_index: "(i :: nat) < 1024 \<Longrightarrow> i div 64 < 16"
  by (simp add: less_mult_imp_div_less)

lemma is_set_window_bit: "is_set bits pn \<longleftrightarrow> window_bit bits (unat pn mod 1024)"
  by (simp add: is_set_def bit_position_eq window_bit_def and_exp_eq_0_iff_not_bit WINDOW_WORD_BITS_def)

lemma length_set_bit_at [simp]: "length (set_bit_at pn bits) = length bits"
  by (simp add: set_bit_at_def bit_position_eq)

lemma length_clear_bit_at [simp]: "length (clear_bit_at pn bits) = length bits"
  by (simp add: clear_bit_at_def bit_position_eq)

lemma same_position: "(i :: nat) div 64 = j div 64 \<Longrightarrow> i mod 64 = j mod 64 \<Longrightarrow> i = j"
  by (metis div_mult_mod_eq)

lemma window_bit_set:
  assumes "length bits = 16" "i < 1024"
  shows "window_bit (set_bit_at pn bits) i \<longleftrightarrow> i = unat pn mod 1024 \<or> window_bit bits i"
proof -
  have "unat pn mod 1024 div 64 < length bits" using assms(1) by (simp add: word_index)
  then show ?thesis
    using same_position [of i "unat pn mod 1024"]
    by (auto simp: set_bit_at_def bit_position_eq window_bit_def WINDOW_WORD_BITS_def
        nth_list_update bit_or_iff bit_exp_iff)
qed

lemma window_bit_clear:
  assumes "length bits = 16" "i < 1024"
  shows "window_bit (clear_bit_at pn bits) i \<longleftrightarrow> i \<noteq> unat pn mod 1024 \<and> window_bit bits i"
proof -
  have "unat pn mod 1024 div 64 < length bits" using assms(1) by (simp add: word_index)
  then show ?thesis
    using same_position [of i "unat pn mod 1024"]
    by (auto simp: clear_bit_at_def bit_position_eq window_bit_def WINDOW_WORD_BITS_def
        nth_list_update bit_and_iff bit_not_iff bit_exp_iff)
qed

lemma length_clear_range [simp]: "length (clear_range a b bits) = length bits"
proof -
  have "length (fold (\<lambda>q. clear_bit_at (word_of_nat q)) qs bits) = length bits" for qs
    by (induction qs arbitrary: bits) simp_all
  then show ?thesis by (simp add: clear_range_def)
qed

lemma window_bit_clear_range:
  assumes "length bits = 16" "i < 1024"
  shows "window_bit (clear_range a b bits) i \<longleftrightarrow>
           window_bit bits i \<and> (\<forall>q. unat a \<le> q \<and> q < unat b \<longrightarrow> q mod 1024 \<noteq> i)"
proof -
  have "window_bit (fold (\<lambda>q. clear_bit_at (word_of_nat q)) qs bits) i \<longleftrightarrow>
          window_bit bits i \<and> (\<forall>q \<in> set qs. q mod 1024 \<noteq> i)"
    if "\<forall>q \<in> set qs. q < 2 ^ 64" for qs
    using that assms(1)
  proof (induction qs arbitrary: bits)
    case Nil
    then show ?case by simp
  next
    case (Cons q qs)
    then have "unat (word_of_nat q :: u64) = q" by (simp add: unat_of_nat)
    with Cons assms(2) show ?case by (auto simp: window_bit_clear)
  qed
  moreover have "\<forall>q \<in> set [unat a..<unat b]. q < 2 ^ 64"
    using unat_u64_less [of b] by (auto simp del: unat_u64_less)
  ultimately show ?thesis by (auto simp: clear_range_def)
qed

lemma WINDOW_WORDS_16: "WINDOW_WORDS = 16"
  by (simp add: window_consts)

lemma window_bit_zero: "i < 1024 \<Longrightarrow> \<not> window_bit (replicate 16 0) i"
  by (simp add: window_bit_def WINDOW_WORD_BITS_def word_index)

section \<open>Refinement\<close>

lemma replay_rel_new: "replay_rel (replay_window_new e) {}"
  by (simp add: replay_rel_def replay_window_new_def)

lemma replay_rel_Some:
  "rw_largest_pn w = Some l \<Longrightarrow>
   replay_rel w seen \<longleftrightarrow>
     length (rw_bits w) = 16 \<and> finite seen \<and> seen \<noteq> {} \<and> unat l = Max seen \<and>
     (\<forall>i < 1024. window_bit (rw_bits w) i \<longleftrightarrow>
        (\<exists>q \<in> seen. q mod 1024 = i \<and> Max seen < q + 1024))"
  by (simp add: replay_rel_def window_consts)

text \<open>Two numbers of one window with the same ring position are equal.\<close>

lemma ring_position_unique:
  fixes p q :: nat
  assumes "p mod 1024 = q mod 1024" "p < q + 1024" "q < p + 1024"
  shows "p = q"
proof -
  have "p div 1024 = q div 1024"
  proof (rule ccontr)
    assume "p div 1024 \<noteq> q div 1024"
    then consider "p div 1024 + 1 \<le> q div 1024" | "q div 1024 + 1 \<le> p div 1024" by linarith
    then show False
    proof cases
      case 1
      then have "1024 * (p div 1024) + 1024 \<le> 1024 * (q div 1024)" by linarith
      then have "p + 1024 \<le> q" using assms(1) mult_div_mod_eq [of 1024 p] mult_div_mod_eq [of 1024 q]
        by linarith
      with assms show False by simp
    next
      case 2
      then have "1024 * (q div 1024) + 1024 \<le> 1024 * (p div 1024)" by linarith
      then have "q + 1024 \<le> p" using assms(1) mult_div_mod_eq [of 1024 p] mult_div_mod_eq [of 1024 q]
        by linarith
      with assms show False by simp
    qed
  qed
  with assms(1) show ?thesis by (metis mult_div_mod_eq)
qed

text \<open>Advancing the window clears exactly the positions that leave it.\<close>

lemma advance_window:
  fixes l p i :: nat
  assumes S: "finite S" "S \<noteq> {}" "Max S = l" and p: "l < p"
    and old: "b \<longleftrightarrow> (\<exists>q \<in> S. q mod 1024 = i \<and> l < q + 1024)"
  shows "(b \<and> (\<forall>q. l - 1023 \<le> q \<and> q < p - 1023 \<longrightarrow> q mod 1024 \<noteq> i)) \<longleftrightarrow>
           (\<exists>q \<in> S. q mod 1024 = i \<and> p < q + 1024)" (is "?l \<longleftrightarrow> ?r")
proof
  have le: "q \<le> l" if "q \<in> S" for q using S that by auto
  show ?r if ?l
  proof -
    from that old obtain q where q: "q \<in> S" "q mod 1024 = i" "l < q + 1024" by blast
    from that q(2) have "\<not> (l - 1023 \<le> q \<and> q < p - 1023)" by blast
    with q(3) have "p < q + 1024" by linarith
    with q show ?r by blast
  qed
  show ?l if ?r
  proof -
    from that obtain q where q: "q \<in> S" "q mod 1024 = i" "p < q + 1024" by blast
    have "r mod 1024 \<noteq> i" if r: "l - 1023 \<le> r" "r < p - 1023" for r
    proof
      assume "r mod 1024 = i"
      moreover have "q < r + 1024" "r < q + 1024" using le [OF q(1)] r q(3) by linarith+
      ultimately have "r = q" using q(2) ring_position_unique by simp
      with r q(3) show False by linarith
    qed
    moreover have "l < q + 1024" using p q(3) by linarith
    ultimately show ?l using old q by blast
  qed
qed

lemma unat_window_consts:
  "unat (word_of_nat PN_REPLAY_WINDOW :: u64) = 1024"
  "unat (word_of_nat (PN_REPLAY_WINDOW - 1) :: u64) = 1023"
  by (simp_all add: window_consts)

lemma check_and_update_first:
  assumes "rw_largest_pn w = None" "replay_rel w seen" "unat (rw_initial_expected w) \<le> unat pn"
  shows "\<exists>w'. check_and_update w pn = Ok w' \<and> replay_rel w' {unat pn} \<and>
              rw_initial_expected w' = rw_initial_expected w"
  using assms
  by (auto simp: check_and_update_def word_less_nat_alt replay_rel_Some window_consts
      window_bit_set dest: window_bit_zero)

lemma check_and_update_advance:
  assumes l: "rw_largest_pn w = Some l" and rel: "replay_rel w seen" and pn: "unat l < unat pn"
  shows "\<exists>w'. check_and_update w pn = Ok w' \<and> replay_rel w' (insert (unat pn) seen) \<and>
              rw_initial_expected w' = rw_initial_expected w"
proof -
  have S: "length (rw_bits w) = 16" "finite seen" "seen \<noteq> {}" "Max seen = unat l"
    and bits: "\<forall>i < 1024. window_bit (rw_bits w) i \<longleftrightarrow>
        (\<exists>q \<in> seen. q mod 1024 = i \<and> unat l < q + 1024)"
    using rel l by (auto simp: replay_rel_Some)
  define bs where "bs =
    (if pn - l \<ge> word_of_nat PN_REPLAY_WINDOW then replicate WINDOW_WORDS 0
     else let window = word_of_nat (PN_REPLAY_WINDOW - 1);
              old_start = saturating_sub_u64 l window;
              new_start = saturating_sub_u64 pn window
          in if new_start > old_start then clear_range old_start new_start (rw_bits w)
             else rw_bits w)"
  have len: "length bs = 16" using S(1) by (simp add: bs_def Let_def window_consts)
  have bs: "window_bit bs i \<longleftrightarrow> (\<exists>q \<in> seen. q mod 1024 = i \<and> unat pn < q + 1024)"
    if i: "i < 1024" for i
  proof (cases "unat l + 1024 \<le> unat pn")
    case True
    then have "word_of_nat PN_REPLAY_WINDOW \<le> pn - l"
      using pn by (simp add: word_le_nat_alt unat_window_consts unat_sub_u64)
    moreover have "unat l \<ge> q" if "q \<in> seen" for q using that S by (metis Max_ge)
    ultimately show ?thesis using True i window_bit_zero by (fastforce simp: bs_def WINDOW_WORDS_16)
  next
    case False
    let ?a = "saturating_sub_u64 l (word_of_nat (PN_REPLAY_WINDOW - 1))"
    let ?b = "saturating_sub_u64 pn (word_of_nat (PN_REPLAY_WINDOW - 1))"
    have ab: "unat ?a = unat l - 1023" "unat ?b = unat pn - 1023"
      by (simp_all only: unat_saturating_sub_u64 unat_window_consts)
    have "\<not> word_of_nat PN_REPLAY_WINDOW \<le> pn - l"
      using False pn by (simp add: word_le_nat_alt unat_window_consts unat_sub_u64)
    then have "window_bit bs i \<longleftrightarrow> window_bit (rw_bits w) i \<and>
        (\<forall>q. unat l - 1023 \<le> q \<and> q < unat pn - 1023 \<longrightarrow> q mod 1024 \<noteq> i)"
      using window_bit_clear_range [OF S(1) i, of ?a ?b] ab
      by (auto simp: bs_def Let_def word_less_nat_alt)
    with advance_window [OF S(2-4) pn, of _ i] bits i show ?thesis by simp
  qed
  have m: "Max (insert (unat pn) seen) = unat pn"
    using S pn by (simp add: max_def)
  have "check_and_update w pn = Ok (w\<lparr>rw_bits := set_bit_at pn bs, rw_largest_pn := Some pn\<rparr>)"
    using l pn by (simp add: check_and_update_def bs_def word_less_nat_alt Let_def)
  moreover have "replay_rel (w\<lparr>rw_bits := set_bit_at pn bs, rw_largest_pn := Some pn\<rparr>)
      (insert (unat pn) seen)"
    using S len bs m by (auto simp: replay_rel_Some window_bit_set)
  ultimately show ?thesis by simp
qed

lemma check_and_update_within:
  assumes l: "rw_largest_pn w = Some l" and rel: "replay_rel w seen"
    and pn: "unat pn \<le> unat l" "unat l < unat pn + 1024"
  shows "unat pn \<in> seen \<Longrightarrow> check_and_update w pn = Err Replay"
    and "unat pn \<notin> seen \<Longrightarrow>
           \<exists>w'. check_and_update w pn = Ok w' \<and> replay_rel w' (insert (unat pn) seen) \<and>
                rw_initial_expected w' = rw_initial_expected w"
proof -
  have S: "length (rw_bits w) = 16" "finite seen" "seen \<noteq> {}" "Max seen = unat l"
    and bits: "\<forall>i < 1024. window_bit (rw_bits w) i \<longleftrightarrow>
        (\<exists>q \<in> seen. q mod 1024 = i \<and> unat l < q + 1024)"
    using rel l by (auto simp: replay_rel_Some)
  have "unat l \<ge> q" if "q \<in> seen" for q using that S by (metis Max_ge)
  then have mem: "is_set (rw_bits w) pn \<longleftrightarrow> unat pn \<in> seen"
    using bits pn ring_position_unique by (fastforce simp: is_set_window_bit)
  have guard: "\<not> l < pn" "\<not> word_of_nat PN_REPLAY_WINDOW \<le> l - pn"
    using pn by (simp_all add: word_less_nat_alt word_le_nat_alt unat_window_consts unat_sub_u64)
  show "check_and_update w pn = Err Replay" if "unat pn \<in> seen"
    using that l guard mem by (simp add: check_and_update_def)
  show "\<exists>w'. check_and_update w pn = Ok w' \<and> replay_rel w' (insert (unat pn) seen) \<and>
             rw_initial_expected w' = rw_initial_expected w"
    if new: "unat pn \<notin> seen"
  proof -
    have "check_and_update w pn = Ok (w\<lparr>rw_bits := set_bit_at pn (rw_bits w)\<rparr>)"
      using new l guard mem by (simp add: check_and_update_def)
    moreover have "Max (insert (unat pn) seen) = unat l" using S pn by (simp add: max_def)
    then have "replay_rel (w\<lparr>rw_bits := set_bit_at pn (rw_bits w)\<rparr>) (insert (unat pn) seen)"
      using S l bits pn by (auto simp: replay_rel_Some window_bit_set)
    ultimately show ?thesis by simp
  qed
qed

lemma check_and_update_too_old:
  assumes "rw_largest_pn w = Some l" "unat pn + 1024 \<le> unat l"
  shows "check_and_update w pn = Err TooOld"
  using assms
  by (simp add: check_and_update_def word_less_nat_alt word_le_nat_alt unat_window_consts unat_sub_u64)

text \<open>The window takes the decision of the abstract set and stays related to it.\<close>

lemma check_and_update_refines:
  assumes rel: "replay_rel w seen"
  shows "case replay_spec (unat (rw_initial_expected w)) seen (unat pn) of
           Inl e \<Rightarrow> check_and_update w pn = Err e
         | Inr seen' \<Rightarrow> \<exists>w'. check_and_update w pn = Ok w' \<and> replay_rel w' seen' \<and>
                            rw_initial_expected w' = rw_initial_expected w"
proof (cases "rw_largest_pn w")
  case None
  then have "seen = {}" using rel by (simp add: replay_rel_def)
  then show ?thesis
    using None rel check_and_update_first [OF None rel, of pn]
    by (auto simp: replay_spec_def check_and_update_def word_less_nat_alt not_less)
next
  case (Some l)
  then have S: "seen \<noteq> {}" "Max seen = unat l" using rel by (auto simp: replay_rel_Some)
  consider "unat l < unat pn" | "unat pn + 1024 \<le> unat l"
    | "unat pn \<le> unat l" "unat l < unat pn + 1024" by linarith
  then show ?thesis
  proof cases
    case 1
    then show ?thesis
      using S check_and_update_advance [OF Some rel] by (simp add: replay_spec_def)
  next
    case 2
    then show ?thesis
      using S check_and_update_too_old [OF Some] by (simp add: replay_spec_def PN_REPLAY_WINDOW_def)
  next
    case 3
    then show ?thesis
      using S check_and_update_within [OF Some rel 3]
      by (simp add: replay_spec_def PN_REPLAY_WINDOW_def)
  qed
qed

section \<open>What a client relies on\<close>

text \<open>A guard reads inputs and accepts some of them under a number; \<open>covers s seen\<close> says that
  the state still knows what it must about the accepted numbers.\<close>

locale replay_guard =
  fixes step :: "'s \<Rightarrow> 'i \<Rightarrow> 's \<times> nat option"
    and covers :: "'s \<Rightarrow> nat set \<Rightarrow> bool"
  assumes skip: "covers s seen \<Longrightarrow> step s i = (s', None) \<Longrightarrow> covers s' seen"
    and accept_fresh: "covers s seen \<Longrightarrow> step s i = (s', Some n) \<Longrightarrow> n \<notin> seen"
    and accept_covers: "covers s seen \<Longrightarrow> step s i = (s', Some n) \<Longrightarrow> covers s' (insert n seen)"
begin

fun accepted :: "'s \<Rightarrow> 'i list \<Rightarrow> nat list" where
  "accepted s [] = []"
| "accepted s (i # is) =
     (case step s i of
        (s', None) \<Rightarrow> accepted s' is
      | (s', Some n) \<Rightarrow> n # accepted s' is)"

lemma accepted_distinct:
  "covers s seen \<Longrightarrow> distinct (accepted s is) \<and> set (accepted s is) \<inter> seen = {}"
proof (induction "is" arbitrary: s seen)
  case Nil
  then show ?case by simp
next
  case (Cons i "is")
  obtain s' r where step: "step s i = (s', r)" by fastforce
  show ?case
  proof (cases r)
    case None
    then show ?thesis
      using Cons.IH [of s' seen] skip [OF Cons.prems, of i s'] step by simp
  next
    case (Some n)
    then have "n \<notin> seen" "covers s' (insert n seen)"
      using accept_fresh accept_covers Cons.prems step by blast+
    with Cons.IH [of s' "insert n seen"] Some step show ?thesis by auto
  qed
qed

end

interpretation window_guard: replay_guard replay_step replay_rel
proof
  fix w seen pn w'
  assume rel: "replay_rel w seen"
  show "replay_rel w' seen" if "replay_step w pn = (w', None)"
    using that rel by (auto simp: replay_step_def split: sum.splits)
  fix n assume step: "replay_step w pn = (w', Some n)"
  then have ok: "check_and_update w pn = Ok w'" "n = unat pn"
    by (auto simp: replay_step_def split: sum.splits)
  then obtain seen' where "replay_spec (unat (rw_initial_expected w)) seen (unat pn) = Ok seen'"
      "replay_rel w' seen'"
    using check_and_update_refines [OF rel, of pn] by (auto split: sum.splits)
  moreover from this(1) have "seen' = insert (unat pn) seen" "unat pn \<notin> seen"
    using rel by (auto simp: replay_spec_def replay_rel_def split: if_splits option.splits)
  ultimately show "n \<notin> seen" "replay_rel w' (insert n seen)" using ok by simp_all
qed

section \<open>Properties\<close>

lemma replay_run_refines:
  "replay_rel w seen \<Longrightarrow>
   replay_run w pns = replay_spec_run (unat (rw_initial_expected w)) seen (map unat pns)"
proof (induction pns arbitrary: w seen)
  case Nil
  then show ?case by simp
next
  case (Cons pn pns)
  show ?case
  proof (cases "replay_spec (unat (rw_initial_expected w)) seen (unat pn)")
    case (Inl e)
    then show ?thesis using check_and_update_refines [OF Cons.prems, of pn] Cons by simp
  next
    case (Inr seen')
    then obtain w' where "check_and_update w pn = Ok w'" "replay_rel w' seen'"
        "rw_initial_expected w' = rw_initial_expected w"
      using check_and_update_refines [OF Cons.prems, of pn] by auto
    with Inr Cons.IH [of w' seen'] show ?thesis by simp
  qed
qed

text \<open>C2: On every sequence of 64-bit packet numbers the 1024-bit ring takes exactly the
  decisions of the abstract window that remembers all accepted numbers: accept, \<open>Replay\<close> for a
  number accepted before, \<open>TooOld\<close> below the window or below the initial number.\<close>

theorem replay_window_refines_set:
  "replay_run (replay_window_new initial_expected) pns =
     replay_spec_run (unat initial_expected) {} (map unat pns)"
  using replay_run_refines [OF replay_rel_new] by (simp add: replay_window_new_def)

end
