(* ===== verification/Qsp_Session.thy ===== *)
theory Qsp_Session
  imports Qsp_Keys Replay_Window
begin

text \<open>
  UDP-QSP sessions (\<open>QuicQspSession\<close> in \<open>slt-core/src/crypto/udp_qsp/session.rs\<close>): the
  packet-number counter, key updates at packet-number thresholds on both sides, the retained
  previous receive keys, and the replay window.

  The packet I/O backend is a parameter (\<open>'io\<close> and a send operation).  The two scratch
  buffers of the session carry no state between calls and are results here.
\<close>

definition KEY_UPDATE_INTERVAL :: u64 where
  "KEY_UPDATE_INTERVAL = push_bit 21 1"

definition KEY_UPDATE_LATE_MARGIN :: u64 where
  "KEY_UPDATE_LATE_MARGIN = word_of_nat PN_REPLAY_WINDOW * 8"

datatype 'e qsp_session_error =
    QsIo 'e | QsCrypto qsp_crypto_error | QsReplay | QsTooOld | QsPacketNumberOverflow

record rekey_policy =
  rp_interval :: u64
  rp_late_margin :: u64

definition rekey_policy_defaults :: rekey_policy where
  "rekey_policy_defaults =
     \<lparr>rp_interval = KEY_UPDATE_INTERVAL, rp_late_margin = KEY_UPDATE_LATE_MARGIN\<rparr>"

record previous_rx_keys =
  prx_keys :: udp_qsp_keys
  prx_valid_until_pn :: u64

record 'io quic_qsp_session =
  qs_io :: 'io
  qs_scid :: cid
  qs_dcid :: cid
  qs_keys :: udp_qsp_keys
  qs_tx_key_phase :: bool
  qs_rx_key_phase :: bool
  qs_next_pn :: u64
  qs_tx_next_rekey_pn :: "u64 option"
  qs_rx_next_rekey_pn :: "u64 option"
  qs_previous_rx :: "previous_rx_keys option"
  qs_rekey_policy :: rekey_policy
  qs_replay_window :: replay_window

definition pn_distance :: "u64 \<Rightarrow> u64 \<Rightarrow> u64" where
  "pn_distance a b = abs_diff_u64 a b"

definition next_rekey_after :: "u64 \<Rightarrow> u64 \<Rightarrow> u64 option" where
  "next_rekey_after pn interval =
     (if interval = 0 then None
      else
        let rem = pn mod interval;
            step = (if rem = 0 then interval else interval - rem)
        in checked_add_u64 pn step)"

definition quic_qsp_session_new ::
    "'io \<Rightarrow> cid \<Rightarrow> cid \<Rightarrow> udp_qsp_keys \<Rightarrow> u64 \<Rightarrow> u64 \<Rightarrow> bool \<Rightarrow> 'io quic_qsp_session" where
  "quic_qsp_session_new io scid dcid keys send_pn recv_expected_pn key_phase =
     \<lparr>qs_io = io, qs_scid = scid, qs_dcid = dcid, qs_keys = keys,
      qs_tx_key_phase = key_phase, qs_rx_key_phase = key_phase, qs_next_pn = send_pn,
      qs_tx_next_rekey_pn = next_rekey_after send_pn (rp_interval rekey_policy_defaults),
      qs_rx_next_rekey_pn = next_rekey_after recv_expected_pn (rp_interval rekey_policy_defaults),
      qs_previous_rx = None, qs_rekey_policy = rekey_policy_defaults,
      qs_replay_window = replay_window_new recv_expected_pn\<rparr>"

lemma next_rekey_after_greater:
  "next_rekey_after pn interval = Some t \<Longrightarrow> unat pn < unat t"
proof -
  assume t: "next_rekey_after pn interval = Some t"
  define step where "step = (if pn mod interval = 0 then interval else interval - pn mod interval)"
  have nz: "interval \<noteq> 0" using t by (auto simp: next_rekey_after_def)
  have "unat (pn mod interval) < unat interval"
    using nz by (simp add: unat_mod unat_gt_0)
  then have "step \<noteq> 0" using nz by (auto simp: step_def)
  then have "0 < unat step" by (simp add: unat_gt_0)
  moreover have "checked_add_u64 pn step = Some t"
    using t nz by (simp add: next_rekey_after_def step_def Let_def)
  ultimately show ?thesis using checked_add_u64_unat by fastforce
qed

text \<open>The loop of \<open>maybe_rotate_tx_keys\<close>: the threshold grows with every turn.\<close>

function maybe_rotate_tx_keys ::
    "qsp_crypto \<Rightarrow> 'io quic_qsp_session \<Rightarrow> u64 \<Rightarrow>
     'io quic_qsp_session \<times> (unit, 'e qsp_session_error) result" where
  "maybe_rotate_tx_keys cr s pn =
     (case qs_tx_next_rekey_pn s of
        None \<Rightarrow> (s, Ok ())
      | Some threshold \<Rightarrow>
          if pn < threshold then (s, Ok ())
          else case with_next_tx_keys cr (qs_keys s) of
              Inl e \<Rightarrow> (s, Err (QsCrypto e))
            | Inr keys \<Rightarrow>
                maybe_rotate_tx_keys cr
                  (s\<lparr>qs_keys := keys, qs_tx_key_phase := \<not> qs_tx_key_phase s,
                     qs_tx_next_rekey_pn :=
                       next_rekey_after threshold (rp_interval (qs_rekey_policy s))\<rparr>) pn)"
  by pat_completeness auto

termination maybe_rotate_tx_keys
proof (relation "measure (\<lambda>(cr, s, pn). case qs_tx_next_rekey_pn s of
           None \<Rightarrow> 0 | Some t \<Rightarrow> 2 ^ 64 - unat t)", goal_cases)
  case 1
  then show ?case by simp
next
  case (2 cr s pn t keys)
  then show ?case
    by (auto split: option.splits intro!: diff_less_mono2 dest: next_rekey_after_greater)
qed

declare maybe_rotate_tx_keys.simps [simp del]

text \<open>Everything \<open>send\<close> does before the I/O call: key rotation, the packet number and
  protection.\<close>

definition session_seal ::
    "qsp_crypto \<Rightarrow> 'io quic_qsp_session \<Rightarrow> bytes \<Rightarrow>
     'io quic_qsp_session \<times> (bytes, 'e qsp_session_error) result" where
  "session_seal cr s payload =
     (let pn = qs_next_pn s in
      case maybe_rotate_tx_keys cr s pn of
        (s, Inl e) \<Rightarrow> (s, Err e)
      | (s, Inr _) \<Rightarrow>
          (case checked_add_u64 pn 1 of
             None \<Rightarrow> (s, Err QsPacketNumberOverflow)
           | Some next_pn \<Rightarrow>
               let s = s\<lparr>qs_next_pn := next_pn\<rparr> in
               case protect_into cr (qs_keys s) (cid_as_slice (qs_dcid s)) pn
                      (qs_tx_key_phase s) payload of
                 Inl e \<Rightarrow> (s, Err (QsCrypto e))
               | Inr send_buf \<Rightarrow> (s, Ok send_buf)))"

definition session_send ::
    "qsp_crypto \<Rightarrow> ('io \<Rightarrow> bytes \<Rightarrow> 'io \<times> (unit, 'e) result) \<Rightarrow> 'io quic_qsp_session \<Rightarrow> bytes \<Rightarrow>
     'io quic_qsp_session \<times> (unit, 'e qsp_session_error) result" where
  "session_send cr io_send s payload =
     (case session_seal cr s payload of
        (s, Inl e) \<Rightarrow> (s, Err e)
      | (s, Inr send_buf) \<Rightarrow>
          (case io_send (qs_io s) send_buf of
             (io, Inl e) \<Rightarrow> (s\<lparr>qs_io := io\<rparr>, Err (QsIo e))
           | (io, Inr _) \<Rightarrow> (s\<lparr>qs_io := io\<rparr>, Ok ())))"

definition maybe_confirm_previous_rx_keys :: "'io quic_qsp_session \<Rightarrow> u64 \<Rightarrow> 'io quic_qsp_session" where
  "maybe_confirm_previous_rx_keys s expected_pn =
     (case qs_previous_rx s of
        None \<Rightarrow> s
      | Some prev \<Rightarrow> if expected_pn > prx_valid_until_pn prev then s\<lparr>qs_previous_rx := None\<rparr> else s)"

definition can_try_previous :: "'io quic_qsp_session \<Rightarrow> u64 \<Rightarrow> bool" where
  "can_try_previous s expected_pn =
     (case qs_previous_rx s of
        None \<Rightarrow> False
      | Some prev \<Rightarrow> expected_pn \<le> prx_valid_until_pn prev)"

definition should_try_candidate :: "'io quic_qsp_session \<Rightarrow> u64 \<Rightarrow> bool" where
  "should_try_candidate s expected_pn =
     (if qs_previous_rx s \<noteq> None then False
      else case qs_rx_next_rekey_pn s of
          None \<Rightarrow> False
        | Some threshold \<Rightarrow>
            pn_distance expected_pn threshold \<le> rp_late_margin (qs_rekey_policy s))"

definition derive_candidate_rx_keys ::
    "qsp_crypto \<Rightarrow> 'io quic_qsp_session \<Rightarrow>
     (udp_qsp_keys option, 'e qsp_session_error) result" where
  "derive_candidate_rx_keys cr s =
     (if qs_rx_next_rekey_pn s = None then Ok None
      else map_result Some (map_err QsCrypto (with_next_rx_keys cr (qs_keys s))))"

definition promote_candidate_rx_keys ::
    "qsp_crypto \<Rightarrow> 'io quic_qsp_session \<Rightarrow> udp_qsp_keys \<Rightarrow>
     ('io quic_qsp_session, 'e qsp_session_error) result" where
  "promote_candidate_rx_keys cr s candidate =
     (let threshold =
            (case qs_rx_next_rekey_pn s of
               Some t \<Rightarrow> t
             | None \<Rightarrow> replay_expected_pn (qs_replay_window s));
          valid_until = saturating_add_u64 threshold (word_of_nat PN_REPLAY_WINDOW)
      in case udp_qsp_keys_try_clone cr (qs_keys s) of
           Inl e \<Rightarrow> Err (QsCrypto e)
         | Inr cloned \<Rightarrow>
             Ok (s\<lparr>qs_previous_rx := Some \<lparr>prx_keys = cloned, prx_valid_until_pn = valid_until\<rparr>,
                   qs_keys := candidate, qs_rx_key_phase := \<not> qs_rx_key_phase s,
                   qs_rx_next_rekey_pn :=
                     next_rekey_after threshold (rp_interval (qs_rekey_policy s))\<rparr>))"

definition accept_opened ::
    "'io quic_qsp_session \<Rightarrow> opened_packet \<Rightarrow>
     'io quic_qsp_session \<times> (opened_packet, 'e qsp_session_error) result" where
  "accept_opened s opened =
     (case check_and_update (qs_replay_window s) (op_pn opened) of
        Inr w \<Rightarrow> (s\<lparr>qs_replay_window := w\<rparr>, Ok opened)
      | Inl Replay \<Rightarrow> (s, Err QsReplay)
      | Inl TooOld \<Rightarrow> (s, Err QsTooOld))"

text \<open>The attempt with the candidate keys, the last of \<open>open_packet\<close>.\<close>

definition open_with_candidate ::
    "qsp_crypto \<Rightarrow> 'io quic_qsp_session \<Rightarrow> bytes \<Rightarrow> u64 \<Rightarrow>
     'io quic_qsp_session \<times> (opened_packet, 'e qsp_session_error) result" where
  "open_with_candidate cr s packet expected_pn =
     (if should_try_candidate s expected_pn then
        case derive_candidate_rx_keys cr s of
          Inl e \<Rightarrow> (s, Err e)
        | Inr None \<Rightarrow> (s, Err (QsCrypto CryptoFail))
        | Inr (Some candidate) \<Rightarrow>
            (case open_into cr candidate (cid_len (qs_scid s)) packet expected_pn of
               Inl _ \<Rightarrow> (s, Err (QsCrypto CryptoFail))
             | Inr opened \<Rightarrow>
                 if op_key_phase opened \<noteq> qs_rx_key_phase s then
                   (case promote_candidate_rx_keys cr s candidate of
                      Inl e \<Rightarrow> (s, Err e)
                    | Inr s \<Rightarrow> accept_opened s opened)
                 else (s, Err (QsCrypto CryptoFail)))
      else (s, Err (QsCrypto CryptoFail)))"

text \<open>The attempt with the previous keys, if they are still retained.\<close>

definition open_with_previous ::
    "qsp_crypto \<Rightarrow> 'io quic_qsp_session \<Rightarrow> bytes \<Rightarrow> u64 \<Rightarrow> opened_packet option" where
  "open_with_previous cr s packet expected_pn =
     (if can_try_previous s expected_pn then
        case qs_previous_rx s of
          None \<Rightarrow> None
        | Some previous \<Rightarrow>
            (case open_into cr (prx_keys previous) (cid_len (qs_scid s)) packet expected_pn of
               Inl _ \<Rightarrow> None
             | Inr opened \<Rightarrow> if op_key_phase opened \<noteq> qs_rx_key_phase s then Some opened else None)
      else None)"

definition open_packet ::
    "qsp_crypto \<Rightarrow> 'io quic_qsp_session \<Rightarrow> bytes \<Rightarrow>
     'io quic_qsp_session \<times> (opened_packet, 'e qsp_session_error) result" where
  "open_packet cr s packet =
     (let expected_pn = replay_expected_pn (qs_replay_window s);
          s = maybe_confirm_previous_rx_keys s expected_pn;
          current =
            (case open_into cr (qs_keys s) (cid_len (qs_scid s)) packet expected_pn of
               Inl _ \<Rightarrow> None
             | Inr opened \<Rightarrow> if op_key_phase opened = qs_rx_key_phase s then Some opened else None)
      in case current of
           Some opened \<Rightarrow> accept_opened s opened
         | None \<Rightarrow>
             (case open_with_previous cr s packet expected_pn of
                Some opened \<Rightarrow> accept_opened s opened
              | None \<Rightarrow> open_with_candidate cr s packet expected_pn))"

definition session_replace_io :: "'io quic_qsp_session \<Rightarrow> 'io \<Rightarrow> 'io quic_qsp_session \<times> 'io" where
  "session_replace_io s new_io = (s\<lparr>qs_io := new_io\<rparr>, qs_io s)"

text \<open>The key and packet number a send hands to the AEAD, when it gets that far, and those of a
  sequence of sends.\<close>

definition seal_use :: "qsp_crypto \<Rightarrow> 'io quic_qsp_session \<Rightarrow> (packet_key \<times> u64) option" where
  "seal_use cr s =
     (case maybe_rotate_tx_keys cr s (qs_next_pn s) :: _ \<times> (unit, unit qsp_session_error) result of
        (_, Inl _) \<Rightarrow> None
      | (s', Inr _) \<Rightarrow>
          (case checked_add_u64 (qs_next_pn s) 1 of
             None \<Rightarrow> None
           | Some _ \<Rightarrow> Some (dk_aead (ks_tx (qs_keys s')), qs_next_pn s)))"

fun seal_uses :: "qsp_crypto \<Rightarrow> 'io quic_qsp_session \<Rightarrow> bytes list \<Rightarrow> (packet_key \<times> u64) list" where
  "seal_uses cr s [] = []"
| "seal_uses cr s (p # ps) =
     (case seal_use cr s of None \<Rightarrow> [] | Some u \<Rightarrow> [u]) @
     seal_uses cr (fst (session_seal cr s p :: _ \<times> (bytes, unit qsp_session_error) result)) ps"

text \<open>One receive, as a step that reports the accepted packet number.\<close>

definition session_step ::
    "qsp_crypto \<Rightarrow> 'io quic_qsp_session \<Rightarrow> bytes \<Rightarrow> 'io quic_qsp_session \<times> nat option" where
  "session_step cr s packet =
     (case open_packet cr s packet :: _ \<times> (opened_packet, unit qsp_session_error) result of
        (s', Inl _) \<Rightarrow> (s', None)
      | (s', Inr opened) \<Rightarrow> (s', Some (unat (op_pn opened))))"

fun session_accepted :: "qsp_crypto \<Rightarrow> 'io quic_qsp_session \<Rightarrow> bytes list \<Rightarrow> nat list" where
  "session_accepted cr s [] = []"
| "session_accepted cr s (packet # packets) =
     (case session_step cr s packet of
        (s', None) \<Rightarrow> session_accepted cr s' packets
      | (s', Some n) \<Rightarrow> n # session_accepted cr s' packets)"

definition session_covers :: "'io quic_qsp_session \<Rightarrow> nat set \<Rightarrow> bool" where
  "session_covers s seen = replay_rel (qs_replay_window s) seen"

definition tx_iv_ok :: "udp_qsp_keys \<Rightarrow> bool" where
  "tx_iv_ok ks \<longleftrightarrow> length (pk_iv (dk_aead (ks_tx ks))) = AEAD_IV_LEN"

section \<open>Sending\<close>

lemma packet_key_new_iv: "packet_key_new cr key iv kind = Ok k \<Longrightarrow> length (pk_iv k) = AEAD_IV_LEN"
  by (auto simp: packet_key_new_def split: if_splits)

lemma with_next_tx_keys_iv: "with_next_tx_keys cr ks = Ok ks' \<Longrightarrow> tx_iv_ok ks'"
  by (auto simp: with_next_tx_keys_def direction_keys_next_generation_def tx_iv_ok_def Let_def
      dest: packet_key_new_iv)

text \<open>An invariant of one rotation is an invariant of the loop.\<close>

lemma maybe_rotate_invariant:
  fixes r :: "(unit, 'e qsp_session_error) result" and s :: "'io quic_qsp_session"
  assumes "maybe_rotate_tx_keys cr s pn = (s', r)" and "P s"
    and "\<And>s t keys. P s \<Longrightarrow> qs_tx_next_rekey_pn s = Some t \<Longrightarrow> \<not> pn < t \<Longrightarrow>
           with_next_tx_keys cr (qs_keys s) = Ok keys \<Longrightarrow>
           P (s\<lparr>qs_keys := keys, qs_tx_key_phase := \<not> qs_tx_key_phase s,
                qs_tx_next_rekey_pn := next_rekey_after t (rp_interval (qs_rekey_policy s))\<rparr>)"
  shows "P s'"
  using assms
proof (induction "2 ^ 64 - (case qs_tx_next_rekey_pn s of None \<Rightarrow> 2 ^ 64 | Some t \<Rightarrow> unat t)"
    arbitrary: s rule: less_induct)
  case (less s)
  show ?case
  proof (cases "\<exists>t keys. qs_tx_next_rekey_pn s = Some t \<and> \<not> pn < t \<and>
      with_next_tx_keys cr (qs_keys s) = Ok keys")
    case False
    then have "s' = s" using less.prems(1)
      by (subst (asm) maybe_rotate_tx_keys.simps) (auto split: option.splits if_splits sum.splits)
    then show ?thesis using less.prems(2) by simp
  next
    case True
    then obtain t keys where t: "qs_tx_next_rekey_pn s = Some t" "\<not> pn < t"
        "with_next_tx_keys cr (qs_keys s) = Ok keys" by blast
    let ?s = "s\<lparr>qs_keys := keys, qs_tx_key_phase := \<not> qs_tx_key_phase s,
          qs_tx_next_rekey_pn := next_rekey_after t (rp_interval (qs_rekey_policy s))\<rparr>"
    have "maybe_rotate_tx_keys cr ?s pn = (s', r)"
      using t less.prems(1) by (subst (asm) maybe_rotate_tx_keys.simps) simp
    moreover have "2 ^ 64 - (case qs_tx_next_rekey_pn ?s of None \<Rightarrow> 2 ^ 64 | Some t \<Rightarrow> unat t) <
        2 ^ 64 - (case qs_tx_next_rekey_pn s of None \<Rightarrow> 2 ^ 64 | Some t \<Rightarrow> unat t)"
      using t by (auto split: option.splits intro!: diff_less_mono2 dest: next_rekey_after_greater)
    ultimately show ?thesis
      using less.hyps [of ?s] less.prems(2,3) t by blast
  qed
qed

text \<open>Rotation touches only the keys, the transmit phase and the transmit threshold.\<close>

lemma maybe_rotate_frame:
  fixes r :: "(unit, 'e qsp_session_error) result"
  assumes "maybe_rotate_tx_keys cr s pn = (s', r)"
  shows "qs_next_pn s' = qs_next_pn s" "qs_dcid s' = qs_dcid s" "qs_scid s' = qs_scid s"
    "qs_io s' = qs_io s" "qs_rekey_policy s' = qs_rekey_policy s"
    "qs_rx_key_phase s' = qs_rx_key_phase s" "qs_rx_next_rekey_pn s' = qs_rx_next_rekey_pn s"
    "qs_previous_rx s' = qs_previous_rx s" "qs_replay_window s' = qs_replay_window s"
  by (rule maybe_rotate_invariant [OF assms]; simp)+

lemma maybe_rotate_iv:
  fixes r :: "(unit, 'e qsp_session_error) result"
  assumes "maybe_rotate_tx_keys cr s pn = (s', r)" "tx_iv_ok (qs_keys s)"
  shows "tx_iv_ok (qs_keys s')"
  by (rule maybe_rotate_invariant [OF assms(1)]) (use assms(2) with_next_tx_keys_iv in auto)

lemma seal_use_Some:
  assumes "seal_use cr s = Some (k, pn)" "tx_iv_ok (qs_keys s)"
  shows "pn = qs_next_pn s" "length (pk_iv k) = AEAD_IV_LEN" "unat pn + 1 < 2 ^ 64"
  using assms maybe_rotate_iv [where s = s and cr = cr and ?'e = unit]
  by (auto simp: seal_use_def tx_iv_ok_def checked_add_u64_def
      split: prod.splits sum.splits option.splits if_splits)

text \<open>A send consumes the packet number whenever it reaches the AEAD, and never goes back.\<close>

lemma session_seal_next:
  fixes r :: "(bytes, unit qsp_session_error) result"
  assumes "session_seal cr s p = (s', r)"
  shows "unat (qs_next_pn s') = unat (qs_next_pn s) + (if seal_use cr s = None then 0 else 1)"
    and "tx_iv_ok (qs_keys s) \<Longrightarrow> tx_iv_ok (qs_keys s')"
proof -
  obtain u q where rot: "maybe_rotate_tx_keys cr s (qs_next_pn s) =
      (u, q :: (unit, unit qsp_session_error) result)" by fastforce
  note fr = maybe_rotate_frame [OF rot] and iv = maybe_rotate_iv [OF rot]
  show "unat (qs_next_pn s') = unat (qs_next_pn s) + (if seal_use cr s = None then 0 else 1)"
    using assms rot fr
    by (auto simp: session_seal_def seal_use_def Let_def
        split: sum.splits option.splits dest: checked_add_u64_unat)
  show "tx_iv_ok (qs_keys s')" if "tx_iv_ok (qs_keys s)"
    using assms rot iv [OF that]
    by (auto simp: session_seal_def Let_def split: sum.splits option.splits)
qed

lemma seal_uses_increasing:
  fixes s :: "'io quic_qsp_session"
  assumes "tx_iv_ok (qs_keys s)"
  shows "sorted_wrt (<) (map (\<lambda>u. unat (snd u)) (seal_uses cr s ps)) \<and>
         (\<forall>(k, pn) \<in> set (seal_uses cr s ps).
            unat (qs_next_pn s) \<le> unat pn \<and> length (pk_iv k) = AEAD_IV_LEN)"
  using assms
proof (induction ps arbitrary: s)
  case Nil
  then show ?case by simp
next
  case (Cons p ps)
  obtain s' r where seal: "session_seal cr s p = (s', r :: (bytes, unit qsp_session_error) result)"
    by fastforce
  note next_pn = session_seal_next [OF seal]
  from Cons.IH [OF next_pn(2) [OF Cons.prems]]
  have IH: "sorted_wrt (<) (map (\<lambda>u. unat (snd u)) (seal_uses cr s' ps))"
    "\<And>k pn. (k, pn) \<in> set (seal_uses cr s' ps) \<Longrightarrow>
       unat (qs_next_pn s') \<le> unat pn \<and> length (pk_iv k) = AEAD_IV_LEN" by auto
  show ?case
  proof (cases "seal_use cr s")
    case None
    then show ?thesis using IH next_pn(1) seal by auto
  next
    case (Some u)
    obtain k pn where u: "u = (k, pn)" by fastforce
    from seal_use_Some [of cr s k pn] Some u Cons.prems
    have "pn = qs_next_pn s" "length (pk_iv k) = AEAD_IV_LEN" by auto
    then show ?thesis using IH next_pn(1) seal Some u by fastforce
  qed
qed

section \<open>Receiving\<close>

lemma accept_opened_guard:
  assumes "accept_opened s opened = (s', Inr o')"
  shows "o' = opened" "check_and_update (qs_replay_window s) (op_pn opened) = Ok (qs_replay_window s')"
  using assms by (auto simp: accept_opened_def split: sum.splits replay_error.splits)

lemma accept_opened_Err:
  "accept_opened s opened = (s', Inl e) \<Longrightarrow> s' = s"
  by (auto simp: accept_opened_def split: sum.splits replay_error.splits)

lemma maybe_confirm_window [simp]:
  "qs_replay_window (maybe_confirm_previous_rx_keys s e) = qs_replay_window s"
  by (simp add: maybe_confirm_previous_rx_keys_def split: option.splits)

lemma promote_window:
  "promote_candidate_rx_keys cr s c = Inr s' \<Longrightarrow> qs_replay_window s' = qs_replay_window s"
  by (auto simp: promote_candidate_rx_keys_def Let_def split: sum.splits)

text \<open>A packet is accepted only through the replay window; a rejected one leaves it alone.\<close>

lemma open_packet_window:
  fixes r :: "(opened_packet, 'e qsp_session_error) result"
  assumes "open_packet cr s packet = (s', r)"
  shows "case r of
           Inl _ \<Rightarrow> qs_replay_window s' = qs_replay_window s
         | Inr opened \<Rightarrow>
             check_and_update (qs_replay_window s) (op_pn opened) = Ok (qs_replay_window s')"
proof -
  define e t where "e = replay_expected_pn (qs_replay_window s)"
    and "t = maybe_confirm_previous_rx_keys s e"
  have win: "qs_replay_window t = qs_replay_window s" by (simp add: t_def)
  have acc: ?thesis if "accept_opened u opened = (s', r)" "qs_replay_window u = qs_replay_window s"
    for u opened
    using that accept_opened_guard [of u opened s'] accept_opened_Err [of u opened s']
    by (cases r) auto
  have cand: ?thesis if "open_with_candidate cr t packet e = (s', r)"
    using that acc win
    by (auto simp: open_with_candidate_def split: if_splits sum.splits option.splits
        dest: promote_window)
  show ?thesis
    using assms acc [of t] win cand
    by (auto simp: open_packet_def Let_def e_def [symmetric] t_def [symmetric]
        split: option.splits)
qed

interpretation session_guard:
  replay_guard "session_step cr :: 'io quic_qsp_session \<Rightarrow> _" session_covers for cr
proof
  fix s s' :: "'io quic_qsp_session" and seen packet
  assume rel: "session_covers s seen"
  show "session_covers s' seen" if step: "session_step cr s packet = (s', None)"
    using step rel open_packet_window [of cr s packet, where ?'e = unit]
    by (auto simp: session_step_def session_covers_def split: prod.splits sum.splits)
  fix n assume step: "session_step cr s packet = (s', Some n)"
  then have "replay_step (qs_replay_window s) (word_of_nat n) = (qs_replay_window s', Some n)"
    using open_packet_window [of cr s packet, where ?'e = unit]
    by (auto simp: session_step_def replay_step_def split: prod.splits sum.splits)
  then show "n \<notin> seen" "session_covers s' (insert n seen)"
    using window_guard.accept_fresh window_guard.accept_covers rel
    unfolding session_covers_def by blast+
qed

section \<open>Properties\<close>

lemma session_accepted_guard: "session_accepted cr s packets = session_guard.accepted cr s packets"
  by (induction packets arbitrary: s) (auto split: prod.splits option.splits)

text \<open>C3: Whatever packets an adversary feeds to a session, in any order and any number of
  times, the session never accepts two of them under the same packet number.\<close>

theorem session_accepts_once:
  "distinct (session_accepted cr
     (quic_qsp_session_new io scid dcid keys send_pn recv_expected_pn key_phase) packets)"
proof -
  have "session_covers (quic_qsp_session_new io scid dcid keys send_pn recv_expected_pn key_phase) {}"
    using replay_rel_new by (simp add: session_covers_def quic_qsp_session_new_def)
  from session_guard.accepted_distinct [OF this] show ?thesis
    by (simp add: session_accepted_guard)
qed

text \<open>C4: In any sequence of sends, including failed ones and across key updates, the packet
  numbers handed to the AEAD strictly increase, so no packet key is ever used with the same
  nonce twice.\<close>

theorem tx_nonces_unique:
  assumes "tx_iv_ok (qs_keys s)"
  shows "distinct (map (\<lambda>(k, pn). (k, make_nonce (pk_iv k) pn)) (seal_uses cr s payloads))"
proof -
  let ?us = "seal_uses cr s payloads"
  have inc: "sorted_wrt (<) (map (\<lambda>u. unat (snd u)) ?us)"
    and iv: "\<And>k pn. (k, pn) \<in> set ?us \<Longrightarrow> length (pk_iv k) = AEAD_IV_LEN"
    using seal_uses_increasing [OF assms, of cr payloads] by auto
  have "distinct ?us"
    using strict_sorted_iff inc distinct_map by blast
  moreover have "inj_on (\<lambda>(k, pn). (k, make_nonce (pk_iv k) pn)) (set ?us)"
    using iv make_nonce_inject by (fastforce simp: inj_on_def)
  ultimately show ?thesis by (simp add: distinct_map)
qed

theorem tx_nonces_unique_witness:
  "distinct (map (\<lambda>(k, pn). (k, make_nonce (pk_iv k) pn))
     (seal_uses plain_crypto
        (quic_qsp_session_new () \<lparr>cid_len_byte = 2, cid_bytes = [1, 2]\<rparr>
           \<lparr>cid_len_byte = 2, cid_bytes = [3, 4]\<rparr> sample_keys 2097151 0 True)
        [[7], [8], [9]]))"
  by (rule tx_nonces_unique)
    (simp add: tx_iv_ok_def quic_qsp_session_new_def sample_keys_def sample_direction_def
      AEAD_IV_LEN_def)

end
