(* ===== verification/Key_Update.thy ===== *)
theory Key_Update
  imports Qsp_Session
begin

text \<open>
  Key updates of UDP-QSP sessions across two endpoints
  (\<open>slt-core/src/crypto/udp_qsp/session.rs\<close>).  The generation of a packet is determined by its
  number: the update interval divides the packet-number space into epochs, and both sides
  move to the next generation at the same multiples of the interval.

  \<open>tx_at\<close> and \<open>rx_at\<close> describe a sender and a receiver that have reached a generation.  A
  sender always seals packet \<open>pn\<close> with the generation of its epoch; a receiver that holds, or
  may derive, that generation opens it and leaves the decision to the replay window.  A link
  that loses packets but keeps their order delivers every packet that arrives, through any
  number of key updates.
\<close>

fun direction_generation ::
    "qsp_crypto \<Rightarrow> cipher_suite \<Rightarrow> direction_keys \<Rightarrow> nat \<Rightarrow> (direction_keys, qsp_crypto_error) result" where
  "direction_generation cr c d 0 = Ok d"
| "direction_generation cr c d (Suc n) =
     bind_result (direction_generation cr c d n)
       (\<lambda>d. direction_keys_next_generation cr d (cipher_config_for_suite c))"

definition rekey_threshold :: "nat \<Rightarrow> nat \<Rightarrow> u64 option" where
  "rekey_threshold k interval =
     (if k * interval < 2 ^ 64 then Some (word_of_nat (k * interval)) else None)"

text \<open>The generation of packet \<open>pn\<close> for a side that starts in epoch \<open>b\<close>.\<close>

definition pn_generation :: "nat \<Rightarrow> nat \<Rightarrow> u64 \<Rightarrow> nat" where
  "pn_generation b interval pn = unat pn div interval - b"

definition phase_of :: "bool \<Rightarrow> nat \<Rightarrow> bool" where
  "phase_of ph0 g = (ph0 \<noteq> odd g)"

definition policy_interval :: "'io quic_qsp_session \<Rightarrow> nat" where
  "policy_interval s = unat (rp_interval (qs_rekey_policy s))"

definition tx_at ::
    "qsp_crypto \<Rightarrow> cipher_suite \<Rightarrow> direction_keys \<Rightarrow> bool \<Rightarrow> nat \<Rightarrow> nat \<Rightarrow> 'io quic_qsp_session \<Rightarrow> bool" where
  "tx_at cr c d0 ph0 b g s \<longleftrightarrow>
     ks_cipher (qs_keys s) = c \<and> udp_qsp_keys_wf (qs_keys s) \<and> 0 < policy_interval s \<and>
     direction_generation cr c d0 g = Ok (ks_tx (qs_keys s)) \<and>
     qs_tx_key_phase s = phase_of ph0 g \<and>
     qs_tx_next_rekey_pn s = rekey_threshold (b + g + 1) (policy_interval s)"

text \<open>A packet sealed by the peer: the keys and the phase bit of its generation.\<close>

definition genuine_packet ::
    "qsp_crypto \<Rightarrow> cipher_suite \<Rightarrow> direction_keys \<Rightarrow> bool \<Rightarrow> nat \<Rightarrow> bytes \<Rightarrow> u64 \<Rightarrow> bytes \<Rightarrow> bytes \<Rightarrow> bool" where
  "genuine_packet cr c d0 ph0 g dcid pn payload packet \<longleftrightarrow>
     (\<exists>ks. direction_generation cr c d0 g = Ok (ks_tx ks) \<and>
           protect_into cr ks dcid pn (phase_of ph0 g) payload = Ok packet)"

definition rx_previous_ok ::
    "qsp_crypto \<Rightarrow> cipher_suite \<Rightarrow> direction_keys \<Rightarrow> nat \<Rightarrow> nat \<Rightarrow> 'io quic_qsp_session \<Rightarrow> bool" where
  "rx_previous_ok cr c d0 b g s \<longleftrightarrow>
     (case qs_previous_rx s of
        None \<Rightarrow> True
      | Some p \<Rightarrow>
          0 < g \<and> direction_generation cr c d0 (g - 1) = Ok (ks_rx (prx_keys p)) \<and>
          unat (prx_valid_until_pn p) =
            min ((b + g) * policy_interval s + PN_REPLAY_WINDOW) (2 ^ 64 - 1))"

definition rx_at ::
    "qsp_crypto \<Rightarrow> cipher_suite \<Rightarrow> direction_keys \<Rightarrow> bool \<Rightarrow> nat \<Rightarrow> nat \<Rightarrow> nat set \<Rightarrow>
     'io quic_qsp_session \<Rightarrow> bool" where
  "rx_at cr c d0 ph0 b g seen s \<longleftrightarrow>
     ks_cipher (qs_keys s) = c \<and> udp_qsp_keys_wf (qs_keys s) \<and> 0 < policy_interval s \<and>
     direction_generation cr c d0 g = Ok (ks_rx (qs_keys s)) \<and>
     qs_rx_key_phase s = phase_of ph0 g \<and>
     qs_rx_next_rekey_pn s = rekey_threshold (b + g + 1) (policy_interval s) \<and>
     rx_previous_ok cr c d0 b g s \<and>
     replay_rel (qs_replay_window s) seen"

text \<open>The receiver has, or will derive, the keys of generation \<open>h\<close> when it expects \<open>e\<close>.\<close>

definition rx_has_keys :: "nat \<Rightarrow> nat \<Rightarrow> nat \<Rightarrow> 'io quic_qsp_session \<Rightarrow> bool" where
  "rx_has_keys b g h s \<longleftrightarrow>
     (let e = replay_expected_pn (qs_replay_window s);
          t = maybe_confirm_previous_rx_keys s e
      in h = g \<or>
         (h + 1 = g \<and> can_try_previous t e) \<or>
         (h = g + 1 \<and> should_try_candidate t e))"

definition opened_as :: "bool \<Rightarrow> nat \<Rightarrow> nat \<Rightarrow> u64 \<Rightarrow> bytes \<Rightarrow> opened_packet" where
  "opened_as ph0 h dcid_len pn payload =
     \<lparr>op_pn = pn, op_pn_len = packet_number_len pn, op_key_phase = phase_of ph0 h,
      op_payload = padded_plaintext dcid_len pn payload\<rparr>"

text \<open>A link from one session to another that may lose packets but keeps their order: each
  payload is sealed, and opened by the peer if it arrives.\<close>

fun run_link ::
    "qsp_crypto \<Rightarrow> 'i quic_qsp_session \<Rightarrow> 'j quic_qsp_session \<Rightarrow> (bytes \<times> bool) list \<Rightarrow>
     (opened_packet, unit qsp_session_error) result list" where
  "run_link cr a b [] = []"
| "run_link cr a b ((p, arrives) # ps) =
     (case session_seal cr a p of
        (a', Inl e) \<Rightarrow> Err e # run_link cr a' b ps
      | (a', Inr packet) \<Rightarrow>
          if arrives
          then (case open_packet cr b packet of (b', r) \<Rightarrow> r # run_link cr a' b' ps)
          else run_link cr a' b ps)"

fun link_deliveries ::
    "bool \<Rightarrow> nat \<Rightarrow> nat \<Rightarrow> nat \<Rightarrow> u64 \<Rightarrow> (bytes \<times> bool) list \<Rightarrow>
     (opened_packet, unit qsp_session_error) result list" where
  "link_deliveries ph0 b interval dcid_len pn [] = []"
| "link_deliveries ph0 b interval dcid_len pn ((p, arrives) # ps) =
     (if arrives then [Ok (opened_as ph0 (pn_generation b interval pn) dcid_len pn p)] else []) @
     link_deliveries ph0 b interval dcid_len (pn + 1) ps"

text \<open>Fewer than 128 packets in a row are lost; \<open>n\<close> counts the current run.\<close>

fun losses_ok :: "nat \<Rightarrow> (bytes \<times> bool) list \<Rightarrow> bool" where
  "losses_ok n [] = True"
| "losses_ok n ((p, arrives) # ps) =
     (if arrives then losses_ok 0 ps else n < 127 \<and> losses_ok (Suc n) ps)"

definition link_rx ::
    "qsp_crypto \<Rightarrow> cipher_suite \<Rightarrow> direction_keys \<Rightarrow> bool \<Rightarrow> nat \<Rightarrow> nat \<Rightarrow> 'io quic_qsp_session \<Rightarrow> bool" where
  "link_rx cr c d0 ph0 b e s \<longleftrightarrow>
     (\<exists>g seen. rx_at cr c d0 ph0 b g seen s \<and> (\<forall>q \<in> seen. q < e) \<and>
        unat (replay_expected_pn (qs_replay_window s)) = e \<and>
        unat (rw_initial_expected (qs_replay_window s)) \<le> e \<and>
        (b + g) * policy_interval s \<le> e \<and> e \<le> (b + g + 1) * policy_interval s) \<and>
     2048 \<le> policy_interval s \<and> 128 \<le> unat (rp_late_margin (qs_rekey_policy s))"

text \<open>A receiver and a packet of its peer, for the witnesses.\<close>

definition sample_receiver :: "unit quic_qsp_session" where
  "sample_receiver =
     quic_qsp_session_new () \<lparr>cid_len_byte = 2, cid_bytes = [3, 4]\<rparr>
       \<lparr>cid_len_byte = 2, cid_bytes = [1, 2]\<rparr> sample_keys 0 300 True"

definition sample_packet :: bytes where
  "sample_packet =
     (case protect_into plain_crypto sample_keys [3, 4] 305 True [7] of Inl _ \<Rightarrow> [] | Inr p \<Rightarrow> p)"

section \<open>Thresholds\<close>

lemma next_rekey_after_threshold:
  assumes "interval \<noteq> 0"
  shows "next_rekey_after pn interval = rekey_threshold (unat pn div unat interval + 1) (unat interval)"
proof -
  define step where "step = (if pn mod interval = 0 then interval else interval - pn mod interval)"
  have pos: "0 < unat interval" using assms by (simp add: unat_gt_0)
  have lt: "unat (pn mod interval) < unat interval" using pos by (simp add: unat_mod)
  then have "unat step = unat interval - unat pn mod unat interval"
    by (auto simp: step_def unat_sub_u64 word_le_nat_alt unat_mod simp flip: unat_mod)
  then have add: "unat pn + unat step = (unat pn div unat interval + 1) * unat interval"
    using lt [unfolded unat_mod] div_mult_mod_eq [of "unat pn" "unat interval"]
    unfolding add_mult_distrib by linarith
  have "pn + step = word_of_nat (unat pn + unat step)" by simp
  then show ?thesis
    using assms add
    by (simp add: next_rekey_after_def checked_add_u64_def rekey_threshold_def Let_def
        flip: step_def)
qed

lemma unat_rekey_threshold:
  "rekey_threshold k i = Some t \<Longrightarrow> unat t = k * i"
  by (auto simp: rekey_threshold_def unat_of_nat simp del: of_nat_mult split: if_splits)

lemma rekey_threshold_le:
  "k * i \<le> unat (pn :: u64) \<Longrightarrow> rekey_threshold k i = Some (word_of_nat (k * i))"
  using unat_u64_less [of pn] by (auto simp: rekey_threshold_def simp del: unat_u64_less)

lemma next_rekey_after_step:
  assumes "rekey_threshold k i = Some t" "i = unat interval" "0 < i"
  shows "next_rekey_after t interval = rekey_threshold (k + 1) i"
proof -
  have "interval \<noteq> 0" using assms by auto
  then show ?thesis
    using next_rekey_after_threshold unat_rekey_threshold [OF assms(1)] assms(2,3) by simp
qed

section \<open>Generations\<close>

lemma generation_wf:
  assumes "crypto_ok cr" "direction_keys_wf (cipher_config_for_suite c) d"
  obtains d' where "direction_generation cr c d n = Ok d'"
    "direction_keys_wf (cipher_config_for_suite c) d'" "dk_hp d' = dk_hp d"
proof -
  have "\<exists>d'. direction_generation cr c d n = Ok d' \<and>
      direction_keys_wf (cipher_config_for_suite c) d' \<and> dk_hp d' = dk_hp d"
  proof (induction n)
    case 0
    then show ?case using assms by simp
  next
    case (Suc n)
    then obtain e where e: "direction_generation cr c d n = Ok e"
        "direction_keys_wf (cipher_config_for_suite c) e" "dk_hp e = dk_hp d" by blast
    with direction_keys_next_generation_Ok [OF assms(1) e(2) cc_iv_len_for_suite]
    show ?case by (metis bind_result.simps(2) direction_generation.simps(2))
  qed
  then show thesis using that by blast
qed

section \<open>The sender\<close>

lemma rotate_reaches_generation:
  fixes s :: "'io quic_qsp_session"
  assumes "crypto_ok cr" "tx_at cr c d0 ph0 b g s" "g \<le> pn_generation b (policy_interval s) pn"
  obtains s' where "maybe_rotate_tx_keys cr s pn = (s', Ok () :: (unit, 'e qsp_session_error) result)"
    "tx_at cr c d0 ph0 b (pn_generation b (policy_interval s) pn) s'"
proof -
  have "\<exists>s'. maybe_rotate_tx_keys cr s pn = (s', Ok () :: (unit, 'e qsp_session_error) result) \<and>
             tx_at cr c d0 ph0 b (pn_generation b (policy_interval s) pn) s'"
    using assms(2,3)
  proof (induction "pn_generation b (policy_interval s) pn - g" arbitrary: s g)
    case 0
    let ?i = "policy_interval s"
    have "pn < t" if "qs_tx_next_rekey_pn s = Some t" for t
    proof -
      have "unat t = (b + g + 1) * ?i"
        using that "0.prems"(1) unat_rekey_threshold by (simp add: tx_at_def)
      moreover have "unat pn div ?i < b + g + 1" using 0 by (simp add: pn_generation_def)
      ultimately show ?thesis
        using "0.prems"(1) by (simp add: tx_at_def word_less_nat_alt less_mult_imp_div_less
            div_less_iff_less_mult)
    qed
    then have "maybe_rotate_tx_keys cr s pn = (s, Ok ())"
      by (subst maybe_rotate_tx_keys.simps) (auto split: option.splits)
    moreover have "g = pn_generation b ?i pn" using 0 by simp
    ultimately show ?case using "0.prems"(1) by auto
  next
    case (Suc n)
    let ?i = "policy_interval s"
    have tx: "ks_cipher (qs_keys s) = c" "udp_qsp_keys_wf (qs_keys s)" "0 < ?i"
        "direction_generation cr c d0 g = Ok (ks_tx (qs_keys s))"
        "qs_tx_key_phase s = phase_of ph0 g" "qs_tx_next_rekey_pn s = rekey_threshold (b + g + 1) ?i"
      using Suc.prems(1) by (simp_all add: tx_at_def)
    have "b + g + 1 \<le> unat pn div ?i" using Suc.hyps(2) by (simp add: pn_generation_def)
    then have le: "(b + g + 1) * ?i \<le> unat pn"
      by (metis div_times_less_eq_dividend le_trans mult_le_mono1)
    define t where "t = (word_of_nat ((b + g + 1) * ?i) :: u64)"
    have t: "rekey_threshold (b + g + 1) ?i = Some t"
      using rekey_threshold_le [OF le] by (simp add: t_def)
    then have nlt: "\<not> pn < t"
      using le unat_rekey_threshold by (simp add: word_less_nat_alt)
    obtain ks where ks: "with_next_tx_keys cr (qs_keys s) = Ok ks" "udp_qsp_keys_wf ks"
        "ks_cipher ks = c"
        "direction_keys_next_generation cr (ks_tx (qs_keys s)) (cipher_config_for_suite c) = Ok (ks_tx ks)"
      using with_next_tx_keys_Ok [OF assms(1) tx(2)] tx(1) by metis
    let ?s = "s\<lparr>qs_keys := ks, qs_tx_key_phase := \<not> qs_tx_key_phase s,
          qs_tx_next_rekey_pn := next_rekey_after t (rp_interval (qs_rekey_policy s))\<rparr>"
    have pi: "policy_interval ?s = ?i" by (simp add: policy_interval_def)
    have "next_rekey_after t (rp_interval (qs_rekey_policy s)) = rekey_threshold (b + g + 1 + 1) ?i"
      using next_rekey_after_step [OF t _ tx(3)] by (simp add: policy_interval_def)
    then have "tx_at cr c d0 ph0 b (Suc g) ?s"
      using tx ks pi by (simp add: tx_at_def phase_of_def)
    moreover have "n = pn_generation b (policy_interval ?s) pn - Suc g"
        "Suc g \<le> pn_generation b (policy_interval ?s) pn"
      using Suc.hyps(2) pi by simp_all
    moreover have "maybe_rotate_tx_keys cr s pn =
        (maybe_rotate_tx_keys cr ?s pn :: _ \<times> (unit, 'e qsp_session_error) result)"
      using tx(6) t nlt ks(1) by (subst maybe_rotate_tx_keys.simps) simp
    ultimately show ?case using Suc.hyps(1) [of ?s "Suc g"] pi by metis
  qed
  then show thesis using that by blast
qed

lemma session_seal_genuine:
  fixes s :: "'io quic_qsp_session"
  assumes cr: "crypto_ok cr" and tx: "tx_at cr c d0 ph0 b g s"
    and g: "g \<le> pn_generation b (policy_interval s) (qs_next_pn s)"
    and room: "unat (qs_next_pn s) + 1 < 2 ^ 64"
  obtains s' packet where
    "session_seal cr s payload = (s', Ok packet :: (bytes, 'e qsp_session_error) result)"
    "tx_at cr c d0 ph0 b (pn_generation b (policy_interval s) (qs_next_pn s)) s'"
    "unat (qs_next_pn s') = unat (qs_next_pn s) + 1" "qs_dcid s' = qs_dcid s"
    "policy_interval s' = policy_interval s"
    "genuine_packet cr c d0 ph0 (pn_generation b (policy_interval s) (qs_next_pn s))
       (cid_as_slice (qs_dcid s)) (qs_next_pn s) payload packet"
proof -
  let ?g = "pn_generation b (policy_interval s) (qs_next_pn s)"
  obtain u where u: "maybe_rotate_tx_keys cr s (qs_next_pn s) =
        (u, Ok () :: (unit, 'e qsp_session_error) result)" "tx_at cr c d0 ph0 b ?g u"
    using rotate_reaches_generation [OF cr tx g] by blast
  note fr = maybe_rotate_frame [OF u(1)]
  have wf: "direction_keys_wf (cipher_config_for_suite (ks_cipher (qs_keys u))) (ks_tx (qs_keys u))"
    using u(2) by (auto simp: tx_at_def udp_qsp_keys_wf_def)
  obtain packet where p: "protect_into cr (qs_keys u) (cid_as_slice (qs_dcid s)) (qs_next_pn s)
      (phase_of ph0 ?g) payload = Ok packet"
    using protect_into_Ok [OF cr wf] by blast
  let ?s = "u\<lparr>qs_next_pn := qs_next_pn s + 1\<rparr>"
  have chk: "checked_add_u64 (qs_next_pn s) 1 = Some (qs_next_pn s + 1)"
    using room by (simp add: checked_add_u64_def)
  have ph: "qs_tx_key_phase u = phase_of ph0 ?g" using u(2) by (simp add: tx_at_def)
  have "session_seal cr s payload = (?s, Ok packet :: (bytes, 'e qsp_session_error) result)"
    using u(1) chk p fr ph by (simp add: session_seal_def Let_def)
  moreover have "tx_at cr c d0 ph0 b ?g ?s" using u(2) by (simp add: tx_at_def policy_interval_def)
  moreover have "unat (qs_next_pn ?s) = unat (qs_next_pn s) + 1"
    using room by (simp add: unat_add_u64)
  moreover have "qs_dcid ?s = qs_dcid s" "policy_interval ?s = policy_interval s"
    using fr by (simp_all add: policy_interval_def)
  moreover have "genuine_packet cr c d0 ph0 ?g (cid_as_slice (qs_dcid s)) (qs_next_pn s) payload packet"
    using p u(2) by (auto simp: genuine_packet_def tx_at_def)
  ultimately show thesis using that by blast
qed

section \<open>The receiver\<close>

text \<open>Header protection keys do not change with the generation, so any generation reads the
  phase bit and the number of a genuine packet; the right one also opens it.\<close>

lemma open_genuine:
  assumes cr: "crypto_ok cr" and wf0: "direction_keys_wf (cipher_config_for_suite c) d0"
    and gen: "genuine_packet cr c d0 ph0 h dcid pn payload packet"
    and near: "within_half_window pn e (packet_number_len pn)"
    and rx: "direction_generation cr c d0 g = Ok (ks_rx ks)"
  shows "open_into cr ks (length dcid) packet e = Ok opened \<Longrightarrow> op_key_phase opened = phase_of ph0 h"
    and "g = h \<Longrightarrow> open_into cr ks (length dcid) packet e = Ok (opened_as ph0 h (length dcid) pn payload)"
proof -
  obtain sk where sk: "direction_generation cr c d0 h = Ok (ks_tx sk)"
      "protect_into cr sk dcid pn (phase_of ph0 h) payload = Ok packet"
    using gen by (auto simp: genuine_packet_def)
  obtain d where d: "direction_generation cr c d0 h = Ok d"
      "direction_keys_wf (cipher_config_for_suite c) d" "dk_hp d = dk_hp d0"
    using generation_wf [OF cr wf0] by blast
  obtain d' where d': "direction_generation cr c d0 g = Ok d'" "dk_hp d' = dk_hp d0"
    using generation_wf [OF cr wf0] by blast
  have wf: "direction_keys_wf (cipher_config_for_suite c) (ks_tx sk)" using d sk(1) by simp
  have hp: "dk_hp (ks_rx ks) = dk_hp (ks_tx sk)" using d d' sk(1) rx by simp
  note opn = open_protected [OF cr wf near sk(2) hp]
  show "op_key_phase opened = phase_of ph0 h" if "open_into cr ks (length dcid) packet e = Ok opened"
    using that opn(1) by (auto simp: open_into_def)
  show "open_into cr ks (length dcid) packet e = Ok (opened_as ph0 h (length dcid) pn payload)"
    if "g = h"
  proof -
    have "dk_aead (ks_rx ks) = dk_aead (ks_tx sk)" using that sk(1) rx by simp
    from opn(2) [OF this] opn(1) show ?thesis by (simp add: open_into_def opened_as_def)
  qed
qed

lemma phase_of_neighbours: "phase_of ph0 (Suc g) \<noteq> phase_of ph0 g"
  by (simp add: phase_of_def)

lemma rx_at_confirm:
  "rx_at cr c d0 ph0 b g seen s \<Longrightarrow>
   rx_at cr c d0 ph0 b g seen (maybe_confirm_previous_rx_keys s e)"
  by (auto simp: rx_at_def rx_previous_ok_def maybe_confirm_previous_rx_keys_def policy_interval_def
      split: option.splits)

lemma accept_opened_spec:
  assumes "replay_rel (qs_replay_window s) seen"
  shows "case replay_spec (unat (rw_initial_expected (qs_replay_window s))) seen (unat (op_pn opened)) of
           Inl Replay \<Rightarrow> accept_opened s opened = (s, Err QsReplay :: (_, 'e qsp_session_error) result)
         | Inl TooOld \<Rightarrow> accept_opened s opened = (s, Err QsTooOld :: (_, 'e qsp_session_error) result)
         | Inr seen' \<Rightarrow> \<exists>w. accept_opened s opened =
                             (s\<lparr>qs_replay_window := w\<rparr>, Ok opened :: (_, 'e qsp_session_error) result) \<and>
                           replay_rel w seen' \<and>
                           rw_initial_expected w = rw_initial_expected (qs_replay_window s)"
  using check_and_update_refines [OF assms, of "op_pn opened"]
  by (auto simp: accept_opened_def split: sum.splits replay_error.splits)

text \<open>Promoting the candidate moves the receiver to the next generation.\<close>

lemma promote_reaches_generation:
  assumes cr: "crypto_ok cr" and rx: "rx_at cr c d0 ph0 b g seen s"
    and t: "qs_rx_next_rekey_pn s = Some t"
  obtains cand s' where
    "derive_candidate_rx_keys cr s = (Ok (Some cand) :: (_, 'e qsp_session_error) result)"
    "promote_candidate_rx_keys cr s cand = (Ok s' :: (_, 'e qsp_session_error) result)"
    "direction_generation cr c d0 (Suc g) = Ok (ks_rx cand)"
    "rx_at cr c d0 ph0 b (Suc g) seen s'" "qs_replay_window s' = qs_replay_window s"
    "qs_scid s' = qs_scid s" "policy_interval s' = policy_interval s" "qs_rekey_policy s' = qs_rekey_policy s"
proof -
  have r: "ks_cipher (qs_keys s) = c" "udp_qsp_keys_wf (qs_keys s)" "0 < policy_interval s"
      "direction_generation cr c d0 g = Ok (ks_rx (qs_keys s))"
      "qs_rx_key_phase s = phase_of ph0 g"
      "qs_rx_next_rekey_pn s = rekey_threshold (b + g + 1) (policy_interval s)"
      "replay_rel (qs_replay_window s) seen"
    using rx by (simp_all add: rx_at_def)
  have thr: "rekey_threshold (b + g + 1) (policy_interval s) = Some t" using t r(6) by simp
  obtain k where k: "with_next_rx_keys cr (qs_keys s) = Ok k" "udp_qsp_keys_wf k" "ks_cipher k = c"
      "direction_keys_next_generation cr (ks_rx (qs_keys s)) (cipher_config_for_suite c) = Ok (ks_rx k)"
    using with_next_rx_keys_Ok [OF cr r(2)] r(1) by metis
  let ?valid = "saturating_add_u64 t (word_of_nat PN_REPLAY_WINDOW)"
  let ?s = "s\<lparr>qs_previous_rx := Some \<lparr>prx_keys = qs_keys s, prx_valid_until_pn = ?valid\<rparr>,
        qs_keys := k, qs_rx_key_phase := \<not> qs_rx_key_phase s,
        qs_rx_next_rekey_pn := next_rekey_after t (rp_interval (qs_rekey_policy s))\<rparr>"
  have "next_rekey_after t (rp_interval (qs_rekey_policy s)) =
      rekey_threshold (b + g + 1 + 1) (policy_interval s)"
    using next_rekey_after_step [OF thr _ r(3)] by (simp add: policy_interval_def)
  moreover have "unat ?valid = min ((b + g + 1) * policy_interval s + PN_REPLAY_WINDOW) (2 ^ 64 - 1)"
    using unat_rekey_threshold [OF thr] by (simp add: unat_saturating_add_u64 unat_window_consts)
      (simp add: PN_REPLAY_WINDOW_def)
  ultimately have "rx_at cr c d0 ph0 b (Suc g) seen ?s"
    using r k by (simp add: rx_at_def rx_previous_ok_def policy_interval_def phase_of_def)
  moreover have "promote_candidate_rx_keys cr s k = (Ok ?s :: (_, 'e qsp_session_error) result)"
    using t udp_qsp_keys_clone [OF cr r(2)] by (simp add: promote_candidate_rx_keys_def Let_def)
  moreover have "derive_candidate_rx_keys cr s = (Ok (Some k) :: (_, 'e qsp_session_error) result)"
    using t k(1) by (simp add: derive_candidate_rx_keys_def)
  ultimately show thesis
    using that [of k ?s] r(4) k(4) by (simp add: policy_interval_def)
qed

lemma confirm_frame [simp]:
  "qs_scid (maybe_confirm_previous_rx_keys s e) = qs_scid s"
  "qs_keys (maybe_confirm_previous_rx_keys s e) = qs_keys s"
  "qs_rx_key_phase (maybe_confirm_previous_rx_keys s e) = qs_rx_key_phase s"
  "qs_rx_next_rekey_pn (maybe_confirm_previous_rx_keys s e) = qs_rx_next_rekey_pn s"
  "qs_rekey_policy (maybe_confirm_previous_rx_keys s e) = qs_rekey_policy s"
  "policy_interval (maybe_confirm_previous_rx_keys s e) = policy_interval s"
  by (auto simp: maybe_confirm_previous_rx_keys_def policy_interval_def split: option.splits)

text \<open>A genuine packet whose keys are at hand reaches the replay window with its payload.\<close>

lemma open_packet_genuine:
  fixes s :: "'io quic_qsp_session"
  defines "e \<equiv> replay_expected_pn (qs_replay_window s)"
  assumes cr: "crypto_ok cr" and wf0: "direction_keys_wf (cipher_config_for_suite c) d0"
    and rx: "rx_at cr c d0 ph0 b g seen s"
    and gen: "genuine_packet cr c d0 ph0 h dcid pn payload packet"
    and len: "length dcid = cid_len (qs_scid s)"
    and near: "within_half_window pn e (packet_number_len pn)"
    and keys: "rx_has_keys b g h s"
  obtains s' where
    "open_packet cr s packet = (accept_opened s' (opened_as ph0 h (length dcid) pn payload)
       :: _ \<times> (_, 'e qsp_session_error) result)"
    "rx_at cr c d0 ph0 b (max g h) seen s'" "qs_replay_window s' = qs_replay_window s"
    "qs_scid s' = qs_scid s" "qs_rekey_policy s' = qs_rekey_policy s"
proof -
  define t where "t = maybe_confirm_previous_rx_keys s e"
  let ?o = "opened_as ph0 h (length dcid) pn payload"
  have t: "rx_at cr c d0 ph0 b g seen t" unfolding t_def by (rule rx_at_confirm [OF rx])
  have tf: "qs_scid t = qs_scid s" "qs_replay_window t = qs_replay_window s"
      "qs_rekey_policy t = qs_rekey_policy s" "qs_keys t = qs_keys s"
    by (simp_all add: t_def)
  have cur: "direction_generation cr c d0 g = Ok (ks_rx (qs_keys t))"
      "qs_rx_key_phase t = phase_of ph0 g"
    using t by (simp_all add: rx_at_def)
  have l: "cid_len (qs_scid t) = length dcid" using len tf by simp
  define current where "current =
    (case open_into cr (qs_keys t) (cid_len (qs_scid t)) packet e of
       Inl _ \<Rightarrow> None
     | Inr opened \<Rightarrow> if op_key_phase opened = qs_rx_key_phase t then Some opened else None)"
  have op: "(open_packet cr s packet :: _ \<times> (_, 'e qsp_session_error) result) =
    (case current of
       Some opened \<Rightarrow> accept_opened t opened
     | None \<Rightarrow> (case open_with_previous cr t packet e of
                  Some opened \<Rightarrow> accept_opened t opened
                | None \<Rightarrow> open_with_candidate cr t packet e))"
    unfolding open_packet_def current_def t_def e_def Let_def by (rule refl)
  have wrong: "current = None" if "phase_of ph0 h \<noteq> phase_of ph0 g"
    using that cur open_genuine(1) [OF cr wf0 gen near cur(1)]
    by (auto simp: current_def l split: sum.splits)
  from keys consider (same) "h = g" | (prev) "h + 1 = g" "can_try_previous t e"
    | (cand) "h = g + 1" "should_try_candidate t e"
    by (auto simp: rx_has_keys_def Let_def t_def e_def)
  then show thesis
  proof cases
    case same
    then have "current = Some ?o"
      using open_genuine(2) [OF cr wf0 gen near cur(1)] cur(2)
      by (simp add: current_def l opened_as_def)
    then show thesis using that [of t] op t tf same by simp
  next
    case prev
    then obtain p where p: "qs_previous_rx t = Some p" by (auto simp: can_try_previous_def split: option.splits)
    have "direction_generation cr c d0 h = Ok (ks_rx (prx_keys p))"
      using t p prev(1) by (auto simp: rx_at_def rx_previous_ok_def)
    from open_genuine(2) [OF cr wf0 gen near this]
    have o: "open_into cr (prx_keys p) (length dcid) packet e = Ok ?o" by simp
    have ph: "phase_of ph0 h \<noteq> phase_of ph0 g" using phase_of_neighbours [of ph0 h] prev(1) by auto
    have "open_with_previous cr t packet e = Some ?o"
      using prev(2) p o ph cur(2) by (simp add: open_with_previous_def l opened_as_def)
    then show thesis using that [of t] op wrong [OF ph] t tf prev(1) by (simp add: max_def)
  next
    case cand
    then have np: "qs_previous_rx t = None" by (auto simp: should_try_candidate_def split: if_splits)
    obtain thr where thr: "qs_rx_next_rekey_pn t = Some thr"
      using cand(2) by (auto simp: should_try_candidate_def split: if_splits option.splits)
    obtain k u where k: "derive_candidate_rx_keys cr t = (Ok (Some k) :: (_, 'e qsp_session_error) result)"
        "promote_candidate_rx_keys cr t k = (Ok u :: (_, 'e qsp_session_error) result)"
        "direction_generation cr c d0 (Suc g) = Ok (ks_rx k)"
        "rx_at cr c d0 ph0 b (Suc g) seen u" "qs_replay_window u = qs_replay_window t"
        "qs_scid u = qs_scid t" "qs_rekey_policy u = qs_rekey_policy t"
      using promote_reaches_generation [OF cr t thr] by metis
    have o: "open_into cr k (length dcid) packet e = Ok ?o"
      using open_genuine(2) [OF cr wf0 gen near k(3)] cand(1) by simp
    have ph: "phase_of ph0 h \<noteq> phase_of ph0 g" using phase_of_neighbours [of ph0 g] cand(1) by simp
    have "open_with_candidate cr t packet e =
        (accept_opened u ?o :: _ \<times> (_, 'e qsp_session_error) result)"
      using cand(2) k(1,2) o ph cur(2) by (simp add: open_with_candidate_def l opened_as_def)
    moreover have "open_with_previous cr t packet e = None"
      using np by (simp add: open_with_previous_def)
    ultimately show thesis
      using that [of u] op wrong [OF ph] k tf cand(1) by (simp add: max_def)
  qed
qed

section \<open>The link\<close>

lemma link_within_half_window:
  assumes "unat e \<le> unat pn" "unat pn \<le> unat e + 127"
  shows "within_half_window pn e (packet_number_len pn)"
proof -
  have "(128::nat) \<le> 256 ^ packet_number_len pn div 2"
    by (simp add: packet_number_len_def)
  with assms show ?thesis by (simp add: within_half_window_def)
qed

text \<open>Within 127 packets of the expected one, the receiver has the keys it needs.\<close>

lemma link_has_keys:
  assumes rx: "rx_at cr c d0 ph0 b g seen s"
    and e: "unat (replay_expected_pn (qs_replay_window s)) = e"
      "(b + g) * policy_interval s \<le> e" "e \<le> (b + g + 1) * policy_interval s"
    and pol: "2048 \<le> policy_interval s" "128 \<le> unat (rp_late_margin (qs_rekey_policy s))"
    and pn: "e \<le> unat pn" "unat pn \<le> e + 127"
  shows "rx_has_keys b g (pn_generation b (policy_interval s) pn) s"
    and "g \<le> pn_generation b (policy_interval s) pn"
    and "(b + pn_generation b (policy_interval s) pn) * policy_interval s \<le> unat pn"
    and "unat pn < (b + pn_generation b (policy_interval s) pn + 1) * policy_interval s"
proof -
  let ?i = "policy_interval s" and ?h = "pn_generation b (policy_interval s) pn"
  have i: "0 < ?i" using pol(1) by simp
  have lo: "b + g \<le> unat pn div ?i"
    using e(2) pn(1) i by (simp add: less_eq_div_iff_mult_less_eq)
  then have h: "b + ?h = unat pn div ?i" by (simp add: pn_generation_def)
  show "g \<le> ?h" using lo by (simp add: pn_generation_def)
  show "(b + ?h) * ?i \<le> unat pn" using h by simp
  show "unat pn < (b + ?h + 1) * ?i" using h i by (simp add: dividend_less_div_times)
  show "rx_has_keys b g ?h s"
  proof (cases "unat pn < (b + g + 1) * ?i")
    case True
    then have "unat pn div ?i < b + g + 1" using i by (simp add: div_less_iff_less_mult)
    then have "?h = g" using h lo by simp
    then show ?thesis by (simp add: rx_has_keys_def Let_def)
  next
    case False
    define T where "T = (b + g + 1) * ?i"
    have T: "T \<le> unat pn" "e \<le> T" using False e(3) by (simp_all add: T_def)
    have "unat pn < (b + g + 1 + 1) * ?i"
      using T pn e(3) pol(1) unfolding T_def add_mult_distrib by linarith
    then have "unat pn div ?i < b + g + 1 + 1" using i by (simp add: div_less_iff_less_mult)
    moreover have "b + g + 1 \<le> unat pn div ?i"
      using False i by (simp add: less_eq_div_iff_mult_less_eq)
    ultimately have hg: "?h = g + 1" using h by simp
    have thr: "qs_rx_next_rekey_pn s = Some (word_of_nat T)"
      using rx rekey_threshold_le [of "b + g + 1" ?i pn] T by (simp add: rx_at_def T_def)
    have uT: "unat (word_of_nat T :: u64) = T"
      using T(1) unat_u64_less [of pn] by (simp add: unat_of_nat del: unat_u64_less)
    let ?e = "replay_expected_pn (qs_replay_window s)"
    have np: "qs_previous_rx (maybe_confirm_previous_rx_keys s ?e) = None"
    proof (cases "qs_previous_rx s")
      case (Some p)
      then have "unat (prx_valid_until_pn p) \<le> (b + g) * ?i + 1024"
        using rx by (simp add: rx_at_def rx_previous_ok_def PN_REPLAY_WINDOW_def)
      moreover have "(b + g) * ?i + 1024 < e"
        using T pn pol(1) unfolding T_def add_mult_distrib by linarith
      ultimately have "?e > prx_valid_until_pn p" using e(1) by (simp add: word_less_nat_alt)
      then show ?thesis using Some by (simp add: maybe_confirm_previous_rx_keys_def)
    qed (simp add: maybe_confirm_previous_rx_keys_def)
    have "unat (pn_distance ?e (word_of_nat T)) \<le> 127"
      using T pn e(1) uT by (simp add: pn_distance_def unat_abs_diff_u64) linarith
    then have "should_try_candidate (maybe_confirm_previous_rx_keys s ?e) ?e"
      using np thr pol(2) by (simp add: should_try_candidate_def word_le_nat_alt)
    then show ?thesis using hg by (simp add: rx_has_keys_def Let_def)
  qed
qed

lemma rx_at_window:
  "rx_at cr c d0 ph0 b g seen s \<Longrightarrow> replay_rel w seen' \<Longrightarrow>
   rx_at cr c d0 ph0 b g seen' (s\<lparr>qs_replay_window := w\<rparr>)"
  by (auto simp: rx_at_def rx_previous_ok_def policy_interval_def split: option.splits)

lemma replay_expected_largest:
  assumes "replay_rel w seen" "seen \<noteq> {}" "Max seen + 1 < 2 ^ 64"
  shows "unat (replay_expected_pn w) = Max seen + 1"
proof -
  obtain l where l: "rw_largest_pn w = Some l" "unat l = Max seen"
    using assms by (auto simp: replay_rel_def split: option.splits)
  have "unat (replay_expected_pn w) = min (unat l + 1) (2 ^ 64 - 1)"
    using l by (simp add: replay_expected_pn_def unat_saturating_add_u64)
  also have "\<dots> = Max seen + 1" using l(2) assms(3) by (intro min_absorb1 [THEN trans]) linarith+
  finally show ?thesis .
qed

lemma link_delivers_one:
  assumes cr: "crypto_ok cr" and wf0: "direction_keys_wf (cipher_config_for_suite c) d0"
    and rx: "link_rx cr c d0 ph0 b e s"
    and gen: "genuine_packet cr c d0 ph0 (pn_generation b (policy_interval s) pn) dcid pn payload packet"
    and len: "length dcid = cid_len (qs_scid s)"
    and pn: "e \<le> unat pn" "unat pn \<le> e + 127" "unat pn + 1 < 2 ^ 64"
  obtains s' where
    "open_packet cr s packet =
       (s', Ok (opened_as ph0 (pn_generation b (policy_interval s) pn) (length dcid) pn payload)
         :: (_, 'e qsp_session_error) result)"
    "link_rx cr c d0 ph0 b (unat pn + 1) s'" "qs_scid s' = qs_scid s"
    "policy_interval s' = policy_interval s"
proof -
  let ?h = "pn_generation b (policy_interval s) pn"
  let ?o = "opened_as ph0 ?h (length dcid) pn payload"
  from rx obtain g seen where r: "rx_at cr c d0 ph0 b g seen s" "\<forall>q \<in> seen. q < e"
      "unat (replay_expected_pn (qs_replay_window s)) = e"
      "unat (rw_initial_expected (qs_replay_window s)) \<le> e"
      "(b + g) * policy_interval s \<le> e" "e \<le> (b + g + 1) * policy_interval s"
    and pol: "2048 \<le> policy_interval s" "128 \<le> unat (rp_late_margin (qs_rekey_policy s))"
    by (auto simp: link_rx_def)
  note keys = link_has_keys [OF r(1) r(3) r(5) r(6) pol pn(1,2)]
  have near: "within_half_window pn (replay_expected_pn (qs_replay_window s)) (packet_number_len pn)"
    using pn r(3) by (intro link_within_half_window) simp_all
  obtain t where t: "open_packet cr s packet = (accept_opened t ?o :: _ \<times> (_, 'e qsp_session_error) result)"
      "rx_at cr c d0 ph0 b (max g ?h) seen t" "qs_replay_window t = qs_replay_window s"
      "qs_scid t = qs_scid s" "qs_rekey_policy t = qs_rekey_policy s"
    using open_packet_genuine [OF cr wf0 r(1) gen len near keys(1)] by metis
  have rel: "replay_rel (qs_replay_window t) seen" using t(2) by (simp add: rx_at_def)
  then have fin: "finite seen" by (simp add: replay_rel_def)
  have "replay_spec (unat (rw_initial_expected (qs_replay_window t))) seen (unat pn) =
      Ok (insert (unat pn) seen)"
    using r(2,4) pn(1) fin t(3) by (auto simp: replay_spec_def)
  then obtain w where w: "accept_opened t ?o = (t\<lparr>qs_replay_window := w\<rparr>, Ok ?o :: (_, 'e qsp_session_error) result)"
      "replay_rel w (insert (unat pn) seen)"
      "rw_initial_expected w = rw_initial_expected (qs_replay_window t)"
    using accept_opened_spec [OF rel, of ?o, where ?'e = 'e] by (auto simp: opened_as_def)
  let ?s = "t\<lparr>qs_replay_window := w\<rparr>"
  have m: "Max (insert (unat pn) seen) = unat pn"
    using fin r(2) pn(1) by (intro Max_eqI) auto
  have exp: "unat (replay_expected_pn w) = unat pn + 1"
    using replay_expected_largest [OF w(2)] m pn(3) by simp
  have pi: "policy_interval ?s = policy_interval s" using t(5) by (simp add: policy_interval_def)
  have "rx_at cr c d0 ph0 b ?h (insert (unat pn) seen) ?s"
    using rx_at_window [OF t(2) w(2)] keys(2) by (simp add: max_absorb2)
  then have "link_rx cr c d0 ph0 b (unat pn + 1) ?s"
    using r(2,4) pn(1) exp keys(3,4) pol t(3,5) w(3) pi
    unfolding link_rx_def
    by (intro conjI exI [of _ ?h] exI [of _ "insert (unat pn) seen"]) auto
  then show thesis using that [of ?s] t(1,4) w(1) pi by simp
qed

lemma run_link_delivers:
  fixes a :: "'i quic_qsp_session" and s :: "'j quic_qsp_session"
  assumes "crypto_ok cr" "direction_keys_wf (cipher_config_for_suite c) d0"
    and "tx_at cr c d0 ph0 b g a" "g \<le> pn_generation b (policy_interval a) (qs_next_pn a)"
    and "link_rx cr c d0 ph0 b e s" "policy_interval s = policy_interval a"
    and "length (cid_as_slice (qs_dcid a)) = cid_len (qs_scid s)"
    and "unat (qs_next_pn a) = e + n" "n \<le> 127" "losses_ok n ps"
    and "unat (qs_next_pn a) + length ps < 2 ^ 64"
  shows "run_link cr a s ps =
           link_deliveries ph0 b (policy_interval a) (cid_len (qs_scid s)) (qs_next_pn a) ps"
  using assms(3-)
proof (induction ps arbitrary: a s g e n)
  case Nil
  then show ?case by simp
next
  case (Cons x ps)
  obtain p arrives where x: "x = (p, arrives)" by fastforce
  let ?pn = "qs_next_pn a" and ?i = "policy_interval a"
  let ?h = "pn_generation b ?i ?pn"
  have room: "unat ?pn + 1 < 2 ^ 64" using Cons.prems(9) by simp
  obtain a' packet where a': "session_seal cr a p = (a', Ok packet :: (_, unit qsp_session_error) result)"
      "tx_at cr c d0 ph0 b ?h a'" "unat (qs_next_pn a') = unat ?pn + 1" "qs_dcid a' = qs_dcid a"
      "policy_interval a' = ?i"
      "genuine_packet cr c d0 ph0 ?h (cid_as_slice (qs_dcid a)) ?pn p packet"
    using session_seal_genuine [OF assms(1) Cons.prems(1,2) room] by metis
  have next_pn: "qs_next_pn a' = ?pn + 1"
    using a'(3) room by (simp add: word_unat_eq_iff unat_add_u64)
  have mono: "?h \<le> pn_generation b (policy_interval a') (qs_next_pn a')"
    using a'(3,5) by (simp add: pn_generation_def div_le_mono diff_le_mono)
  show ?case
  proof (cases arrives)
    case False
    have "run_link cr a' s ps =
        link_deliveries ph0 b (policy_interval a') (cid_len (qs_scid s)) (qs_next_pn a') ps"
      using Cons.prems False x a' mono
      by (intro Cons.IH [where n = "Suc n" and e = e]) simp_all
    then show ?thesis using x False a'(1,5) next_pn by simp
  next
    case True
    have bounds: "e \<le> unat ?pn" "unat ?pn \<le> e + 127" using Cons.prems(6,7) by simp_all
    have gen: "genuine_packet cr c d0 ph0 (pn_generation b (policy_interval s) ?pn)
        (cid_as_slice (qs_dcid a)) ?pn p packet"
      using a'(6) Cons.prems(4) by simp
    obtain s' where s': "open_packet cr s packet = (s', Ok (opened_as ph0
          (pn_generation b (policy_interval s) ?pn) (length (cid_as_slice (qs_dcid a))) ?pn p)
          :: (_, unit qsp_session_error) result)"
        "link_rx cr c d0 ph0 b (unat ?pn + 1) s'" "qs_scid s' = qs_scid s"
        "policy_interval s' = policy_interval s"
      using link_delivers_one [OF assms(1,2) Cons.prems(3) gen Cons.prems(5) bounds room] by metis
    have "run_link cr a' s' ps =
        link_deliveries ph0 b (policy_interval a') (cid_len (qs_scid s')) (qs_next_pn a') ps"
      using Cons.prems True x a' s' mono
      by (intro Cons.IH [where n = 0 and e = "unat ?pn + 1"]) simp_all
    then show ?thesis
      using x True a'(1,5) next_pn s'(1,3) Cons.prems(4,5) by simp
  qed
qed

section \<open>Properties\<close>

lemma default_policy:
  "unat (rp_interval rekey_policy_defaults) = 2097152"
  "unat (rp_late_margin rekey_policy_defaults) = 8192"
  by (simp_all add: rekey_policy_defaults_def KEY_UPDATE_INTERVAL_def KEY_UPDATE_LATE_MARGIN_def
      PN_REPLAY_WINDOW_def)

lemma new_session_threshold:
  "next_rekey_after pn (rp_interval rekey_policy_defaults) =
     rekey_threshold (unat pn div 2097152 + 1) 2097152"
proof -
  have "rp_interval rekey_policy_defaults \<noteq> 0" using default_policy(1) by auto
  then show ?thesis by (simp add: next_rekey_after_threshold default_policy)
qed

lemma new_session_tx_at:
  assumes "udp_qsp_keys_wf k"
  shows "tx_at cr (ks_cipher k) (ks_tx k) ph (unat pn div 2097152) 0
           (quic_qsp_session_new io scid dcid k pn e ph)"
  using assms
  by (simp add: tx_at_def quic_qsp_session_new_def policy_interval_def default_policy phase_of_def
      new_session_threshold)

lemma new_session_rx_at:
  assumes "udp_qsp_keys_wf k"
  shows "rx_at cr (ks_cipher k) (ks_rx k) ph (unat e div 2097152) 0 {}
           (quic_qsp_session_new io scid dcid k pn e ph)"
  using assms replay_rel_new [of e]
  by (simp add: rx_at_def rx_previous_ok_def phase_of_def quic_qsp_session_new_def
      policy_interval_def default_policy new_session_threshold)

lemma new_session_link_rx:
  assumes "udp_qsp_keys_wf k"
  shows "link_rx cr (ks_cipher k) (ks_rx k) ph (unat e div 2097152) (unat e)
           (quic_qsp_session_new io scid dcid k pn e ph)"
proof -
  let ?s = "quic_qsp_session_new io scid dcid k pn e ph"
  have pi: "policy_interval ?s = 2097152"
    by (simp add: quic_qsp_session_new_def policy_interval_def default_policy)
  have "rx_at cr (ks_cipher k) (ks_rx k) ph (unat e div 2097152) 0 {} ?s"
    by (rule new_session_rx_at [OF assms])
  then show ?thesis
    unfolding link_rx_def pi
    by (intro conjI exI [of _ 0] exI [of _ "{}"])
      (simp_all add: quic_qsp_session_new_def replay_window_new_def replay_expected_pn_def
        default_policy dividend_less_div_times less_imp_le add.commute)
qed

lemma new_sessions_deliver:
  assumes "crypto_ok cr" "udp_qsp_keys_wf ka" "udp_qsp_keys_wf kb"
    and "ks_cipher kb = ks_cipher ka" "ks_rx kb = ks_tx ka"
    and "length (cid_as_slice da) = cid_len sb"
    and "unat start + length ps < 2 ^ 64" "losses_ok 0 ps"
  shows "run_link cr (quic_qsp_session_new ia sa da ka start ra ph)
           (quic_qsp_session_new ib sb db kb tb start ph) ps =
         link_deliveries ph (unat start div 2097152) 2097152 (cid_len sb) start ps"
proof -
  let ?a = "quic_qsp_session_new ia sa da ka start ra ph"
  let ?b = "quic_qsp_session_new ib sb db kb tb start ph"
  have wf0: "direction_keys_wf (cipher_config_for_suite (ks_cipher ka)) (ks_tx ka)"
    using assms(2) by (simp add: udp_qsp_keys_wf_def)
  have rx: "link_rx cr (ks_cipher ka) (ks_tx ka) ph (unat start div 2097152) (unat start) ?b"
    using new_session_link_rx [OF assms(3), of cr ph start] assms(4,5) by simp
  have pi: "policy_interval ?a = 2097152" "policy_interval ?b = 2097152"
    by (simp_all add: quic_qsp_session_new_def policy_interval_def default_policy)
  have fields: "qs_next_pn ?a = start" "qs_dcid ?a = da" "qs_scid ?b = sb"
    by (simp_all add: quic_qsp_session_new_def)
  have "run_link cr ?a ?b ps = link_deliveries ph (unat start div 2097152) (policy_interval ?a)
      (cid_len (qs_scid ?b)) (qs_next_pn ?a) ps"
    using assms
    by (intro run_link_delivers [OF assms(1) wf0 new_session_tx_at [OF assms(2)] _ rx, where n = 0])
      (simp_all add: pi fields)
  then show ?thesis by (simp add: pi fields)
qed

text \<open>C1: Two new sessions with matching keys, connection-ID lengths, starting packet number
  and key phase deliver every packet that arrives, with its number, phase and padded payload,
  over a link that keeps the order and loses fewer than 128 packets in a row, through any number
  of key updates, as long as the packet numbers last.\<close>

theorem lossy_link_delivers:
  assumes "crypto_ok cr" "udp_qsp_keys_wf ka" "udp_qsp_keys_wf kb"
    and "ks_cipher kb = ks_cipher ka" "ks_rx kb = ks_tx ka"
    and "length (cid_as_slice da) = cid_len sb"
    and "unat start + length ps < 2 ^ 64" "losses_ok 0 ps"
  shows "run_link cr (quic_qsp_session_new ia sa da ka start ra ph)
           (quic_qsp_session_new ib sb db kb tb start ph) ps =
         link_deliveries ph (unat start div 2097152) 2097152 (cid_len sb) start ps"
  using assms by (rule new_sessions_deliver)

theorem lossy_link_delivers_witness:
  "run_link plain_crypto
     (quic_qsp_session_new () \<lparr>cid_len_byte = 2, cid_bytes = [1, 2]\<rparr>
        \<lparr>cid_len_byte = 2, cid_bytes = [3, 4]\<rparr> sample_keys 2097151 0 True)
     (quic_qsp_session_new () \<lparr>cid_len_byte = 2, cid_bytes = [3, 4]\<rparr>
        \<lparr>cid_len_byte = 2, cid_bytes = [1, 2]\<rparr> sample_keys 0 2097151 True)
     [([7], True), ([8], False), ([9], True)] =
   [Ok (opened_as True 0 2 2097151 [7]), Ok (opened_as True 1 2 2097153 [9])]"
proof -
  let ?c = "\<lparr>cid_len_byte = 2, cid_bytes = [3, 4]\<rparr>"
  have "run_link plain_crypto
     (quic_qsp_session_new () \<lparr>cid_len_byte = 2, cid_bytes = [1, 2]\<rparr> ?c sample_keys 2097151 0 True)
     (quic_qsp_session_new () ?c \<lparr>cid_len_byte = 2, cid_bytes = [1, 2]\<rparr> sample_keys 0 2097151 True)
     [([7], True), ([8], False), ([9], True)] =
     link_deliveries True (unat (2097151 :: u64) div 2097152) 2097152 (cid_len ?c) 2097151
       [([7], True), ([8], False), ([9], True)]"
    by (rule lossy_link_delivers [OF plain_crypto_ok sample_keys_wf sample_keys_wf])
      (simp_all add: sample_keys_def cid_len_def cid_as_slice_def)
  then show ?thesis by (simp add: pn_generation_def cid_len_def)
qed

text \<open>C5: A genuine packet, possibly reordered or duplicated, whose number lies within half a
  window of the expected one and whose key generation the receiver holds, retains from before the
  last update, or may derive next, is opened with the right keys; it is then delivered with its
  payload exactly when the abstract replay window admits its number, and reported as a replay or
  as too old otherwise.\<close>

theorem open_packet_delivers:
  fixes s :: "'io quic_qsp_session"
  assumes "crypto_ok cr" "direction_keys_wf (cipher_config_for_suite c) d0"
    and "rx_at cr c d0 ph0 b g seen s"
    and "genuine_packet cr c d0 ph0 h dcid pn payload packet"
    and "length dcid = cid_len (qs_scid s)"
    and "within_half_window pn (replay_expected_pn (qs_replay_window s)) (packet_number_len pn)"
    and "rx_has_keys b g h s"
  shows "snd (open_packet cr s packet :: _ \<times> (_, 'e qsp_session_error) result) =
           (case replay_spec (unat (rw_initial_expected (qs_replay_window s))) seen (unat pn) of
              Inl Replay \<Rightarrow> Err QsReplay
            | Inl TooOld \<Rightarrow> Err QsTooOld
            | Inr _ \<Rightarrow> Ok (opened_as ph0 h (length dcid) pn payload))"
proof -
  let ?o = "opened_as ph0 h (length dcid) pn payload"
  obtain t where t: "open_packet cr s packet = (accept_opened t ?o :: _ \<times> (_, 'e qsp_session_error) result)"
      "rx_at cr c d0 ph0 b (max g h) seen t" "qs_replay_window t = qs_replay_window s"
    using open_packet_genuine [OF assms] by metis
  have "replay_rel (qs_replay_window t) seen" using t(2) by (simp add: rx_at_def)
  from accept_opened_spec [OF this, of ?o, where ?'e = 'e] t(1,3) show ?thesis
    by (auto simp: opened_as_def split: sum.splits replay_error.splits)
qed

theorem open_packet_delivers_witness:
  "snd (open_packet plain_crypto sample_receiver sample_packet
          :: _ \<times> (_, unit qsp_session_error) result) =
     Ok (opened_as True 0 (length [3, 4 :: u8]) 305 [7])"
proof -
  have wf: "direction_keys_wf (cipher_config_for_suite ChaCha20Poly1305) (ks_rx sample_keys)"
    using sample_keys_wf by (simp add: udp_qsp_keys_wf_def sample_keys_def)
  have rx: "rx_at plain_crypto ChaCha20Poly1305 (ks_rx sample_keys) True 0 0 {} sample_receiver"
    using new_session_rx_at [OF sample_keys_wf, of plain_crypto True 300]
    by (simp add: sample_receiver_def sample_keys_def)
  obtain p where p: "protect_into plain_crypto sample_keys [3, 4] 305 True [7] = Ok p"
    using protect_into_Ok [OF plain_crypto_ok, of _ sample_keys] sample_keys_wf
    unfolding udp_qsp_keys_wf_def by metis
  have gen: "genuine_packet plain_crypto ChaCha20Poly1305 (ks_rx sample_keys) True 0 [3, 4] 305 [7]
      sample_packet"
    using p by (auto simp: genuine_packet_def sample_packet_def sample_keys_def phase_of_def
        intro!: exI [of _ sample_keys])
  have w: "qs_replay_window sample_receiver = replay_window_new 300" "cid_len (qs_scid sample_receiver) = 2"
    by (simp_all add: sample_receiver_def quic_qsp_session_new_def cid_len_def)
  show ?thesis
    using open_packet_delivers [OF plain_crypto_ok wf rx gen, where ?'e = unit] w
    by (simp add: replay_spec_def replay_window_new_def replay_expected_pn_def rx_has_keys_def
        within_half_window_def packet_number_len_def)
qed

end
