(* ===== verification/Registry.thy ===== *)
theory Registry
  imports Admissibility
begin

text \<open>
  The session registry (\<open>slt-server/src/registry.rs\<close>) and the source check of the packet router
  (\<open>slt-server/src/router.rs\<close>).  The registry maps client identities, assigned addresses and
  connection-ID prefixes to the event channels of running sessions; hash maps are partial
  functions, the channel type of tokio is the type variable \<open>'tx\<close>, and each operation runs under
  one lock acquisition of the source and is therefore one atomic step here.

  Every route of a reachable registry leads to the active session of some client, a session that
  was replaced or removed is never routed to again, and a session that is not active any more
  cannot insert routes.
\<close>

section \<open>State\<close>

datatype cid_insert_error =
    PrefixCollision cid_prefix
  | StaleSession client_id u64 "u64 option"

record 'tx cid_route =
  cr_session_id :: u64
  cr_tx :: 'tx

record 'tx session_handle =
  sh_session_id :: u64
  sh_client_id :: client_id
  sh_assigned_ipv4 :: ipv4_addr
  sh_tx :: 'tx

record 'tx registry =
  rg_next_session_id :: u64
  rg_sessions :: "client_id \<rightharpoonup> 'tx session_handle"
  rg_ip_routes :: "ipv4_addr \<rightharpoonup> 'tx session_handle"
  rg_cid_routes :: "cid_prefix \<rightharpoonup> 'tx cid_route"

definition registry_new :: "'tx registry" where
  "registry_new =
     \<lparr>rg_next_session_id = 1, rg_sessions = Map.empty, rg_ip_routes = Map.empty,
      rg_cid_routes = Map.empty\<rparr>"

text \<open>\<open>HashMap::retain\<close>.\<close>

definition retain :: "('k \<Rightarrow> 'v \<Rightarrow> bool) \<Rightarrow> ('k \<rightharpoonup> 'v) \<Rightarrow> ('k \<rightharpoonup> 'v)" where
  "retain keep m = (\<lambda>k. case m k of None \<Rightarrow> None | Some v \<Rightarrow> if keep k v then Some v else None)"

section \<open>Operations\<close>

definition register_session ::
    "client_id \<Rightarrow> ipv4_addr \<Rightarrow> 'tx \<Rightarrow> 'tx registry \<Rightarrow> 'tx session_handle \<times> 'tx registry" where
  "register_session client_id assigned_ipv4 tx r =
     (let session_id = rg_next_session_id r;
          r = r\<lparr>rg_next_session_id := saturating_add_u64 (rg_next_session_id r) 1\<rparr>;
          handle = \<lparr>sh_session_id = session_id, sh_client_id = client_id,
                    sh_assigned_ipv4 = assigned_ipv4, sh_tx = tx\<rparr>;
          old = rg_sessions r client_id;
          r = r\<lparr>rg_sessions := (rg_sessions r)(client_id \<mapsto> handle)\<rparr>;
          r = (case old of
                 None \<Rightarrow> r
               | Some old_handle \<Rightarrow>
                   let r = (if sh_assigned_ipv4 old_handle \<noteq> assigned_ipv4
                            then r\<lparr>rg_ip_routes :=
                                     (rg_ip_routes r)(sh_assigned_ipv4 old_handle := None)\<rparr>
                            else r)
                   in r\<lparr>rg_cid_routes :=
                          retain (\<lambda>_ route. cr_session_id route \<noteq> sh_session_id old_handle)
                            (rg_cid_routes r)\<rparr>)
      in (handle, r\<lparr>rg_ip_routes := (rg_ip_routes r)(assigned_ipv4 \<mapsto> handle)\<rparr>))"

definition owned_by :: "u64 \<Rightarrow> 'tx session_handle option \<Rightarrow> bool" where
  "owned_by session_id entry =
     (case entry of None \<Rightarrow> False | Some handle \<Rightarrow> sh_session_id handle = session_id)"

definition remove_session ::
    "u64 \<Rightarrow> client_id \<Rightarrow> ipv4_addr \<Rightarrow> 'tx registry \<Rightarrow> 'tx registry" where
  "remove_session session_id client_id assigned_ipv4 r =
     (let r = (if owned_by session_id (rg_sessions r client_id)
               then r\<lparr>rg_sessions := (rg_sessions r)(client_id := None)\<rparr> else r);
          r = (if owned_by session_id (rg_ip_routes r assigned_ipv4)
               then r\<lparr>rg_ip_routes := (rg_ip_routes r)(assigned_ipv4 := None)\<rparr> else r)
      in r\<lparr>rg_cid_routes :=
             retain (\<lambda>_ route. cr_session_id route \<noteq> session_id) (rg_cid_routes r)\<rparr>)"

definition insert_cid ::
    "client_id \<Rightarrow> u64 \<Rightarrow> cid_prefix \<Rightarrow> 'tx \<Rightarrow> 'tx registry \<Rightarrow>
     'tx registry \<times> (unit, cid_insert_error) result" where
  "insert_cid client_id session_id prefix tx r =
     (let active_session_id = map_option sh_session_id (rg_sessions r client_id) in
      if active_session_id \<noteq> Some session_id
      then (r, Err (StaleSession client_id session_id active_session_id))
      else
        let collides = (case rg_cid_routes r prefix of
                          None \<Rightarrow> False
                        | Some route \<Rightarrow> cr_session_id route \<noteq> session_id)
        in
        if collides then (r, Err (PrefixCollision prefix))
        else (r\<lparr>rg_cid_routes :=
                  (rg_cid_routes r)(prefix \<mapsto> \<lparr>cr_session_id = session_id, cr_tx = tx\<rparr>)\<rparr>, Ok ()))"

definition remove_cids_for_session :: "u64 \<Rightarrow> 'tx registry \<Rightarrow> 'tx registry" where
  "remove_cids_for_session session_id r =
     r\<lparr>rg_cid_routes := retain (\<lambda>_ route. cr_session_id route \<noteq> session_id) (rg_cid_routes r)\<rparr>"

definition remove_cids_for_session_except ::
    "u64 \<Rightarrow> cid_prefix \<Rightarrow> 'tx registry \<Rightarrow> 'tx registry" where
  "remove_cids_for_session_except session_id keep_prefix r =
     r\<lparr>rg_cid_routes :=
         retain (\<lambda>prefix route. cr_session_id route \<noteq> session_id \<or> prefix = keep_prefix)
           (rg_cid_routes r)\<rparr>"

definition lookup_cid :: "cid_prefix \<Rightarrow> 'tx registry \<Rightarrow> 'tx option" where
  "lookup_cid prefix r = map_option cr_tx (rg_cid_routes r prefix)"

definition lookup_ip :: "ipv4_addr \<Rightarrow> 'tx registry \<Rightarrow> 'tx option" where
  "lookup_ip ip r = map_option sh_tx (rg_ip_routes r ip)"

definition has_cid :: "cid_prefix \<Rightarrow> 'tx registry \<Rightarrow> bool" where
  "has_cid prefix r \<longleftrightarrow> rg_cid_routes r prefix \<noteq> None"

section \<open>Spoofing checks\<close>

definition validate_src_ipv4 :: "ipv4_addr \<Rightarrow> ipv4_addr \<Rightarrow> bool" where
  "validate_src_ipv4 assigned src_ip \<longleftrightarrow> assigned = src_ip"

definition validate_packet_src :: "ipv4_addr \<Rightarrow> bytes \<Rightarrow> bool" where
  "validate_packet_src assigned packet =
     (case extract_src_ipv4 packet of
        None \<Rightarrow> False
      | Some src_ip \<Rightarrow> validate_src_ipv4 assigned src_ip)"

section \<open>Reachable registries\<close>

text \<open>The calls the server makes: sessions are created by \<open>register_session\<close>, and a session
  passes the identity, address and channel of its own handle to the other operations.  A state
  pairs the handles issued so far with the registry.\<close>

inductive registry_step ::
    "'tx session_handle set \<times> 'tx registry \<Rightarrow> 'tx session_handle set \<times> 'tx registry \<Rightarrow> bool" where
  step_register:
    "register_session c ip tx r = (h, r') \<Longrightarrow> rg_next_session_id r < u64_max \<Longrightarrow>
       registry_step (I, r) (insert h I, r')"
| step_remove:
    "h \<in> I \<Longrightarrow>
       registry_step (I, r) (I, remove_session (sh_session_id h) (sh_client_id h) (sh_assigned_ipv4 h) r)"
| step_insert:
    "h \<in> I \<Longrightarrow> insert_cid (sh_client_id h) (sh_session_id h) p (sh_tx h) r = (r', res) \<Longrightarrow>
       registry_step (I, r) (I, r')"
| step_remove_cids:
    "h \<in> I \<Longrightarrow> registry_step (I, r) (I, remove_cids_for_session (sh_session_id h) r)"
| step_remove_cids_except:
    "h \<in> I \<Longrightarrow> registry_step (I, r) (I, remove_cids_for_session_except (sh_session_id h) p r)"

text \<open>The active session of a client, and who a prefix and an address are routed to.\<close>

definition live :: "'tx session_handle set \<times> 'tx registry \<Rightarrow> 'tx session_handle \<Rightarrow> bool" where
  "live s h \<longleftrightarrow> rg_sessions (snd s) (sh_client_id h) = Some h"

definition cid_routed :: "'tx session_handle set \<times> 'tx registry \<Rightarrow> cid_prefix \<Rightarrow> 'tx session_handle \<Rightarrow> bool" where
  "cid_routed s p h \<longleftrightarrow> h \<in> fst s \<and>
     rg_cid_routes (snd s) p = Some \<lparr>cr_session_id = sh_session_id h, cr_tx = sh_tx h\<rparr>"

definition ip_routed :: "'tx session_handle set \<times> 'tx registry \<Rightarrow> ipv4_addr \<Rightarrow> 'tx session_handle \<Rightarrow> bool" where
  "ip_routed s ip h \<longleftrightarrow> rg_ip_routes (snd s) ip = Some h"

definition registry_inv :: "'tx session_handle set \<times> 'tx registry \<Rightarrow> bool" where
  "registry_inv s \<longleftrightarrow>
     (\<forall>h \<in> fst s. sh_session_id h < rg_next_session_id (snd s)) \<and>
     inj_on sh_session_id (fst s) \<and>
     (\<forall>c h. rg_sessions (snd s) c = Some h \<longrightarrow> h \<in> fst s \<and> sh_client_id h = c) \<and>
     (\<forall>ip h. rg_ip_routes (snd s) ip = Some h \<longrightarrow> sh_assigned_ipv4 h = ip \<and> live s h) \<and>
     (\<forall>p rt. rg_cid_routes (snd s) p = Some rt \<longrightarrow>
        (\<exists>h. live s h \<and> rt = \<lparr>cr_session_id = sh_session_id h, cr_tx = sh_tx h\<rparr>))"

text \<open>A client that connects twice.\<close>

definition sample_handle :: "u64 \<Rightarrow> nat \<Rightarrow> nat session_handle" where
  "sample_handle sid tx = \<lparr>sh_session_id = sid, sh_client_id = ClientId [1],
     sh_assigned_ipv4 = Ipv4Addr 10 0 0 2, sh_tx = tx\<rparr>"

definition sample_registry :: "nat registry" where
  "sample_registry = snd (register_session (ClientId [1]) (Ipv4Addr 10 0 0 2) 0 registry_new)"

definition sample_takeover :: "nat registry" where
  "sample_takeover = snd (register_session (ClientId [1]) (Ipv4Addr 10 0 0 2) 1 sample_registry)"

text \<open>The contract a routing table offers: it is kept by every step, leads only to live sessions,
  and a session that was issued and is not live does not come back.\<close>

locale route_table =
  fixes step :: "'s \<Rightarrow> 's \<Rightarrow> bool"
    and inv :: "'s \<Rightarrow> bool"
    and issued :: "'s \<Rightarrow> 'h \<Rightarrow> bool"
    and alive :: "'s \<Rightarrow> 'h \<Rightarrow> bool"
    and routed :: "'s \<Rightarrow> 'k \<Rightarrow> 'h \<Rightarrow> bool"
  assumes inv_step: "inv s \<Longrightarrow> step s s' \<Longrightarrow> inv s'"
    and issued_step: "step s s' \<Longrightarrow> issued s h \<Longrightarrow> issued s' h"
    and no_revival: "inv s \<Longrightarrow> step s s' \<Longrightarrow> issued s h \<Longrightarrow> alive s' h \<Longrightarrow> alive s h"
    and routed_alive: "inv s \<Longrightarrow> routed s k h \<Longrightarrow> alive s h"
begin

lemma inv_steps: "step\<^sup>*\<^sup>* s s' \<Longrightarrow> inv s \<Longrightarrow> inv s'"
  by (induction rule: rtranclp_induct) (auto intro: inv_step)

lemma issued_steps: "step\<^sup>*\<^sup>* s s' \<Longrightarrow> issued s h \<Longrightarrow> issued s' h"
  by (induction rule: rtranclp_induct) (auto intro: issued_step)

lemma retired_stays:
  assumes "step\<^sup>*\<^sup>* s s'" "inv s" "issued s h" "\<not> alive s h"
  shows "\<not> alive s' h"
  using assms
proof (induction rule: rtranclp_induct)
  case (step s1 s2)
  then show ?case using no_revival inv_steps issued_steps by blast
qed simp

lemma retired_unrouted:
  assumes "step\<^sup>*\<^sup>* s s'" "inv s" "issued s h" "\<not> alive s h"
  shows "\<not> routed s' k h"
  using retired_stays [OF assms] inv_steps [OF assms(1,2)] routed_alive by blast

end

section \<open>Preservation\<close>

lemma retain_Some: "retain keep m k = Some v \<longleftrightarrow> m k = Some v \<and> keep k v"
  by (auto simp: retain_def split: option.splits)

lemma registry_inv_new: "registry_inv ({}, registry_new)"
  by (simp add: registry_inv_def registry_new_def)

lemma unat_next_session_id:
  "n < u64_max \<Longrightarrow> unat (saturating_add_u64 n 1) = unat n + 1"
  unfolding unat_saturating_add_u64 by (simp add: word_less_nat_alt)

lemma register_session_sessions:
  assumes "register_session c ip tx r = (h, r')"
  shows "h = \<lparr>sh_session_id = rg_next_session_id r, sh_client_id = c, sh_assigned_ipv4 = ip, sh_tx = tx\<rparr>"
    and "rg_sessions r' = (rg_sessions r)(c \<mapsto> h)"
    and "rg_next_session_id r' = saturating_add_u64 (rg_next_session_id r) 1"
    and "rg_ip_routes r' ip' = Some h' \<Longrightarrow>
           ip' = ip \<and> h' = h \<or> ip' \<noteq> ip \<and> rg_ip_routes r ip' = Some h' \<and>
           (\<forall>old. rg_sessions r c = Some old \<longrightarrow> sh_assigned_ipv4 old \<noteq> ip')"
    and "rg_cid_routes r' p = Some rt \<Longrightarrow>
           rg_cid_routes r p = Some rt \<and>
           (\<forall>old. rg_sessions r c = Some old \<longrightarrow> cr_session_id rt \<noteq> sh_session_id old)"
  using assms
  by (auto simp: register_session_def Let_def retain_Some split: option.splits if_splits)

lemma registry_invI:
  assumes "\<And>h. h \<in> I \<Longrightarrow> sh_session_id h < rg_next_session_id r" "inj_on sh_session_id I"
    and "\<And>c h. rg_sessions r c = Some h \<Longrightarrow> h \<in> I \<and> sh_client_id h = c"
    and "\<And>ip h. rg_ip_routes r ip = Some h \<Longrightarrow> sh_assigned_ipv4 h = ip \<and> live (I, r) h"
    and "\<And>p rt. rg_cid_routes r p = Some rt \<Longrightarrow>
           \<exists>h. live (I, r) h \<and> rt = \<lparr>cr_session_id = sh_session_id h, cr_tx = sh_tx h\<rparr>"
  shows "registry_inv (I, r)"
  using assms by (simp add: registry_inv_def)

lemma registry_invD:
  assumes "registry_inv (I, r)"
  shows "h \<in> I \<Longrightarrow> sh_session_id h < rg_next_session_id r" "inj_on sh_session_id I"
    and "rg_sessions r c = Some h \<Longrightarrow> h \<in> I \<and> sh_client_id h = c"
    and "rg_ip_routes r ip = Some h \<Longrightarrow> sh_assigned_ipv4 h = ip \<and> live (I, r) h"
    and "rg_cid_routes r p = Some rt \<Longrightarrow>
           \<exists>h. live (I, r) h \<and> rt = \<lparr>cr_session_id = sh_session_id h, cr_tx = sh_tx h\<rparr>"
  using assms by (auto simp: registry_inv_def)

lemma live_issued: "registry_inv (I, r) \<Longrightarrow> live (I, r) h \<Longrightarrow> h \<in> I"
  by (auto simp: live_def dest: registry_invD(3))

lemma same_session:
  "registry_inv (I, r) \<Longrightarrow> h \<in> I \<Longrightarrow> h' \<in> I \<Longrightarrow> sh_session_id h = sh_session_id h' \<Longrightarrow> h = h'"
  using registry_invD(2) inj_onD by metis

lemma registry_inv_register:
  assumes inv: "registry_inv (I, r)" and reg: "register_session c ip tx r = (h, r')"
    and lt: "rg_next_session_id r < u64_max"
  shows "registry_inv (insert h I, r')"
proof -
  note R = register_session_sessions [OF reg]
  have next': "unat (rg_next_session_id r') = unat (rg_next_session_id r) + 1"
    using R(3) unat_next_session_id [OF lt] by simp
  have older: "sh_session_id h' < sh_session_id h" if "h' \<in> I" for h'
    using registry_invD(1) [OF inv that] R(1) by simp
  have keep: "live (insert h I, r') h'" if "live (I, r) h'" "rg_sessions r c \<noteq> Some h'" for h'
    using that unfolding live_def snd_conv R(2) by (cases "sh_client_id h' = c") auto
  show ?thesis
  proof (rule registry_invI)
    fix h' assume "h' \<in> insert h I"
    then have "sh_session_id h' \<le> rg_next_session_id r"
      using registry_invD(1) [OF inv, of h'] R(1) by (cases "h' = h") auto
    then have "unat (sh_session_id h') \<le> unat (rg_next_session_id r)" by (simp add: word_le_nat_alt)
    then show "sh_session_id h' < rg_next_session_id r'" by (simp add: word_less_nat_alt next')
  next
    show "inj_on sh_session_id (insert h I)"
      unfolding inj_on_insert using registry_invD(2) [OF inv] older by (metis Diff_iff imageE less_irrefl)
  next
    fix c' h' assume "rg_sessions r' c' = Some h'"
    then show "h' \<in> insert h I \<and> sh_client_id h' = c'"
      using R(1,2) registry_invD(3) [OF inv, of c' h'] by (cases "c' = c") auto
  next
    fix ip' h' assume "rg_ip_routes r' ip' = Some h'"
    from R(4) [OF this] show "sh_assigned_ipv4 h' = ip' \<and> live (insert h I, r') h'"
    proof
      assume "ip' = ip \<and> h' = h"
      then show ?thesis using R(1,2) by (simp add: live_def)
    next
      assume a: "ip' \<noteq> ip \<and> rg_ip_routes r ip' = Some h' \<and>
        (\<forall>old. rg_sessions r c = Some old \<longrightarrow> sh_assigned_ipv4 old \<noteq> ip')"
      then have "sh_assigned_ipv4 h' = ip'" "live (I, r) h'" using registry_invD(4) [OF inv, of ip' h'] by simp_all
      with a keep show ?thesis by blast
    qed
  next
    fix p rt assume "rg_cid_routes r' p = Some rt"
    note rt = R(5) [OF this]
    then obtain h' where h': "live (I, r) h'" "rt = \<lparr>cr_session_id = sh_session_id h', cr_tx = sh_tx h'\<rparr>"
      using registry_invD(5) [OF inv, of p rt] by blast
    then have "rg_sessions r c \<noteq> Some h'" using rt by auto
    with h' keep show "\<exists>h'. live (insert h I, r') h' \<and>
        rt = \<lparr>cr_session_id = sh_session_id h', cr_tx = sh_tx h'\<rparr>"
      by blast
  qed
qed

lemma registry_inv_new_cids:
  assumes inv: "registry_inv (I, r)"
    and cids: "\<And>p rt. m p = Some rt \<Longrightarrow> rg_cid_routes r p = Some rt \<or>
      (\<exists>h. live (I, r) h \<and> rt = \<lparr>cr_session_id = sh_session_id h, cr_tx = sh_tx h\<rparr>)"
  shows "registry_inv (I, r\<lparr>rg_cid_routes := m\<rparr>)"
proof (rule registry_invI)
  have live: "live (I, r\<lparr>rg_cid_routes := m\<rparr>) h \<longleftrightarrow> live (I, r) h" for h
    by (simp add: live_def)
  show "sh_assigned_ipv4 h = ip \<and> live (I, r\<lparr>rg_cid_routes := m\<rparr>) h"
    if "rg_ip_routes (r\<lparr>rg_cid_routes := m\<rparr>) ip = Some h" for ip h
    using registry_invD(4) [OF inv, of ip h] that live by simp
  show "\<exists>h. live (I, r\<lparr>rg_cid_routes := m\<rparr>) h \<and> rt = \<lparr>cr_session_id = sh_session_id h, cr_tx = sh_tx h\<rparr>"
    if "rg_cid_routes (r\<lparr>rg_cid_routes := m\<rparr>) p = Some rt" for p rt
    using cids [of p rt] that registry_invD(5) [OF inv, of p rt] unfolding live by auto
qed (use registry_invD(1-3) [OF inv] in simp_all)

lemma registry_inv_retain:
  "registry_inv (I, r) \<Longrightarrow> registry_inv (I, r\<lparr>rg_cid_routes := retain keep (rg_cid_routes r)\<rparr>)"
  by (rule registry_inv_new_cids) (simp_all add: retain_Some)

lemma registry_inv_insert_cid:
  assumes inv: "registry_inv (I, r)" "h \<in> I"
    and ins: "insert_cid (sh_client_id h) (sh_session_id h) p (sh_tx h) r = (r', res)"
  shows "registry_inv (I, r')"
proof (cases res)
  case (Inl e)
  then have "r' = r" using ins by (auto simp: insert_cid_def Let_def split: if_splits)
  with inv show ?thesis by simp
next
  case (Inr u)
  then have active: "map_option sh_session_id (rg_sessions r (sh_client_id h)) = Some (sh_session_id h)"
    and r': "r' = r\<lparr>rg_cid_routes := (rg_cid_routes r)(p \<mapsto>
               \<lparr>cr_session_id = sh_session_id h, cr_tx = sh_tx h\<rparr>)\<rparr>"
    using ins by (auto simp: insert_cid_def Let_def split: if_splits)
  have "live (I, r) h"
  proof (cases "rg_sessions r (sh_client_id h)")
    case (Some h')
    then have "h' = h"
      using active registry_invD(3) [OF inv(1) Some] same_session [OF inv(1) _ inv(2), of h'] by simp
    with Some show ?thesis by (simp add: live_def)
  qed (use active in simp)
  then show ?thesis
    unfolding r' by (intro registry_inv_new_cids [OF inv(1)]) (auto split: if_splits)
qed

lemma registry_inv_remove:
  assumes inv: "registry_inv (I, r)" "h \<in> I"
  shows "registry_inv (I, remove_session (sh_session_id h) (sh_client_id h) (sh_assigned_ipv4 h) r)"
proof -
  let ?r' = "remove_session (sh_session_id h) (sh_client_id h) (sh_assigned_ipv4 h) r"
  have owned: "owned_by (sh_session_id h) m \<longleftrightarrow> m = Some h" if "\<And>h'. m = Some h' \<Longrightarrow> h' \<in> I" for m
  proof (cases m)
    case (Some h')
    then show ?thesis
      using that [OF Some] same_session [OF inv(1) _ inv(2), of h'] by (auto simp: owned_by_def)
  qed (simp add: owned_by_def)
  have s: "owned_by (sh_session_id h) (rg_sessions r c) \<longleftrightarrow> rg_sessions r c = Some h" for c
    using registry_invD(3) [OF inv(1), of c] by (intro owned) simp
  have i: "owned_by (sh_session_id h) (rg_ip_routes r ip) \<longleftrightarrow> rg_ip_routes r ip = Some h" for ip
    using registry_invD(4) [OF inv(1), of ip] live_issued [OF inv(1)] by (intro owned) simp
  have s': "rg_sessions ?r' = (if rg_sessions r (sh_client_id h) = Some h
      then (rg_sessions r)(sh_client_id h := None) else rg_sessions r)"
    using s [of "sh_client_id h"] by (simp add: remove_session_def Let_def)
  have i': "rg_ip_routes ?r' = (if rg_ip_routes r (sh_assigned_ipv4 h) = Some h
      then (rg_ip_routes r)(sh_assigned_ipv4 h := None) else rg_ip_routes r)"
    using i [of "sh_assigned_ipv4 h"] by (simp add: remove_session_def Let_def)
  have sessions: "rg_sessions ?r' c = (if rg_sessions r c = Some h then None else rg_sessions r c)" for c
    using registry_invD(3) [OF inv(1), of c h] by (cases "c = sh_client_id h") (auto simp: s')
  have ips: "rg_ip_routes ?r' ip = (if rg_ip_routes r ip = Some h then None else rg_ip_routes r ip)" for ip
    using registry_invD(4) [OF inv(1), of ip h] by (cases "ip = sh_assigned_ipv4 h") (auto simp: i')
  have cids: "rg_cid_routes ?r' p = Some rt \<longleftrightarrow>
      rg_cid_routes r p = Some rt \<and> cr_session_id rt \<noteq> sh_session_id h" for p rt
    by (auto simp: remove_session_def Let_def retain_Some)
  have keep: "live (I, ?r') h'" if "live (I, r) h'" "h' \<noteq> h" for h'
    using that by (simp add: live_def sessions)
  have nxt: "rg_next_session_id ?r' = rg_next_session_id r"
    by (simp add: remove_session_def Let_def)
  show ?thesis
  proof (rule registry_invI)
    fix c h' assume "rg_sessions ?r' c = Some h'"
    then show "h' \<in> I \<and> sh_client_id h' = c"
      using registry_invD(3) [OF inv(1), of c h'] by (auto simp: sessions split: if_splits)
  next
    fix ip h' assume "rg_ip_routes ?r' ip = Some h'"
    then show "sh_assigned_ipv4 h' = ip \<and> live (I, ?r') h'"
      using registry_invD(4) [OF inv(1), of ip h'] keep [of h'] by (auto simp: ips split: if_splits)
  next
    fix p rt assume "rg_cid_routes ?r' p = Some rt"
    then have rt: "rg_cid_routes r p = Some rt" "cr_session_id rt \<noteq> sh_session_id h"
      unfolding cids by simp_all
    then obtain h' where h': "live (I, r) h'" "rt = \<lparr>cr_session_id = sh_session_id h', cr_tx = sh_tx h'\<rparr>"
      using registry_invD(5) [OF inv(1), of p rt] by blast
    then have "h' \<noteq> h" using rt(2) by auto
    with h' keep show "\<exists>h. live (I, ?r') h \<and> rt = \<lparr>cr_session_id = sh_session_id h, cr_tx = sh_tx h\<rparr>"
      by blast
  qed (use registry_invD(1,2) [OF inv(1)] nxt in auto)
qed

lemma registry_inv_step: "registry_inv s \<Longrightarrow> registry_step s s' \<Longrightarrow> registry_inv s'"
proof (erule registry_step.cases)
qed (simp_all add: registry_inv_register registry_inv_remove registry_inv_insert_cid
    registry_inv_retain remove_cids_for_session_def remove_cids_for_session_except_def)

lemma registry_issued_step: "registry_step s s' \<Longrightarrow> h \<in> fst s \<Longrightarrow> h \<in> fst s'"
  by (erule registry_step.cases) auto

text \<open>No operation makes a handle active that was issued and is not active.\<close>

lemma registry_no_revival:
  assumes "registry_inv s" "registry_step s s'" "h \<in> fst s" "live s' h"
  shows "live s h"
  using assms(2)
proof cases
  case (step_register c ip tx r h' r' I)
  note R = register_session_sessions [OF step_register(3)]
  have "h \<noteq> h'" using registry_invD(1) [of I r h] assms(1,3) step_register(1) R(1) by auto
  with assms(4) R(2) step_register(1,2) show ?thesis
    by (auto simp: live_def split: if_splits)
next
  case (step_remove h' I r)
  with assms(4) show ?thesis
    by (auto simp: live_def remove_session_def Let_def split: if_splits)
next
  case (step_insert h' I p r r' res)
  then have "rg_sessions r' = rg_sessions r"
    by (auto simp: insert_cid_def Let_def split: if_splits)
  with assms(4) step_insert(1,2) show ?thesis by (simp add: live_def)
qed (use assms(4) in \<open>simp_all add: live_def remove_cids_for_session_def
    remove_cids_for_session_except_def\<close>)

lemma cid_routed_live:
  assumes "registry_inv s" "cid_routed s p h"
  shows "live s h"
proof -
  obtain I r where s: "s = (I, r)" by (cases s)
  obtain h' where h': "live s h'" "sh_session_id h' = sh_session_id h"
    using registry_invD(5) [of I r p] assms s by (force simp: cid_routed_def)
  then have "h' = h"
    using same_session [of I r h' h] live_issued [of I r h'] assms s by (simp add: cid_routed_def)
  with h' show ?thesis by simp
qed

lemma ip_routed_live: "registry_inv s \<Longrightarrow> ip_routed s ip h \<Longrightarrow> live s h"
  by (cases s) (auto simp: ip_routed_def dest: registry_invD(4))

interpretation cid_table: route_table registry_step registry_inv "\<lambda>s h. h \<in> fst s" live cid_routed
  by unfold_locales
    (auto intro: registry_inv_step registry_issued_step registry_no_revival cid_routed_live)

interpretation ip_table: route_table registry_step registry_inv "\<lambda>s h. h \<in> fst s" live ip_routed
  by unfold_locales
    (auto intro: registry_inv_step registry_issued_step registry_no_revival ip_routed_live)

lemma sample_registry_eq:
  "sample_registry = \<lparr>rg_next_session_id = 2, rg_sessions = [ClientId [1] \<mapsto> sample_handle 1 0],
     rg_ip_routes = [Ipv4Addr 10 0 0 2 \<mapsto> sample_handle 1 0], rg_cid_routes = Map.empty\<rparr>"
  by (simp add: sample_registry_def sample_handle_def register_session_def registry_new_def
      saturating_add_u64_def Let_def)

lemma sample_takeover_eq:
  "sample_takeover = \<lparr>rg_next_session_id = 3, rg_sessions = [ClientId [1] \<mapsto> sample_handle 2 1],
     rg_ip_routes = [Ipv4Addr 10 0 0 2 \<mapsto> sample_handle 2 1], rg_cid_routes = Map.empty\<rparr>"
  by (simp add: sample_takeover_def sample_registry_eq sample_handle_def register_session_def
      saturating_add_u64_def retain_def Let_def)

lemma sample_registry_step: "registry_step ({}, registry_new) ({sample_handle 1 0}, sample_registry)"
  by (rule step_register [of "ClientId [1]" "Ipv4Addr 10 0 0 2" 0])
    (simp_all add: sample_handle_def sample_registry_def register_session_def registry_new_def Let_def)

lemma sample_takeover_step:
  "registry_step ({sample_handle 1 0}, sample_registry)
     ({sample_handle 2 1, sample_handle 1 0}, sample_takeover)"
proof (rule step_register)
  show "register_session (ClientId [1]) (Ipv4Addr 10 0 0 2) 1 sample_registry =
      (sample_handle 2 1, sample_takeover)"
    unfolding sample_takeover_eq sample_registry_eq
    by (simp add: sample_handle_def register_session_def saturating_add_u64_def retain_def Let_def)
qed (simp add: sample_registry_eq)

lemmas sample_registry_reach = r_into_rtranclp [where r = registry_step, OF sample_registry_step]
lemmas sample_takeover_reach =
  rtranclp.rtrancl_into_rtrancl [OF sample_registry_reach sample_takeover_step]

section \<open>Properties\<close>

text \<open>C10: In every registry the server can reach, a connection-ID prefix and an address are routed
  only to the channel of a session that is the active session of its client, and the address is
  the one assigned to that session.\<close>

theorem registry_routes_active:
  assumes "registry_step\<^sup>*\<^sup>* ({}, registry_new) (I, r)"
  shows "(\<forall>p tx. lookup_cid p r = Some tx \<longrightarrow>
            (\<exists>h \<in> I. rg_sessions r (sh_client_id h) = Some h \<and> sh_tx h = tx)) \<and>
         (\<forall>ip tx. lookup_ip ip r = Some tx \<longrightarrow>
            (\<exists>h \<in> I. rg_sessions r (sh_client_id h) = Some h \<and> sh_tx h = tx \<and> sh_assigned_ipv4 h = ip))"
proof -
  have inv: "registry_inv (I, r)" using assms registry_inv_new by (rule cid_table.inv_steps)
  show ?thesis
  proof (intro conjI allI impI)
    fix p tx assume "lookup_cid p r = Some tx"
    then show "\<exists>h \<in> I. rg_sessions r (sh_client_id h) = Some h \<and> sh_tx h = tx"
      using registry_invD(5) [OF inv, of p] live_issued [OF inv]
      by (force simp: lookup_cid_def live_def)
  next
    fix ip tx assume "lookup_ip ip r = Some tx"
    then show "\<exists>h \<in> I. rg_sessions r (sh_client_id h) = Some h \<and> sh_tx h = tx \<and> sh_assigned_ipv4 h = ip"
      using registry_invD(4) [OF inv, of ip] live_issued [OF inv]
      by (force simp: lookup_ip_def live_def)
  qed
qed

theorem registry_routes_active_witness:
  "lookup_ip (Ipv4Addr 10 0 0 2) sample_registry = Some 0 \<and>
   (\<exists>h \<in> {sample_handle 1 0}. rg_sessions sample_registry (sh_client_id h) = Some h \<and> sh_tx h = 0 \<and>
      sh_assigned_ipv4 h = Ipv4Addr 10 0 0 2)"
proof -
  have "lookup_ip (Ipv4Addr 10 0 0 2) sample_registry = Some 0"
    by (simp add: lookup_ip_def sample_registry_eq sample_handle_def)
  then show ?thesis using registry_routes_active [OF sample_registry_reach] by auto
qed

text \<open>C11: Taking over a client identity cuts the old session off for good: once a session that was
  issued a handle is not the active session of its client any more, no later operation routes a
  prefix or an address to it, and its own attempts to register a connection ID fail as stale.\<close>

theorem retired_session_unreachable:
  assumes "registry_step\<^sup>*\<^sup>* ({}, registry_new) (I, r)" "h \<in> I"
    and "rg_sessions r (sh_client_id h) \<noteq> Some h"
    and "registry_step\<^sup>*\<^sup>* (I, r) (I', r')"
  shows "\<not> cid_routed (I', r') p h \<and> \<not> ip_routed (I', r') ip h \<and>
         insert_cid (sh_client_id h) (sh_session_id h) q tx r' =
           (r', Err (StaleSession (sh_client_id h) (sh_session_id h)
                  (map_option sh_session_id (rg_sessions r' (sh_client_id h)))))"
proof -
  have inv: "registry_inv (I, r)" using assms(1) registry_inv_new by (rule cid_table.inv_steps)
  have dead: "\<not> live (I, r) h" using assms(3) by (simp add: live_def)
  have inv': "registry_inv (I', r')" using assms(4) inv by (rule cid_table.inv_steps)
  have h: "h \<in> I'" using cid_table.issued_steps [OF assms(4)] assms(2) by simp
  have dead': "\<not> live (I', r') h" using cid_table.retired_stays [OF assms(4) inv _ dead] assms(2) by simp
  have "map_option sh_session_id (rg_sessions r' (sh_client_id h)) \<noteq> Some (sh_session_id h)"
  proof
    assume "map_option sh_session_id (rg_sessions r' (sh_client_id h)) = Some (sh_session_id h)"
    then obtain h' where h': "rg_sessions r' (sh_client_id h) = Some h'" "sh_session_id h' = sh_session_id h"
      by auto
    then have "h' = h" using same_session [OF inv' _ h] registry_invD(3) [OF inv' h'(1)] by blast
    with h'(1) dead' show False by (simp add: live_def)
  qed
  then show ?thesis
    using cid_table.retired_unrouted [OF assms(4) inv _ dead] ip_table.retired_unrouted [OF assms(4) inv _ dead]
      assms(2)
    by (simp add: insert_cid_def Let_def)
qed

theorem retired_session_unreachable_witness:
  "\<not> ip_routed ({sample_handle 2 1, sample_handle 1 0}, sample_takeover) (Ipv4Addr 10 0 0 2)
       (sample_handle 1 0) \<and>
   insert_cid (ClientId [1]) 1 (CidPrefix [9]) 0 sample_takeover =
     (sample_takeover, Err (StaleSession (ClientId [1]) 1 (Some 2)))"
proof -
  have "rg_sessions sample_takeover (ClientId [1]) = Some (sample_handle 2 1)"
    by (simp add: sample_takeover_eq)
  then show ?thesis
    using retired_session_unreachable [OF sample_takeover_reach _ _ rtranclp.rtrancl_refl,
        of "sample_handle 1 0" "CidPrefix [9]" "Ipv4Addr 10 0 0 2" "CidPrefix [9]" 0]
    by (simp add: sample_handle_def)
qed

end
