(* ===== verification/Session_Monad.thy ===== *)
theory Session_Monad
  imports Slt_Prelude
begin

text \<open>
  What the two session state machines share: operating-system error kinds and socket addresses,
  and state-passing computations that may fail.  A failing Rust method keeps the changes it made
  to \<open>self\<close> before it returned, so a computation gives a state in either case and a
  failure ends the sequence (\<open>?\<close>).  The triples \<open>hoare P m Q E\<close> state what holds after success and
  after failure; their rules are collected in \<open>wp\<close>.
\<close>

text \<open>The kinds of \<open>std::io::Error\<close> the sources construct or inspect.\<close>

datatype io_kind =
    KConnectionAborted | KTimedOut | KNotConnected | KBrokenPipe | KWouldBlock | KConnectionRefused
  | KConnectionReset | KPermissionDenied | KInvalidInput | KInvalidData | KNetworkUnreachable | KOther

datatype socket_addr = SocketAddr bytes u16

text \<open>How a write to the TLS stream under a deadline ends.\<close>

datatype write_outcome = WriteDone | WriteFailed io_kind | WriteTimedOut

section \<open>Computations\<close>

type_synonym ('s, 'a, 'e) comp = "'s \<Rightarrow> 's \<times> ('a, 'e) result"

definition sreturn :: "'a \<Rightarrow> ('s, 'a, 'e) comp" where
  "sreturn a = (\<lambda>s. (s, Ok a))"

definition sfail :: "'e \<Rightarrow> ('s, 'a, 'e) comp" where
  "sfail e = (\<lambda>s. (s, Err e))"

definition slift :: "('a, 'e) result \<Rightarrow> ('s, 'a, 'e) comp" where
  "slift r = (\<lambda>s. (s, r))"

definition smodify :: "('s \<Rightarrow> 's) \<Rightarrow> ('s, unit, 'e) comp" where
  "smodify f = (\<lambda>s. (f s, Ok ()))"

text \<open>Continue with a value read from the state.\<close>

definition swith :: "('s \<Rightarrow> 'a) \<Rightarrow> ('a \<Rightarrow> ('s, 'b, 'e) comp) \<Rightarrow> ('s, 'b, 'e) comp" where
  "swith f k = (\<lambda>s. k (f s) s)"

text \<open>The \<open>?\<close> operator.\<close>

definition sbind :: "('s, 'a, 'e) comp \<Rightarrow> ('a \<Rightarrow> ('s, 'b, 'e) comp) \<Rightarrow> ('s, 'b, 'e) comp" where
  "sbind m k = (\<lambda>s. case m s of (s', Inl e) \<Rightarrow> (s', Err e) | (s', Inr a) \<Rightarrow> k a s')"

definition sseq :: "('s, unit, 'e) comp \<Rightarrow> ('s, 'b, 'e) comp \<Rightarrow> ('s, 'b, 'e) comp" where
  "sseq m k = sbind m (\<lambda>_. k)"

text \<open>A \<open>match\<close> on the result of a call.\<close>

definition smatch ::
    "('s, 'a, 'e) comp \<Rightarrow> ('e \<Rightarrow> ('s, 'b, 'f) comp) \<Rightarrow> ('a \<Rightarrow> ('s, 'b, 'f) comp) \<Rightarrow> ('s, 'b, 'f) comp" where
  "smatch m err ok = (\<lambda>s. case m s of (s', Inl e) \<Rightarrow> err e s' | (s', Inr a) \<Rightarrow> ok a s')"

text \<open>For evaluating a computation.\<close>

lemmas monad_simps = sreturn_def sfail_def slift_def smodify_def swith_def sbind_def sseq_def smatch_def

section \<open>Triples\<close>

definition hoare ::
    "('s \<Rightarrow> bool) \<Rightarrow> ('s, 'a, 'e) comp \<Rightarrow> ('a \<Rightarrow> 's \<Rightarrow> bool) \<Rightarrow> ('e \<Rightarrow> 's \<Rightarrow> bool) \<Rightarrow> bool" where
  "hoare P m Q E \<longleftrightarrow>
     (\<forall>s. P s \<longrightarrow> (case m s of (s', Inl e) \<Rightarrow> E e s' | (s', Inr a) \<Rightarrow> Q a s'))"

named_theorems wp \<open>rules of the triples\<close>

lemma hoareI:
  "(\<And>s s' a. P s \<Longrightarrow> m s = (s', Ok a) \<Longrightarrow> Q a s') \<Longrightarrow>
   (\<And>s s' e. P s \<Longrightarrow> m s = (s', Err e) \<Longrightarrow> E e s') \<Longrightarrow> hoare P m Q E"
  by (auto simp: hoare_def split: prod.split sum.split)

lemma hoareD_Ok: "hoare P m Q E \<Longrightarrow> P s \<Longrightarrow> m s = (s', Ok a) \<Longrightarrow> Q a s'"
  by (auto simp: hoare_def split: prod.splits sum.splits)

lemma hoareD_Err: "hoare P m Q E \<Longrightarrow> P s \<Longrightarrow> m s = (s', Err e) \<Longrightarrow> E e s'"
  by (auto simp: hoare_def split: prod.splits sum.splits)

lemma hoare_weaken:
  "hoare P' m Q' E' \<Longrightarrow> (\<And>s. P s \<Longrightarrow> P' s) \<Longrightarrow> (\<And>a s. Q' a s \<Longrightarrow> Q a s) \<Longrightarrow>
   (\<And>e s. E' e s \<Longrightarrow> E e s) \<Longrightarrow> hoare P m Q E"
  by (fastforce simp: hoare_def split: prod.splits sum.splits)

lemma hoare_pre: "hoare P' m Q E \<Longrightarrow> (\<And>s. P s \<Longrightarrow> P' s) \<Longrightarrow> hoare P m Q E"
  by (auto simp: hoare_def)

lemma hoare_return [wp]: "hoare (Q a) (sreturn a) Q E"
  by (simp add: hoare_def sreturn_def)

lemma hoare_fail [wp]: "hoare (E e) (sfail e) Q E"
  by (simp add: hoare_def sfail_def)

lemma hoare_lift [wp]:
  "hoare (\<lambda>s. (\<forall>a. r = Ok a \<longrightarrow> Q a s) \<and> (\<forall>e. r = Err e \<longrightarrow> E e s)) (slift r) Q E"
  by (auto simp: hoare_def slift_def split: sum.splits)

lemma hoare_modify [wp]: "hoare (\<lambda>s. Q () (f s)) (smodify f) Q E"
  by (simp add: hoare_def smodify_def)

lemma hoare_with [wp]:
  "(\<And>a. hoare (P a) (k a) Q E) \<Longrightarrow> hoare (\<lambda>s. P (f s) s) (swith f k) Q E"
  by (simp add: hoare_def swith_def)

lemma hoare_bind [wp]:
  assumes "\<And>a. hoare (R a) (k a) Q E" "hoare P m R E"
  shows "hoare P (sbind m k) Q E"
  using assms by (fastforce simp: hoare_def sbind_def split: prod.splits sum.splits)

lemma hoare_seq [wp]: "hoare R k Q E \<Longrightarrow> hoare P m (\<lambda>_. R) E \<Longrightarrow> hoare P (sseq m k) Q E"
  unfolding sseq_def by (rule hoare_bind)

lemma hoare_match [wp]:
  assumes "\<And>a. hoare (R a) (ok a) Q E" "\<And>e. hoare (F e) (err e) Q E" "hoare P m R F"
  shows "hoare P (smatch m err ok) Q E"
  using assms by (fastforce simp: hoare_def smatch_def split: prod.splits sum.splits)

lemma hoare_if [wp]:
  "(c \<Longrightarrow> hoare P1 m1 Q E) \<Longrightarrow> (\<not> c \<Longrightarrow> hoare P2 m2 Q E) \<Longrightarrow>
   hoare (\<lambda>s. (c \<longrightarrow> P1 s) \<and> (\<not> c \<longrightarrow> P2 s)) (if c then m1 else m2) Q E"
  by (auto simp: hoare_def)

lemma hoare_option [wp]:
  "(\<And>a. hoare (P a) (f a) Q E) \<Longrightarrow> hoare P0 m Q E \<Longrightarrow>
   hoare (\<lambda>s. (\<forall>a. opt = Some a \<longrightarrow> P a s) \<and> (opt = None \<longrightarrow> P0 s))
     (case opt of None \<Rightarrow> m | Some a \<Rightarrow> f a) Q E"
  by (cases opt) (simp_all add: hoare_def)

lemma hoare_result [wp]:
  "(\<And>a. hoare (P a) (ok a) Q E) \<Longrightarrow> (\<And>e. hoare (F e) (err e) Q E) \<Longrightarrow>
   hoare (\<lambda>s. (\<forall>a. r = Inr a \<longrightarrow> P a s) \<and> (\<forall>e. r = Inl e \<longrightarrow> F e s))
     (case r of Inl e \<Rightarrow> err e | Inr a \<Rightarrow> ok a) Q E"
  by (cases r) (simp_all add: hoare_def)

lemma hoare_conj:
  "hoare P m Q E \<Longrightarrow> hoare P' m Q' E' \<Longrightarrow>
   hoare (\<lambda>s. P s \<and> P' s) m (\<lambda>a s. Q a s \<and> Q' a s) (\<lambda>e s. E e s \<and> E' e s)"
  by (fastforce simp: hoare_def split: prod.splits sum.splits)

text \<open>The same rules for a given precondition.\<close>

lemma returns: "(\<And>s. P s \<Longrightarrow> Q a s) \<Longrightarrow> hoare P (sreturn a) Q E"
  by (simp add: hoare_def sreturn_def)

lemma fails: "(\<And>s. P s \<Longrightarrow> E e s) \<Longrightarrow> hoare P (sfail e) Q E"
  by (simp add: hoare_def sfail_def)

lemma modifies: "(\<And>s. P s \<Longrightarrow> Q () (f s)) \<Longrightarrow> hoare P (smodify f) Q E"
  by (simp add: hoare_def smodify_def)

lemma lifts:
  "(\<And>a s. r = Inr a \<Longrightarrow> P s \<Longrightarrow> Q a s) \<Longrightarrow> (\<And>e s. r = Inl e \<Longrightarrow> P s \<Longrightarrow> E e s) \<Longrightarrow> hoare P (slift r) Q E"
  by (cases r) (simp_all add: hoare_def slift_def)

lemma reads: "(\<And>a. hoare (\<lambda>s. P s \<and> f s = a) (k a) Q E) \<Longrightarrow> hoare P (swith f k) Q E"
  by (simp add: hoare_def swith_def)

lemma seqs: "hoare P m (\<lambda>_. R) E \<Longrightarrow> hoare R k Q E \<Longrightarrow> hoare P (sseq m k) Q E"
  by (rule hoare_seq)

lemma binds: "hoare P m R E \<Longrightarrow> (\<And>a. hoare (R a) (k a) Q E) \<Longrightarrow> hoare P (sbind m k) Q E"
  by (rule hoare_bind)

lemma lift_binds:
  "(\<And>e s. r = Inl e \<Longrightarrow> P s \<Longrightarrow> E e s) \<Longrightarrow> (\<And>a. r = Inr a \<Longrightarrow> hoare P (k a) Q E) \<Longrightarrow>
   hoare P (sbind (slift r) k) Q E"
  by (cases r) (simp_all add: hoare_def sbind_def slift_def)

lemma lift_seqs:
  "(\<And>e s. r = Inl e \<Longrightarrow> P s \<Longrightarrow> E e s) \<Longrightarrow> (r = Inr () \<Longrightarrow> hoare P k Q E) \<Longrightarrow>
   hoare P (sseq (slift r) k) Q E"
  by (cases r) (simp_all add: hoare_def sseq_def sbind_def slift_def)

lemma chooses:
  "(c \<Longrightarrow> hoare P m1 Q E) \<Longrightarrow> (\<not> c \<Longrightarrow> hoare P m2 Q E) \<Longrightarrow> hoare P (if c then m1 else m2) Q E"
  by simp

lemma option_cases:
  "(opt = None \<Longrightarrow> hoare P m Q E) \<Longrightarrow> (\<And>a. opt = Some a \<Longrightarrow> hoare P (f a) Q E) \<Longrightarrow>
   hoare P (case opt of None \<Rightarrow> m | Some a \<Rightarrow> f a) Q E"
  by (cases opt) simp_all

lemma result_cases:
  "(\<And>e. r = Inl e \<Longrightarrow> hoare P (err e) Q E) \<Longrightarrow> (\<And>a. r = Inr a \<Longrightarrow> hoare P (ok a) Q E) \<Longrightarrow>
   hoare P (case r of Inl e \<Rightarrow> err e | Inr a \<Rightarrow> ok a) Q E"
  by (cases r) simp_all

section \<open>Invariants\<close>

text \<open>A property of the state that a computation keeps, whether it succeeds or fails, and a
  property of the errors it fails with.\<close>

abbreviation keeps :: "('s \<Rightarrow> bool) \<Rightarrow> ('e \<Rightarrow> bool) \<Rightarrow> ('s, 'a, 'e) comp \<Rightarrow> bool" where
  "keeps I F m \<equiv> hoare I m (\<lambda>_. I) (\<lambda>e s. I s \<and> F e)"

named_theorems keep \<open>computations that keep an invariant\<close>

lemma keeps_return [keep]: "keeps I F (sreturn a)"
  by (rule hoare_return)

lemma keeps_fail [keep]: "F e \<Longrightarrow> keeps I F (sfail e)"
  by (rule hoare_pre [OF hoare_fail]) simp

lemma keeps_lift [keep]: "(\<And>e. r = Err e \<Longrightarrow> F e) \<Longrightarrow> keeps I F (slift r)"
  by (rule hoare_pre [OF hoare_lift]) simp

lemma keeps_modify: "(\<And>s. I s \<Longrightarrow> I (f s)) \<Longrightarrow> keeps I F (smodify f)"
  by (rule hoare_pre [OF hoare_modify])

lemma keeps_with [keep]: "(\<And>a. keeps I F (k a)) \<Longrightarrow> keeps I F (swith f k)"
  by (rule hoare_with)

lemma keeps_bind [keep]: "keeps I F m \<Longrightarrow> (\<And>a. keeps I F (k a)) \<Longrightarrow> keeps I F (sbind m k)"
  by (rule hoare_bind)

lemma keeps_seq [keep]: "keeps I F m \<Longrightarrow> keeps I F k \<Longrightarrow> keeps I F (sseq m k)"
  by (rule hoare_seq)

lemma keeps_match:
  "keeps I G m \<Longrightarrow> (\<And>e. G e \<Longrightarrow> keeps I F (err e)) \<Longrightarrow> (\<And>a. keeps I F (ok a)) \<Longrightarrow>
   keeps I F (smatch m err ok)"
  by (rule hoare_match [where F = "\<lambda>e s. I s \<and> G e"]) (auto simp: hoare_def)

lemma keeps_if [keep]:
  "(c \<Longrightarrow> keeps I F m1) \<Longrightarrow> (\<not> c \<Longrightarrow> keeps I F m2) \<Longrightarrow> keeps I F (if c then m1 else m2)"
  by simp

lemma keeps_option [keep]:
  "keeps I F m \<Longrightarrow> (\<And>a. opt = Some a \<Longrightarrow> keeps I F (f a)) \<Longrightarrow>
   keeps I F (case opt of None \<Rightarrow> m | Some a \<Rightarrow> f a)"
  by (cases opt) simp_all

lemma keeps_result [keep]:
  "(\<And>e. r = Inl e \<Longrightarrow> keeps I F (err e)) \<Longrightarrow> (\<And>a. r = Inr a \<Longrightarrow> keeps I F (ok a)) \<Longrightarrow>
   keeps I F (case r of Inl e \<Rightarrow> err e | Inr a \<Rightarrow> ok a)"
  by (cases r) simp_all

lemma keeps_state:
  "keeps I F m \<Longrightarrow> I s \<Longrightarrow> m s = (s', r) \<Longrightarrow> I s'"
  by (cases r) (auto dest: hoareD_Ok hoareD_Err)

lemma keeps_error: "keeps I F m \<Longrightarrow> I s \<Longrightarrow> m s = (s', Err e) \<Longrightarrow> F e"
  by (auto dest: hoareD_Err)

end
