(* ===== verification/Udp_Io.thy ===== *)
theory Udp_Io
  imports Session_Monad "HOL-Library.Sublist"
begin

text \<open>
  The UDP socket backends of \<open>slt-core/src/transport/udp_qsp_io.rs\<close>: \<open>UdpQspIo\<close>, which batches
  equal-sized packets into one segmented transmit and splits coalesced receives, and
  \<open>PlainUdpQspIo\<close>, which uses one datagram per packet.  The socket is a parameter: a state and
  a \<open>try_send\<close> (or \<open>send_to\<close>) on it, whose documented behaviour is \<open>gso_socket\<close> and
  \<open>plain_socket\<close>.  The results of successive receives are a list, and a receive that finds none
  left waits (\<open>None\<close>).  The number of segments the socket allows is fixed when a backend is made
  (the library may lower it later; the properties hold for every value), and the retries of a send
  that would block appear as the result of the last one.

  The locale \<open>session_io\<close> is the contract of the traits \<open>SessionIo\<close> and \<open>PeerUpdate\<close> that a
  session relies on: packets leave in order, none twice, and none that was accepted is lost.
\<close>

definition MAX_DATAGRAM :: nat where
  "MAX_DATAGRAM = 1500"

definition MAX_UDP_GSO_PAYLOAD :: nat where
  "MAX_UDP_GSO_PAYLOAD = 65535"

section \<open>Coalesced receives\<close>

text \<open>The iterator \<open>(0..len).step_by(stride)\<close>, with the end of each range.\<close>

function ranges_from :: "nat \<Rightarrow> nat \<Rightarrow> nat \<Rightarrow> (nat \<times> nat) list" where
  "ranges_from len stride off =
     (if off < len then (off, min (off + Suc stride) len) # ranges_from len stride (off + Suc stride)
      else [])"
  by pat_completeness auto

termination ranges_from
  by (relation "measure (\<lambda>(len, _, off). len - off)") auto

declare ranges_from.simps [simp del]

definition gro_datagram_ranges :: "nat \<Rightarrow> nat \<Rightarrow> (nat \<times> nat) list" where
  "gro_datagram_ranges len stride = (let stride = max stride 1 in ranges_from len (stride - 1) 0)"

text \<open>One received buffer: its sender, the stride and the bytes.\<close>

record recv_msg =
  rm_addr :: socket_addr
  rm_stride :: nat
  rm_buf :: bytes

definition gro_split :: "recv_msg \<Rightarrow> bytes list" where
  "gro_split m =
     map (\<lambda>(off, end). subslice off end (rm_buf m))
       (gro_datagram_ranges (length (rm_buf m)) (rm_stride m))"

definition queue_peer_datagrams :: "socket_addr \<Rightarrow> recv_msg list \<Rightarrow> bytes list \<Rightarrow> bytes list" where
  "queue_peer_datagrams peer batch queue =
     queue @ concat (map (\<lambda>m. if rm_addr m \<noteq> peer then [] else gro_split m) batch)"

section \<open>The batching backend\<close>

record transmit =
  tr_destination :: socket_addr
  tr_contents :: bytes
  tr_segment_size :: "nat option"

type_synonym 'k try_send = "'k \<Rightarrow> transmit \<Rightarrow> 'k \<times> (unit, io_kind) result"

record 'k udp_qsp_io =
  uq_sock :: 'k
  uq_max_gso_segments :: nat
  uq_peer :: socket_addr
  uq_send_buf :: bytes
  uq_send_segment_size :: "nat option"
  uq_send_segments :: nat
  uq_queue :: "bytes list"

definition udp_qsp_io_new :: "'k \<Rightarrow> nat \<Rightarrow> socket_addr \<Rightarrow> 'k udp_qsp_io" where
  "udp_qsp_io_new sock max_gso peer =
     \<lparr>uq_sock = sock, uq_max_gso_segments = max_gso, uq_peer = peer, uq_send_buf = [],
      uq_send_segment_size = None, uq_send_segments = 0, uq_queue = []\<rparr>"

definition udp_set_peer :: "'k udp_qsp_io \<Rightarrow> socket_addr \<Rightarrow> 'k udp_qsp_io" where
  "udp_set_peer io peer = io\<lparr>uq_peer := peer\<rparr>"

definition max_gso_segments_for_size :: "nat \<Rightarrow> nat \<Rightarrow> nat" where
  "max_gso_segments_for_size socket_max segment_size =
     (let socket_max = (if socket_max = 0 then 1 else socket_max);
          payload_max = MAX_UDP_GSO_PAYLOAD div segment_size
      in if payload_max < socket_max then payload_max else socket_max)"

definition must_flush_before_append :: "'k udp_qsp_io \<Rightarrow> nat \<Rightarrow> nat \<Rightarrow> bool" where
  "must_flush_before_append io segment_size max_segments =
     (if uq_send_segments io = 0 then False
      else uq_send_segment_size io \<noteq> Some segment_size \<or> max_segments \<le> uq_send_segments io)"

definition clear_send_slab :: "'k udp_qsp_io \<Rightarrow> 'k udp_qsp_io" where
  "clear_send_slab io = io\<lparr>uq_send_buf := [], uq_send_segment_size := None, uq_send_segments := 0\<rparr>"

text \<open>The transmit of a slab; a single packet carries no segment size.\<close>

definition slab_transmit :: "'k udp_qsp_io \<Rightarrow> transmit" where
  "slab_transmit io =
     \<lparr>tr_destination = uq_peer io, tr_contents = uq_send_buf io,
      tr_segment_size = (if 1 < uq_send_segments io then uq_send_segment_size io else None)\<rparr>"

definition flush_pending ::
    "'k try_send \<Rightarrow> 'k udp_qsp_io \<Rightarrow> 'k udp_qsp_io \<times> (unit, io_kind) result" where
  "flush_pending try_send io =
     (if uq_send_segments io = 0 then (io, Ok ())
      else case try_send (uq_sock io) (slab_transmit io) of
          (k, Inr _) \<Rightarrow> (clear_send_slab (io\<lparr>uq_sock := k\<rparr>), Ok ())
        | (k, Inl e) \<Rightarrow> (io\<lparr>uq_sock := k\<rparr>, Err e))"

text \<open>The append of \<open>send_packet\<close>, and the flush of a full slab.\<close>

definition append_packet ::
    "'k try_send \<Rightarrow> bytes \<Rightarrow> nat \<Rightarrow> 'k udp_qsp_io \<Rightarrow> 'k udp_qsp_io \<times> (unit, io_kind) result" where
  "append_packet try_send bs max_segments io =
     (let io = (if uq_send_segments io = 0 then io\<lparr>uq_send_segment_size := Some (length bs)\<rparr> else io);
          io = io\<lparr>uq_send_buf := uq_send_buf io @ bs, uq_send_segments := uq_send_segments io + 1\<rparr>
      in if max_segments \<le> uq_send_segments io then flush_pending try_send io else (io, Ok ()))"

definition udp_send_packet ::
    "'k try_send \<Rightarrow> 'k udp_qsp_io \<Rightarrow> bytes \<Rightarrow> 'k udp_qsp_io \<times> (unit, io_kind) result" where
  "udp_send_packet try_send io bs =
     (let segment_size = length bs in
      if segment_size = 0 then (io, Err KInvalidInput)
      else if MAX_UDP_GSO_PAYLOAD < segment_size then (io, Err KInvalidInput)
      else
        let max_segments = max_gso_segments_for_size (uq_max_gso_segments io) segment_size in
        if must_flush_before_append io segment_size max_segments then
          sbind (flush_pending try_send) (\<lambda>_. append_packet try_send bs max_segments) io
        else append_packet try_send bs max_segments io)"

definition udp_has_pending_flush :: "'k udp_qsp_io \<Rightarrow> bool" where
  "udp_has_pending_flush io \<longleftrightarrow> uq_send_segments io \<noteq> 0"

definition udp_discard_pending_send :: "'k udp_qsp_io \<Rightarrow> 'k udp_qsp_io \<times> nat" where
  "udp_discard_pending_send io = (clear_send_slab io, uq_send_segments io)"

type_synonym arrivals = "(recv_msg list, io_kind) result list"

fun udp_recv_packet ::
    "'k udp_qsp_io \<Rightarrow> nat \<Rightarrow> arrivals \<Rightarrow> ('k udp_qsp_io \<times> arrivals \<times> (bytes, io_kind) result) option" where
  "udp_recv_packet io buf_len arrivals =
     (case uq_queue io of
        datagram # queue \<Rightarrow>
          let io = io\<lparr>uq_queue := queue\<rparr> in
          if buf_len < length datagram then Some (io, arrivals, Err KInvalidData)
          else Some (io, arrivals, Ok datagram)
      | [] \<Rightarrow>
          (case arrivals of
             [] \<Rightarrow> None
           | Inl e # rest \<Rightarrow> Some (io, rest, Err e)
           | Inr batch # rest \<Rightarrow>
               udp_recv_packet (io\<lparr>uq_queue := queue_peer_datagrams (uq_peer io) batch []\<rparr>) buf_len rest))"

declare udp_recv_packet.simps [simp del]

section \<open>The plain backend\<close>

type_synonym 'k send_to = "'k \<Rightarrow> bytes \<Rightarrow> socket_addr \<Rightarrow> 'k \<times> (unit, io_kind) result"

record 'k plain_udp_qsp_io =
  pu_sock :: 'k
  pu_peer :: socket_addr

definition plain_udp_qsp_io_new :: "'k \<Rightarrow> socket_addr \<Rightarrow> 'k plain_udp_qsp_io" where
  "plain_udp_qsp_io_new sock peer = \<lparr>pu_sock = sock, pu_peer = peer\<rparr>"

definition plain_set_peer :: "'k plain_udp_qsp_io \<Rightarrow> socket_addr \<Rightarrow> 'k plain_udp_qsp_io" where
  "plain_set_peer io peer = io\<lparr>pu_peer := peer\<rparr>"

definition plain_send_packet ::
    "'k send_to \<Rightarrow> 'k plain_udp_qsp_io \<Rightarrow> bytes \<Rightarrow> 'k plain_udp_qsp_io \<times> (unit, io_kind) result" where
  "plain_send_packet send_to io bs =
     (if bs = [] then (io, Err KInvalidInput)
      else if MAX_DATAGRAM < length bs then (io, Err KInvalidInput)
      else case send_to (pu_sock io) bs (pu_peer io) of
          (k, Inl e) \<Rightarrow> (io\<lparr>pu_sock := k\<rparr>, Err e)
        | (k, Inr _) \<Rightarrow> (io\<lparr>pu_sock := k\<rparr>, Ok ()))"

definition plain_flush :: "'k plain_udp_qsp_io \<Rightarrow> 'k plain_udp_qsp_io \<times> (unit, io_kind) result" where
  "plain_flush io = (io, Ok ())"

definition plain_has_pending_flush :: "'k plain_udp_qsp_io \<Rightarrow> bool" where
  "plain_has_pending_flush io = False"

text \<open>The default method of the trait \<open>SessionIo\<close>.\<close>

definition default_discard_pending_send :: "'io \<Rightarrow> 'io \<times> nat" where
  "default_discard_pending_send io = (io, 0)"

text \<open>\<open>recv_from\<close> fills the receive buffer of \<open>MAX_DATAGRAM\<close> bytes and drops the rest of a longer
  datagram.\<close>

fun plain_recv_packet ::
    "'k plain_udp_qsp_io \<Rightarrow> nat \<Rightarrow> (bytes \<times> socket_addr, io_kind) result list \<Rightarrow>
     ((bytes \<times> socket_addr, io_kind) result list \<times> (bytes, io_kind) result) option" where
  "plain_recv_packet io buf_len [] = None"
| "plain_recv_packet io buf_len (Inl e # rest) = Some (rest, Err e)"
| "plain_recv_packet io buf_len (Inr (datagram, from) # rest) =
     (let recv_buf = take MAX_DATAGRAM datagram in
      if from \<noteq> pu_peer io then plain_recv_packet io buf_len rest
      else if buf_len < length recv_buf then Some (rest, Err KInvalidData)
      else Some (rest, Ok recv_buf))"

section \<open>The socket\<close>

text \<open>What the operating system does with a transmit: with a segment size, it cuts the contents
  into datagrams of that size.\<close>

fun chunks :: "nat \<Rightarrow> nat \<Rightarrow> 'a list \<Rightarrow> 'a list list" where
  "chunks 0 n xs = []"
| "chunks (Suc fuel) n xs = (if xs = [] then [] else take n xs # chunks fuel n (drop n xs))"

definition transmit_datagrams :: "transmit \<Rightarrow> (socket_addr \<times> bytes) list" where
  "transmit_datagrams t =
     map (Pair (tr_destination t))
       (case tr_segment_size t of
          None \<Rightarrow> [tr_contents t]
        | Some n \<Rightarrow> chunks (length (tr_contents t)) n (tr_contents t))"

definition gso_socket :: "'k try_send \<Rightarrow> ('k \<Rightarrow> (socket_addr \<times> bytes) list) \<Rightarrow> bool" where
  "gso_socket try_send wire \<longleftrightarrow>
     (\<forall>k t k'. try_send k t = (k', Ok ()) \<longrightarrow> wire k' = wire k @ transmit_datagrams t) \<and>
     (\<forall>k t k' e. try_send k t = (k', Err e) \<longrightarrow> wire k' = wire k)"

definition plain_socket :: "'k send_to \<Rightarrow> ('k \<Rightarrow> (socket_addr \<times> bytes) list) \<Rightarrow> bool" where
  "plain_socket send_to wire \<longleftrightarrow>
     (\<forall>k bs a k'. send_to k bs a = (k', Ok ()) \<longrightarrow> wire k' = wire k @ [(a, bs)]) \<and>
     (\<forall>k bs a k' e. send_to k bs a = (k', Err e) \<longrightarrow> wire k' = wire k)"

text \<open>Sockets that log what they send and fail when the next outcome says so.\<close>

type_synonym 'm log_socket = "'m list \<times> io_kind option list"

definition log_send :: "'m log_socket \<Rightarrow> 'm \<Rightarrow> 'm log_socket \<times> (unit, io_kind) result" where
  "log_send k m =
     (case k of
        (log, Some e # outs) \<Rightarrow> ((log, outs), Err e)
      | (log, None # outs) \<Rightarrow> ((log @ [m], outs), Ok ())
      | (log, []) \<Rightarrow> ((log @ [m], []), Ok ()))"

definition log_send_to :: "(socket_addr \<times> bytes) log_socket \<Rightarrow> bytes \<Rightarrow> socket_addr \<Rightarrow>
    (socket_addr \<times> bytes) log_socket \<times> (unit, io_kind) result" where
  "log_send_to k bs a = log_send k (a, bs)"

definition log_wire :: "transmit log_socket \<Rightarrow> (socket_addr \<times> bytes) list" where
  "log_wire k = concat (map transmit_datagrams (fst k))"

section \<open>Sequences of sends and flushes\<close>

datatype io_op = IoSend bytes | IoFlush

fun io_op_packets :: "io_op list \<Rightarrow> bytes list" where
  "io_op_packets [] = []"
| "io_op_packets (IoSend b # ops) = b # io_op_packets ops"
| "io_op_packets (IoFlush # ops) = io_op_packets ops"

text \<open>Runs the operations, going on after errors; gives the backend and the packets whose send
  succeeded.\<close>

fun run_io ::
    "('io \<Rightarrow> bytes \<Rightarrow> 'io \<times> (unit, io_kind) result) \<Rightarrow> ('io \<Rightarrow> 'io \<times> (unit, io_kind) result) \<Rightarrow>
     'io \<Rightarrow> io_op list \<Rightarrow> 'io \<times> bytes list" where
  "run_io send flush io [] = (io, [])"
| "run_io send flush io (IoSend b # ops) =
     (case send io b of
        (io', r) \<Rightarrow>
          (case run_io send flush io' ops of
             (io'', oks) \<Rightarrow> (io'', (if is_ok r then b # oks else oks))))"
| "run_io send flush io (IoFlush # ops) = (case flush io of (io', r) \<Rightarrow> run_io send flush io' ops)"

fun recv_packets ::
    "nat \<Rightarrow> 'k udp_qsp_io \<Rightarrow> nat \<Rightarrow> arrivals \<Rightarrow> (bytes, io_kind) result list option" where
  "recv_packets 0 io buf_len arrivals = Some []"
| "recv_packets (Suc n) io buf_len arrivals =
     (case udp_recv_packet io buf_len arrivals of
        None \<Rightarrow> None
      | Some (io', arrivals', r) \<Rightarrow> map_option (Cons r) (recv_packets n io' buf_len arrivals'))"

text \<open>A receive that coalesces datagrams of one sender: all but the last have the stride's
  length.\<close>

fun coalesces :: "nat \<Rightarrow> bytes list \<Rightarrow> bool" where
  "coalesces stride [] = True"
| "coalesces stride [d] = (0 < length d \<and> length d \<le> stride)"
| "coalesces stride (d # ds) = (0 < stride \<and> length d = stride \<and> coalesces stride ds)"

definition coalesced_msg :: "recv_msg \<Rightarrow> bytes list \<Rightarrow> bool" where
  "coalesced_msg m ds \<longleftrightarrow> coalesces (rm_stride m) ds \<and> rm_buf m = concat ds"

text \<open>The packets of the slab.\<close>

definition slab_packets :: "'k udp_qsp_io \<Rightarrow> bytes list" where
  "slab_packets io =
     (case uq_send_segment_size io of
        None \<Rightarrow> []
      | Some n \<Rightarrow> chunks (length (uq_send_buf io)) n (uq_send_buf io))"

definition slab_inv :: "'k udp_qsp_io \<Rightarrow> bool" where
  "slab_inv io \<longleftrightarrow>
     (case uq_send_segment_size io of
        None \<Rightarrow> uq_send_buf io = [] \<and> uq_send_segments io = 0
      | Some n \<Rightarrow> 0 < n \<and> length (uq_send_buf io) = uq_send_segments io * n \<and>
                   0 < uq_send_segments io)"

text \<open>Before the flush of a full slab: the packet is the last of the slab.\<close>

definition appended :: "'k udp_qsp_io \<Rightarrow> bytes \<Rightarrow> 'k udp_qsp_io" where
  "appended io bs =
     (let io = (if uq_send_segments io = 0 then io\<lparr>uq_send_segment_size := Some (length bs)\<rparr> else io)
      in io\<lparr>uq_send_buf := uq_send_buf io @ bs, uq_send_segments := uq_send_segments io + 1\<rparr>)"

definition slab_fits :: "'k udp_qsp_io \<Rightarrow> bytes \<Rightarrow> bool" where
  "slab_fits io bs \<longleftrightarrow> bs \<noteq> [] \<and> uq_send_segment_size io \<in> {None, Some (length bs)}"

text \<open>The datagrams of the peer in a sequence of receives.\<close>

definition peer_datagrams :: "socket_addr \<Rightarrow> (recv_msg \<times> bytes list) list list \<Rightarrow> bytes list" where
  "peer_datagrams peer batches =
     concat (map (\<lambda>(m, ds). if rm_addr m \<noteq> peer then [] else ds) (concat batches))"

section \<open>Chunks\<close>

lemma chunks_Nil [simp]: "chunks f n [] = []"
  by (cases f) simp_all

lemma chunks_fuel:
  "0 < n \<Longrightarrow> length xs \<le> f \<Longrightarrow> length xs \<le> f' \<Longrightarrow> chunks f n xs = chunks f' n xs"
proof (induction f arbitrary: f' xs)
  case 0
  then show ?case by simp
next
  case (Suc f)
  show ?case
  proof (cases "xs = []")
    case False
    then obtain f'' where f'': "f' = Suc f''" using Suc.prems(3) by (cases f') auto
    have "length (drop n xs) \<le> f" "length (drop n xs) \<le> f''"
      using Suc.prems False f'' by auto
    then have "chunks f n (drop n xs) = chunks f'' n (drop n xs)"
      using Suc.IH [OF Suc.prems(1)] by blast
    then show ?thesis using False f'' by simp
  qed simp
qed

lemma chunks_step:
  "0 < n \<Longrightarrow> xs \<noteq> [] \<Longrightarrow> chunks (length xs) n xs = take n xs # chunks (length (drop n xs)) n (drop n xs)"
  by (cases xs) (auto intro!: chunks_fuel)

lemma chunks_snoc:
  assumes "0 < n" "length xs = k * n" "length b = n"
  shows "chunks (length (xs @ b)) n (xs @ b) = chunks (length xs) n xs @ [b]"
  using assms(2)
proof (induction k arbitrary: xs)
  case 0
  then show ?case using assms(1,3) chunks_step [of n b] by auto
next
  case (Suc k)
  then have ge: "n \<le> length xs" and ne: "xs \<noteq> []" using assms(1) by auto
  have "chunks (length (xs @ b)) n (xs @ b) =
      take n xs # chunks (length (drop n xs @ b)) n (drop n xs @ b)"
    using chunks_step [of n "xs @ b"] assms(1) ge ne by simp
  also have "\<dots> = take n xs # chunks (length (drop n xs)) n (drop n xs) @ [b]"
    using Suc.IH [of "drop n xs"] Suc.prems by simp
  finally show ?case using chunks_step [OF assms(1) ne] by simp
qed

lemma length_chunks:
  "0 < n \<Longrightarrow> length xs = k * n \<Longrightarrow> length (chunks (length xs) n xs) = k"
proof (induction k arbitrary: xs)
  case (Suc k)
  then show ?case using chunks_step [of n xs] by (cases xs) auto
qed simp

section \<open>Splitting receives\<close>

lemma coalesces_stride: "coalesces stride ds \<Longrightarrow> ds \<noteq> [] \<Longrightarrow> 0 < stride"
  by (induction stride ds rule: coalesces.induct) (auto simp del: length_greater_0_conv)

lemma coalesces_nonempty: "coalesces stride ds \<Longrightarrow> d \<in> set ds \<Longrightarrow> 0 < length d"
  by (induction stride ds rule: coalesces.induct) auto

lemma ranges_from_done [simp]: "len \<le> off \<Longrightarrow> ranges_from len stride off = []"
  by (subst ranges_from.simps) simp

lemma ranges_from_coalesced:
  "coalesces (Suc stride) ds \<Longrightarrow>
   map (\<lambda>(off, end). subslice off end (pre @ concat ds))
     (ranges_from (length (pre @ concat ds)) stride (length pre)) = ds"
proof (induction "Suc stride" ds arbitrary: pre rule: coalesces.induct)
  case 1
  then show ?case by simp
next
  case (2 d)
  then have "length d \<le> Suc stride" "d \<noteq> []" by auto
  then show ?case
    by (subst ranges_from.simps)
      (auto simp: subslice_def)
next
  case (3 d d' ds)
  then have len: "length d = Suc stride" by simp
  have "map (\<lambda>(off, end). subslice off end ((pre @ d) @ concat (d' # ds)))
     (ranges_from (length ((pre @ d) @ concat (d' # ds))) stride (length (pre @ d))) = d' # ds"
    by (rule 3(1) [of "pre @ d"]) (use 3(2) in simp)
  then show ?case
    using len by (subst ranges_from.simps) (simp add: subslice_def)
qed

lemma gro_split_coalesced: "coalesced_msg m ds \<Longrightarrow> gro_split m = ds"
proof -
  assume m: "coalesced_msg m ds"
  show ?thesis
  proof (cases "ds = []")
    case True
    then show ?thesis
      using m by (simp add: coalesced_msg_def gro_split_def gro_datagram_ranges_def)
  next
    case False
    then obtain n where n: "rm_stride m = Suc n"
      using m coalesces_stride by (cases "rm_stride m") (auto simp: coalesced_msg_def)
    then show ?thesis
      using m ranges_from_coalesced [of n ds "[]"]
      by (simp add: coalesced_msg_def gro_split_def gro_datagram_ranges_def)
  qed
qed

section \<open>The contract of a backend\<close>

text \<open>\<open>wire\<close> are the datagrams that left, \<open>pending\<close> the accepted packets that did not yet; an
  error of \<open>send\<close> may leave the packet accepted or not.\<close>

locale session_io =
  fixes send :: "'io \<Rightarrow> bytes \<Rightarrow> 'io \<times> (unit, io_kind) result"
    and flush :: "'io \<Rightarrow> 'io \<times> (unit, io_kind) result"
    and has_pending :: "'io \<Rightarrow> bool"
    and discard :: "'io \<Rightarrow> 'io \<times> nat"
    and set_peer :: "'io \<Rightarrow> socket_addr \<Rightarrow> 'io"
    and peer :: "'io \<Rightarrow> socket_addr"
    and wire :: "'io \<Rightarrow> (socket_addr \<times> bytes) list"
    and pending :: "'io \<Rightarrow> bytes list"
    and inv :: "'io \<Rightarrow> bool"
  assumes send_inv: "inv io \<Longrightarrow> send io b = (io', r) \<Longrightarrow> inv io' \<and> peer io' = peer io"
    and send_Ok: "inv io \<Longrightarrow> send io b = (io', Ok ()) \<Longrightarrow>
      wire io' @ map (Pair (peer io)) (pending io') = wire io @ map (Pair (peer io)) (pending io @ [b])"
    and send_Err: "inv io \<Longrightarrow> send io b = (io', Err e) \<Longrightarrow>
      \<exists>kept \<in> {[], [b]}. wire io' @ map (Pair (peer io)) (pending io') =
        wire io @ map (Pair (peer io)) (pending io @ kept)"
    and flush_inv: "inv io \<Longrightarrow> flush io = (io', r) \<Longrightarrow> inv io' \<and> peer io' = peer io"
    and flush_wire: "inv io \<Longrightarrow> flush io = (io', r) \<Longrightarrow>
      wire io' @ map (Pair (peer io)) (pending io') = wire io @ map (Pair (peer io)) (pending io)"
    and flush_Ok: "inv io \<Longrightarrow> flush io = (io', Ok ()) \<Longrightarrow> pending io' = []"
    and has_pending_iff: "inv io \<Longrightarrow> has_pending io \<longleftrightarrow> pending io \<noteq> []"
    and discard_pending: "inv io \<Longrightarrow> discard io = (io', n) \<Longrightarrow>
      inv io' \<and> peer io' = peer io \<and> wire io' = wire io \<and> pending io' = [] \<and> n = length (pending io)"
    and set_peer_frame: "inv io \<Longrightarrow>
      inv (set_peer io a) \<and> peer (set_peer io a) = a \<and> wire (set_peer io a) = wire io \<and>
      pending (set_peer io a) = pending io"
begin

lemma content_append:
  "wire io' @ map f (pending io') = wire io @ map f xs \<Longrightarrow>
   wire io' @ map f (pending io' @ ys) = wire io @ map f (xs @ ys)"
  by (metis append_assoc map_append)

lemma run_in_order:
  assumes "inv io" "run_io send flush io ops = (io', oks)"
  shows "inv io' \<and> peer io' = peer io \<and>
    (\<exists>kept. subseq oks kept \<and> subseq kept (io_op_packets ops) \<and>
      wire io' @ map (Pair (peer io)) (pending io') = wire io @ map (Pair (peer io)) (pending io @ kept))"
  using assms
proof (induction ops arbitrary: io oks)
  case Nil
  then show ?case by simp
next
  case (Cons oper ops)
  show ?case
  proof (cases oper)
    case (IoSend b)
    obtain io1 r where s: "send io b = (io1, r)" by fastforce
    obtain oks1 where run: "run_io send flush io1 ops = (io', oks1)"
        and oks: "oks = (if is_ok r then b # oks1 else oks1)"
      using Cons.prems(2) IoSend s by (auto split: prod.splits)
    have i1: "inv io1" "peer io1 = peer io" using send_inv [OF Cons.prems(1) s] by simp_all
    obtain kept where kept: "subseq oks1 kept" "subseq kept (io_op_packets ops)"
        "wire io' @ map (Pair (peer io)) (pending io') = wire io1 @ map (Pair (peer io)) (pending io1 @ kept)"
      and fin: "inv io'" "peer io' = peer io"
      using Cons.IH [OF i1(1) run] i1(2) by auto
    obtain one where one: "one \<in> {[], [b]}" "is_ok r \<longrightarrow> one = [b]"
        "wire io1 @ map (Pair (peer io)) (pending io1) = wire io @ map (Pair (peer io)) (pending io @ one)"
    proof (cases r)
      case (Inl e)
      then obtain one where "one \<in> {[], [b]}" "wire io1 @ map (Pair (peer io)) (pending io1) =
          wire io @ map (Pair (peer io)) (pending io @ one)"
        using send_Err [OF Cons.prems(1)] s by blast
      then show thesis using that Inl by simp
    next
      case (Inr u)
      then show thesis using send_Ok [OF Cons.prems(1)] s that by auto
    qed
    have "wire io' @ map (Pair (peer io)) (pending io') =
        wire io @ map (Pair (peer io)) (pending io @ one @ kept)"
      using content_append [OF one(3)] kept(3) by (metis append_assoc)
    moreover have "subseq oks (one @ kept)" "subseq (one @ kept) (io_op_packets (oper # ops))"
      using kept(1,2) one(1,2) oks IoSend by auto
    ultimately show ?thesis using fin by blast
  next
    case IoFlush
    obtain io1 r where f: "flush io = (io1, r)" by fastforce
    have i1: "inv io1" "peer io1 = peer io" using flush_inv [OF Cons.prems(1) f] by simp_all
    have "run_io send flush io1 ops = (io', oks)" using Cons.prems(2) IoFlush f by simp
    then obtain kept where kept: "subseq oks kept" "subseq kept (io_op_packets ops)"
        "wire io' @ map (Pair (peer io)) (pending io') = wire io1 @ map (Pair (peer io)) (pending io1 @ kept)"
      and fin: "inv io'" "peer io' = peer io"
      using Cons.IH [OF i1(1)] i1(2) by auto
    have "wire io' @ map (Pair (peer io)) (pending io') = wire io @ map (Pair (peer io)) (pending io @ kept)"
      using content_append [OF flush_wire [OF Cons.prems(1) f]] kept(3) by metis
    then show ?thesis using kept(1,2) fin IoFlush by auto
  qed
qed

end

section \<open>The batching backend keeps the contract\<close>

lemma slab_empty: "slab_inv io \<Longrightarrow> uq_send_segments io = 0 \<Longrightarrow> slab_packets io = [] \<and> uq_send_segment_size io = None"
  by (auto simp: slab_inv_def slab_packets_def split: option.splits)

lemma length_slab_packets: "slab_inv io \<Longrightarrow> length (slab_packets io) = uq_send_segments io"
  using length_chunks [of _ "uq_send_buf io" "uq_send_segments io"]
  by (auto simp: slab_inv_def slab_packets_def split: option.splits)

lemma slab_cleared [simp]: "slab_inv (clear_send_slab io)" "slab_packets (clear_send_slab io) = []"
  by (simp_all add: slab_inv_def slab_packets_def clear_send_slab_def)

lemma slab_packets_sock [simp]: "slab_packets (io\<lparr>uq_sock := k\<rparr>) = slab_packets io"
  by (cases "uq_send_segment_size io") (simp_all add: slab_packets_def)

lemma clear_send_slab_frame [simp]:
  "uq_sock (clear_send_slab io) = uq_sock io" "uq_peer (clear_send_slab io) = uq_peer io"
  "uq_send_segments (clear_send_slab io) = 0"
  by (simp_all add: clear_send_slab_def)

lemma slab_transmit_datagrams:
  assumes "slab_inv io" "uq_send_segments io \<noteq> 0"
  shows "transmit_datagrams (slab_transmit io) = map (Pair (uq_peer io)) (slab_packets io)"
proof -
  obtain n where n: "uq_send_segment_size io = Some n" "0 < n"
      "length (uq_send_buf io) = uq_send_segments io * n"
    using assms by (auto simp: slab_inv_def split: option.splits)
  have "slab_packets io = [uq_send_buf io]" if "\<not> 1 < uq_send_segments io"
    using n that assms(2) chunks_step [of n "uq_send_buf io"]
    by (auto simp: slab_packets_def le_Suc_eq not_less)
  then show ?thesis using n by (auto simp: transmit_datagrams_def slab_transmit_def slab_packets_def)
qed

lemma flush_pending_frame:
  "flush_pending try_send io = (io', r) \<Longrightarrow>
   uq_peer io' = uq_peer io \<and> uq_max_gso_segments io' = uq_max_gso_segments io \<and>
   uq_queue io' = uq_queue io"
  by (auto simp: flush_pending_def clear_send_slab_def split: if_splits prod.splits sum.splits)

lemma flush_pending_inv:
  "slab_inv io \<Longrightarrow> flush_pending try_send io = (io', r) \<Longrightarrow> slab_inv io'"
  by (auto simp: flush_pending_def slab_inv_def clear_send_slab_def
      split: if_splits prod.splits sum.splits option.splits)

lemma flush_pending_Ok:
  "slab_inv io \<Longrightarrow> flush_pending try_send io = (io', Ok ()) \<Longrightarrow>
   slab_packets io' = [] \<and> uq_send_segments io' = 0"
  by (auto simp: flush_pending_def slab_empty split: if_splits prod.splits sum.splits)

lemma flush_pending_wire:
  assumes "gso_socket try_send wire" "slab_inv io" "flush_pending try_send io = (io', r)"
  shows "wire (uq_sock io') @ map (Pair (uq_peer io)) (slab_packets io') =
         wire (uq_sock io) @ map (Pair (uq_peer io)) (slab_packets io)"
proof (cases "uq_send_segments io = 0")
  case False
  obtain k q where ts: "try_send (uq_sock io) (slab_transmit io) = (k, q)" by fastforce
  show ?thesis
  proof (cases q)
    case (Inl e)
    then have "io' = io\<lparr>uq_sock := k\<rparr>" using assms(3) False ts by (simp add: flush_pending_def)
    moreover have "wire k = wire (uq_sock io)"
      using assms(1) ts Inl unfolding gso_socket_def by blast
    ultimately show ?thesis by simp
  next
    case (Inr u)
    then have "io' = clear_send_slab (io\<lparr>uq_sock := k\<rparr>)"
      using assms(3) False ts by (simp add: flush_pending_def)
    moreover have "wire k = wire (uq_sock io) @ transmit_datagrams (slab_transmit io)"
      using assms(1) ts Inr unfolding gso_socket_def by simp
    ultimately show ?thesis using slab_transmit_datagrams [OF assms(2) False] by simp
  qed
qed (use assms in \<open>simp add: flush_pending_def\<close>)

lemma append_packet_appended:
  "append_packet try_send bs n io =
     (if n \<le> uq_send_segments (appended io bs) then flush_pending try_send (appended io bs)
      else (appended io bs, Ok ()))"
  by (simp add: append_packet_def appended_def Let_def)

lemma appended_frame [simp]:
  "uq_sock (appended io bs) = uq_sock io" "uq_peer (appended io bs) = uq_peer io"
  "uq_max_gso_segments (appended io bs) = uq_max_gso_segments io"
  "uq_send_segments (appended io bs) = uq_send_segments io + 1"
  "uq_queue (appended io bs) = uq_queue io"
  by (simp_all add: appended_def Let_def)

lemma appended_slab:
  assumes "slab_inv io" "slab_fits io bs"
  shows "slab_inv (appended io bs)" "slab_packets (appended io bs) = slab_packets io @ [bs]"
    "uq_send_segment_size (appended io bs) = Some (length bs)"
proof -
  have zero: "uq_send_segments io = 0 \<longleftrightarrow> uq_send_segment_size io = None"
    using assms(1) by (auto simp: slab_inv_def split: option.splits)
  show size: "uq_send_segment_size (appended io bs) = Some (length bs)"
    using assms(2) zero by (auto simp: appended_def slab_fits_def Let_def)
  have buf: "uq_send_buf (appended io bs) = uq_send_buf io @ bs" by (simp add: appended_def Let_def)
  have len: "length (uq_send_buf io) = uq_send_segments io * length bs"
    using assms zero by (auto simp: slab_inv_def slab_fits_def split: option.splits)
  show "slab_inv (appended io bs)"
    using assms(2) size buf len by (simp add: slab_inv_def slab_fits_def)
  have "slab_packets io = chunks (length (uq_send_buf io)) (length bs) (uq_send_buf io)"
    using assms by (auto simp: slab_packets_def slab_fits_def slab_inv_def split: option.splits)
  then show "slab_packets (appended io bs) = slab_packets io @ [bs]"
    using chunks_snoc [OF _ len refl] assms(2) size buf by (simp add: slab_packets_def slab_fits_def)
qed

text \<open>The branches of a send: rejected, failed in the first flush, or appended to a slab that fits.\<close>

lemma udp_send_packet_cases:
  assumes "udp_send_packet try_send io bs = (io', r)" "slab_inv io"
  obtains (rejected) "io' = io" "r = Err KInvalidInput"
  | (stuck) e where "flush_pending try_send io = (io', Err e)" "r = Err e"
  | (append) io1 where "io1 = io \<or> flush_pending try_send io = (io1, Ok ())" "slab_inv io1"
      "slab_fits io1 bs"
      "append_packet try_send bs (max_gso_segments_for_size (uq_max_gso_segments io) (length bs)) io1 =
        (io', r)"
proof (cases "bs = [] \<or> MAX_UDP_GSO_PAYLOAD < length bs")
  case True
  then show thesis using assms(1) rejected by (auto simp: udp_send_packet_def Let_def split: if_splits)
next
  case False
  let ?n = "max_gso_segments_for_size (uq_max_gso_segments io) (length bs)"
  show thesis
  proof (cases "must_flush_before_append io (length bs) ?n")
    case must: True
    obtain io1 q where f: "flush_pending try_send io = (io1, q)" by fastforce
    show thesis
    proof (cases q)
      case (Inl e)
      then show thesis
        using assms(1) False must f stuck by (simp add: udp_send_packet_def sbind_def Let_def)
    next
      case (Inr u)
      then have "append_packet try_send bs ?n io1 = (io', r)"
        using assms(1) False must f by (simp add: udp_send_packet_def sbind_def Let_def)
      moreover have "slab_inv io1" "uq_send_segment_size io1 = None"
        using flush_pending_inv [OF assms(2) f] flush_pending_Ok [OF assms(2), of try_send io1] f Inr
          slab_empty [of io1] by auto
      ultimately show thesis using append [of io1] f Inr False by (simp add: slab_fits_def)
    qed
  next
    case must: False
    then have "slab_fits io bs"
      using assms(2) False slab_empty [of io]
      by (auto simp: must_flush_before_append_def slab_fits_def split: if_splits)
    then show thesis
      using append [of io] assms False must by (simp add: udp_send_packet_def Let_def)
  qed
qed

lemma append_packet_result:
  assumes "slab_inv io" "slab_fits io bs" "append_packet try_send bs n io = (io', r)"
  shows "slab_inv io'" "uq_peer io' = uq_peer io"
    and "gso_socket try_send wire \<Longrightarrow> wire (uq_sock io') @ map (Pair (uq_peer io)) (slab_packets io') =
        wire (uq_sock io) @ map (Pair (uq_peer io)) (slab_packets io @ [bs])"
proof -
  note a = appended_slab [OF assms(1,2)]
  show "slab_inv io'"
    using assms(3) a flush_pending_inv by (auto simp: append_packet_appended split: if_splits)
  show "uq_peer io' = uq_peer io"
    using assms(3) flush_pending_frame
    by (fastforce simp: append_packet_appended split: if_splits)
  show "wire (uq_sock io') @ map (Pair (uq_peer io)) (slab_packets io') =
        wire (uq_sock io) @ map (Pair (uq_peer io)) (slab_packets io @ [bs])"
    if "gso_socket try_send wire"
    using assms(3) a flush_pending_wire [OF that a(1)]
    by (auto simp: append_packet_appended split: if_splits)
qed

lemma udp_session_io:
  assumes sock: "gso_socket try_send wire"
  shows "session_io (udp_send_packet try_send) (flush_pending try_send) udp_has_pending_flush
    udp_discard_pending_send udp_set_peer uq_peer (\<lambda>io. wire (uq_sock io)) slab_packets slab_inv"
proof (unfold_locales, goal_cases)
  case (1 io b io' r)
  from 1(2,1) show ?case
  proof (cases rule: udp_send_packet_cases)
    case rejected
    then show ?thesis using 1(1) by simp
  next
    case stuck
    then show ?thesis using flush_pending_inv [OF 1(1)] flush_pending_frame by blast
  next
    case (append io1)
    then show ?thesis using append_packet_result flush_pending_frame by metis
  qed
next
  case (2 io b io')
  from 2(2,1) show ?case
  proof (cases rule: udp_send_packet_cases)
    case (append io1)
    have peer: "uq_peer io1 = uq_peer io" using append(1) flush_pending_frame by metis
    have "wire (uq_sock io1) @ map (Pair (uq_peer io)) (slab_packets io1) =
        wire (uq_sock io) @ map (Pair (uq_peer io)) (slab_packets io)"
      using append(1) flush_pending_wire [OF sock 2(1)] by auto
    then show ?thesis
      using append_packet_result(3) [OF append(2-4) sock] peer by (metis append_assoc map_append)
  qed simp_all
next
  case (3 io b io' e)
  from 3(2,1) show ?case
  proof (cases rule: udp_send_packet_cases)
    case stuck
    then show ?thesis using flush_pending_wire [OF sock 3(1)] by auto
  next
    case (append io1)
    have peer: "uq_peer io1 = uq_peer io" using append(1) flush_pending_frame by metis
    have "wire (uq_sock io1) @ map (Pair (uq_peer io)) (slab_packets io1) =
        wire (uq_sock io) @ map (Pair (uq_peer io)) (slab_packets io)"
      using append(1) flush_pending_wire [OF sock 3(1)] by auto
    then show ?thesis
      using append_packet_result(3) [OF append(2-4) sock] peer
      by (metis append_assoc map_append insertI1 insertI2)
  qed simp_all
next
  case 4
  then show ?case using flush_pending_inv flush_pending_frame by blast
next
  case 5
  then show ?case using flush_pending_wire [OF sock] by blast
next
  case 6
  then show ?case using flush_pending_Ok by blast
next
  case (7 io)
  then show ?case
    using length_slab_packets [of io] by (metis length_0_conv udp_has_pending_flush_def)
next
  case (8 io)
  then show ?case using length_slab_packets [of io] by (auto simp: udp_discard_pending_send_def)
next
  case (9 io)
  then show ?case
    by (cases "uq_send_segment_size io") (simp_all add: udp_set_peer_def slab_inv_def slab_packets_def)
qed

section \<open>The plain backend keeps the contract\<close>

lemma plain_session_io:
  assumes sock: "plain_socket send_to wire"
  shows "session_io (plain_send_packet send_to) plain_flush plain_has_pending_flush
    default_discard_pending_send plain_set_peer pu_peer (\<lambda>io. wire (pu_sock io)) (\<lambda>_. []) (\<lambda>_. True)"
proof -
  have ok: "wire k' = wire k @ [(a, bs)]" if "send_to k bs a = (k', Inr ())" for k bs a k'
    using sock that by (simp add: plain_socket_def)
  have err: "wire k' = wire k" if "send_to k bs a = (k', Inl e)" for k bs a k' e
    using sock that unfolding plain_socket_def by blast
  show ?thesis
    by unfold_locales
      (auto simp: plain_send_packet_def plain_flush_def plain_has_pending_flush_def
        default_discard_pending_send_def plain_set_peer_def ok
        split: if_splits prod.splits sum.splits dest: err)
qed

lemma log_send_gso: "gso_socket log_send log_wire"
  by (auto simp: gso_socket_def log_send_def log_wire_def split: prod.splits list.splits option.splits)

lemma log_send_to_plain: "plain_socket log_send_to fst"
  by (auto simp: plain_socket_def log_send_to_def log_send_def
      split: prod.splits list.splits option.splits)

interpretation batching_io: session_io "udp_send_packet log_send" "flush_pending log_send"
  udp_has_pending_flush udp_discard_pending_send udp_set_peer uq_peer "\<lambda>io. log_wire (uq_sock io)"
  slab_packets slab_inv
  by (rule udp_session_io [OF log_send_gso])

interpretation plain_io: session_io "plain_send_packet log_send_to" plain_flush
  plain_has_pending_flush default_discard_pending_send plain_set_peer pu_peer
  "\<lambda>io. fst (pu_sock io)" "\<lambda>_. []" "\<lambda>_. True"
  by (rule plain_session_io [OF log_send_to_plain])

lemma slab_new [simp]:
  "slab_inv (udp_qsp_io_new k n peer)" "slab_packets (udp_qsp_io_new k n peer) = []"
  "uq_peer (udp_qsp_io_new k n peer) = peer" "uq_sock (udp_qsp_io_new k n peer) = k"
  by (simp_all add: udp_qsp_io_new_def slab_inv_def slab_packets_def)

lemma run_udp_flushed:
  assumes sock: "gso_socket try_send wire"
    and run: "run_io (udp_send_packet try_send) (flush_pending try_send)
          (udp_qsp_io_new k max_gso peer) ops = (io, oks)"
    and flush: "flush_pending try_send io = (io', Ok ())"
  shows "\<exists>kept. subseq oks kept \<and> subseq kept (io_op_packets ops) \<and>
           wire (uq_sock io') = wire k @ map (Pair peer) kept"
proof -
  note io = udp_session_io [OF sock]
  obtain kept where kept: "subseq oks kept" "subseq kept (io_op_packets ops)"
      "wire (uq_sock io) @ map (Pair peer) (slab_packets io) = wire k @ map (Pair peer) kept"
    and fin: "slab_inv io" "uq_peer io = peer"
    using session_io.run_in_order [OF io _ run] by auto
  have "wire (uq_sock io') @ map (Pair peer) (slab_packets io') = wire k @ map (Pair peer) kept"
    using flush_pending_wire [OF sock fin(1) flush] kept(3) fin(2) by simp
  then show ?thesis using kept(1,2) flush_pending_Ok [OF fin(1) flush] by auto
qed

lemma flush_succeeds:
  assumes "\<forall>k t. is_ok (snd (try_send k t))"
  shows "\<exists>io'. flush_pending try_send io = (io', Ok ())"
  using assms [rule_format, of "uq_sock io" "slab_transmit io"]
  by (auto simp: flush_pending_def split: prod.splits sum.splits)

lemma sends_succeed:
  assumes "\<forall>k t. is_ok (snd (try_send k t))" "bs \<noteq> []" "length bs \<le> MAX_UDP_GSO_PAYLOAD"
  shows "is_ok (snd (udp_send_packet try_send io bs))"
proof -
  have append: "is_ok (snd (append_packet try_send bs n io))" for n and io :: "'a udp_qsp_io"
    using flush_succeeds [OF assms(1), of "appended io bs"] by (auto simp: append_packet_appended)
  obtain io1 where "flush_pending try_send io = (io1, Ok ())"
    using flush_succeeds [OF assms(1)] by blast
  then show "is_ok (snd (udp_send_packet try_send io bs))"
    using assms(2,3) append by (auto simp: udp_send_packet_def sbind_def Let_def)
qed

lemma run_io_all_ok:
  assumes "\<And>io b. b \<in> set (io_op_packets ops) \<Longrightarrow> is_ok (snd (send io b))"
    and "run_io send flush io ops = (io', oks)"
  shows "oks = io_op_packets ops"
  using assms
proof (induction ops arbitrary: io oks)
  case (Cons oper ops)
  show ?case
  proof (cases oper)
    case (IoSend b)
    obtain io1 r where s: "send io b = (io1, r)" by fastforce
    then have "is_ok r" using Cons.prems(1) [of b io] IoSend by simp
    then obtain oks1 where "run_io send flush io1 ops = (io', oks1)" "oks = b # oks1"
      using Cons.prems(2) IoSend s by (auto split: prod.splits)
    then show ?thesis using Cons.IH Cons.prems(1) IoSend by simp
  next
    case IoFlush
    then show ?thesis using Cons.IH Cons.prems by (auto split: prod.splits)
  qed
qed simp

section \<open>Properties\<close>

text \<open>C23: The batching backend neither loses, repeats nor reorders packets: after any sequence
  of sends and flushes, some of which fail, and a final flush, the datagrams that left are a
  subsequence of the packets offered, each whole and to the peer, and contain every packet whose
  send succeeded.\<close>

theorem batched_packets_in_order:
  assumes "gso_socket try_send wire"
    and "run_io (udp_send_packet try_send) (flush_pending try_send)
          (udp_qsp_io_new k max_gso peer) ops = (io, oks)"
    and "flush_pending try_send io = (io', Ok ())"
  shows "\<exists>kept. subseq oks kept \<and> subseq kept (io_op_packets ops) \<and>
           wire (uq_sock io') = wire k @ map (Pair peer) kept"
  using assms by (rule run_udp_flushed)

theorem batched_packets_in_order_witness:
  "\<exists>kept. subseq [[1, 1], [2, 2], [3]] kept \<and> subseq kept [[1, 1], [2, 2], [3], []] \<and>
     [(SocketAddr [] 7, [1, 1 :: u8]), (SocketAddr [] 7, [2, 2]), (SocketAddr [] 7, [3])] =
       map (Pair (SocketAddr [] 7)) kept"
proof -
  let ?p = "SocketAddr [] 7"
  let ?t = "\<lparr>tr_destination = ?p, tr_contents = [1, 1, 2, 2], tr_segment_size = Some 2\<rparr>"
  let ?io = "(udp_qsp_io_new ([?t], []) 64 ?p)
     \<lparr>uq_send_buf := [3], uq_send_segment_size := Some 1, uq_send_segments := 1\<rparr>"
  have "run_io (udp_send_packet log_send) (flush_pending log_send)
      (udp_qsp_io_new ([], [Some KNotConnected, None]) 64 ?p)
      [IoSend [1, 1], IoSend [2, 2], IoFlush, IoSend [3], IoSend []] = (?io, [[1, 1], [2, 2], [3]])"
    by (simp add: udp_send_packet_def append_packet_def flush_pending_def log_send_def sbind_def
        udp_qsp_io_new_def must_flush_before_append_def max_gso_segments_for_size_def
        MAX_UDP_GSO_PAYLOAD_def slab_transmit_def clear_send_slab_def Let_def)
      (simp flip: numeral_2_eq_2)
  from batched_packets_in_order [OF log_send_gso this]
  show ?thesis
    by (simp add: flush_pending_def log_send_def udp_qsp_io_new_def clear_send_slab_def log_wire_def
        slab_transmit_def transmit_datagrams_def eval_nat_numeral)
qed

text \<open>C24: On a working socket, batching is invisible: for every sequence of sends and flushes of
  packets that both backends take, the batching backend puts on the wire, once flushed, exactly the
  datagrams the plain backend sends, one per packet and in order, whatever segment count the socket
  allows.\<close>

theorem batching_equals_plain:
  assumes "gso_socket try_send wire" "plain_socket send_to wire'"
    and "\<forall>k t. is_ok (snd (try_send k t))" "\<forall>k bs a. is_ok (snd (send_to k bs a))"
    and "\<forall>b \<in> set (io_op_packets ops). b \<noteq> [] \<and> length b \<le> MAX_DATAGRAM"
    and "wire k = wire' k'"
  shows "wire (uq_sock (fst (flush_pending try_send (fst (run_io (udp_send_packet try_send)
             (flush_pending try_send) (udp_qsp_io_new k max_gso peer) ops))))) =
         wire' (pu_sock (fst (run_io (plain_send_packet send_to) plain_flush
             (plain_udp_qsp_io_new k' peer) ops)))"
proof -
  have small: "b \<noteq> []" "length b \<le> MAX_UDP_GSO_PAYLOAD" "length b \<le> MAX_DATAGRAM"
    if "b \<in> set (io_op_packets ops)" for b
    using assms(5) that by (auto simp: MAX_DATAGRAM_def MAX_UDP_GSO_PAYLOAD_def)
  let ?u = "run_io (udp_send_packet try_send) (flush_pending try_send) (udp_qsp_io_new k max_gso peer) ops"
  let ?p = "run_io (plain_send_packet send_to) plain_flush (plain_udp_qsp_io_new k' peer) ops"
  obtain io oks where u: "?u = (io, oks)" by fastforce
  have oks: "oks = io_op_packets ops"
    using run_io_all_ok [OF _ u] sends_succeed [OF assms(3)] small by blast
  obtain io' where f: "flush_pending try_send io = (io', Ok ())"
    using flush_succeeds [OF assms(3)] by blast
  obtain kept where "subseq oks kept" "subseq kept (io_op_packets ops)"
      "wire (uq_sock io') = wire k @ map (Pair peer) kept"
    using run_udp_flushed [OF assms(1) u f] by blast
  then have sent: "wire (uq_sock io') = wire k @ map (Pair peer) (io_op_packets ops)"
    using oks subseq_order.antisym by blast
  obtain jo oks' where p: "?p = (jo, oks')" by fastforce
  have "is_ok (snd (plain_send_packet send_to io b))" if "b \<in> set (io_op_packets ops)" for io b
    using small [OF that] assms(4) [rule_format, of "pu_sock io" b "pu_peer io"]
    by (auto simp: plain_send_packet_def split: prod.splits sum.splits)
  then have oks': "oks' = io_op_packets ops" using run_io_all_ok [OF _ p] by blast
  obtain kept where "subseq oks' kept" "subseq kept (io_op_packets ops)"
      "wire' (pu_sock jo) = wire' k' @ map (Pair peer) kept"
    using session_io.run_in_order [OF plain_session_io [OF assms(2)] TrueI p]
    by (auto simp: plain_udp_qsp_io_new_def)
  then have "wire' (pu_sock jo) = wire' k' @ map (Pair peer) (io_op_packets ops)"
    using oks' subseq_order.antisym by blast
  then show ?thesis using u p f sent assms(6) by simp
qed

theorem batching_equals_plain_witness:
  "concat (map transmit_datagrams (uq_sock (fst (flush_pending (\<lambda>k t. (k @ [t], Ok ()))
       (fst (run_io (udp_send_packet (\<lambda>k t. (k @ [t], Ok ()))) (flush_pending (\<lambda>k t. (k @ [t], Ok ())))
          (udp_qsp_io_new [] 64 (SocketAddr [] 7)) [IoSend [1, 1], IoSend [2, 2], IoSend [3]])))))) =
     pu_sock (fst (run_io (plain_send_packet (\<lambda>k bs a. (k @ [(a, bs)], Ok ()))) plain_flush
       (plain_udp_qsp_io_new [] (SocketAddr [] 7)) [IoSend [1, 1], IoSend [2, 2], IoSend [3]]))"
  by (rule batching_equals_plain [where wire = "\<lambda>k. concat (map transmit_datagrams k)" and
        wire' = "\<lambda>k. k" and k' = "[]"])
    (simp_all add: gso_socket_def plain_socket_def MAX_DATAGRAM_def)

lemma recv_packets_queue:
  "\<forall>d \<in> set ds. length d \<le> buf_len \<Longrightarrow> uq_queue io = ds @ q \<Longrightarrow>
   recv_packets (length ds + n) io buf_len arrivals =
     map_option ((@) (map Ok ds)) (recv_packets n (io\<lparr>uq_queue := q\<rparr>) buf_len arrivals)"
proof (induction ds arbitrary: io)
  case Nil
  then have "io\<lparr>uq_queue := q\<rparr> = io" by simp
  moreover have "(@) [] = (\<lambda>x. x)" by auto
  ultimately show ?case by (simp add: option.map_ident)
next
  case (Cons d ds)
  have "recv_packets (length ds + n) (io\<lparr>uq_queue := ds @ q\<rparr>) buf_len arrivals =
     map_option ((@) (map Ok ds)) (recv_packets n (io\<lparr>uq_queue := q\<rparr>) buf_len arrivals)"
    using Cons.IH [of "io\<lparr>uq_queue := ds @ q\<rparr>"] Cons.prems(1) by simp
  then show ?case
    using Cons.prems
    by (simp add: udp_recv_packet.simps [of io] option.map_comp comp_def)
qed

lemma recv_packets_batch:
  "uq_queue io = [] \<Longrightarrow>
   recv_packets (Suc n) io buf_len (Inr batch # rest) =
   recv_packets (Suc n) (io\<lparr>uq_queue := queue_peer_datagrams (uq_peer io) batch []\<rparr>) buf_len rest"
  by (simp add: udp_recv_packet.simps [of io])

lemma recv_packets_batches:
  assumes "\<And>m ds. (m, ds) \<in> set (concat batches) \<Longrightarrow> coalesced_msg m ds"
    and "\<forall>d \<in> set (peer_datagrams (uq_peer io) batches). length d \<le> buf_len"
    and "uq_queue io = []"
  shows "recv_packets (length (peer_datagrams (uq_peer io) batches)) io buf_len
           (map (\<lambda>b. Ok (map fst b)) batches) =
         Some (map Ok (peer_datagrams (uq_peer io) batches))"
  using assms
proof (induction batches)
  case Nil
  then show ?case by (simp add: peer_datagrams_def)
next
  case (Cons b batches)
  let ?peer = "uq_peer io"
  let ?ds = "peer_datagrams ?peer [b]" and ?rest = "peer_datagrams ?peer batches"
  let ?as = "map (\<lambda>b. Ok (map fst b) :: (_, io_kind) result) batches"
  have split: "peer_datagrams ?peer (b # batches) = ?ds @ ?rest" by (simp add: peer_datagrams_def)
  have "map (\<lambda>m. if rm_addr m \<noteq> ?peer then [] else gro_split m) (map fst b) =
      map (\<lambda>(m, ds). if rm_addr m \<noteq> ?peer then [] else ds) b"
    using Cons.prems(1) gro_split_coalesced by auto
  then have q: "queue_peer_datagrams ?peer (map fst b) [] = ?ds"
    by (simp only: queue_peer_datagrams_def peer_datagrams_def append_Nil concat.simps append_Nil2)
  have same: "io\<lparr>uq_queue := []\<rparr> = io" using Cons.prems(3) by simp
  have IH: "recv_packets (length ?rest) io buf_len ?as = Some (map Ok ?rest)"
    using Cons split by simp
  show ?case
  proof (cases "length (?ds @ ?rest)")
    case 0
    then show ?thesis using split by simp
  next
    case (Suc n)
    have "recv_packets (length (?ds @ ?rest)) io buf_len (Inr (map fst b) # ?as) =
        recv_packets (length (?ds @ ?rest)) (io\<lparr>uq_queue := ?ds\<rparr>) buf_len ?as"
      using recv_packets_batch [OF Cons.prems(3)] q Suc by simp
    also have "\<dots> = map_option ((@) (map Ok ?ds)) (recv_packets (length ?rest) io buf_len ?as)"
      using recv_packets_queue [of ?ds buf_len "io\<lparr>uq_queue := ?ds\<rparr>" "[]" "length ?rest" ?as]
        Cons.prems(2) split same by simp
    finally show ?thesis using IH split by simp
  qed
qed

text \<open>C25: The receiver undoes the coalescing: whatever way the kernel merges the peer's datagrams
  into buffers, and whoever else sends to the socket, the packets returned are exactly the peer's
  datagrams, in order and with their boundaries, and none of another sender.\<close>

theorem coalesced_receive_exact:
  assumes "\<And>m ds. (m, ds) \<in> set (concat batches) \<Longrightarrow> coalesced_msg m ds"
    and "\<forall>d \<in> set (peer_datagrams peer batches). length d \<le> buf_len"
  shows "recv_packets (length (peer_datagrams peer batches)) (udp_qsp_io_new k max_gso peer) buf_len
           (map (\<lambda>b. Ok (map fst b)) batches) =
         Some (map Ok (peer_datagrams peer batches))"
  using recv_packets_batches [OF assms(1), where io = "udp_qsp_io_new k max_gso peer"] assms(2)
  by (simp add: udp_qsp_io_new_def)

theorem coalesced_receive_exact_witness:
  "recv_packets 3 (udp_qsp_io_new () 64 (SocketAddr [] 7)) 1500
     [Ok [\<lparr>rm_addr = SocketAddr [] 7, rm_stride = 2, rm_buf = [1, 1, 2, 2, 3]\<rparr>,
          \<lparr>rm_addr = SocketAddr [] 8, rm_stride = 9, rm_buf = [4]\<rparr>]] =
   Some [Ok [1, 1], Ok [2, 2], Ok [3]]"
proof -
  let ?a = "\<lparr>rm_addr = SocketAddr [] 7, rm_stride = 2, rm_buf = [1, 1, 2, 2, 3]\<rparr> :: recv_msg"
  let ?b = "\<lparr>rm_addr = SocketAddr [] 8, rm_stride = 9, rm_buf = [4]\<rparr> :: recv_msg"
  have ds: "peer_datagrams (SocketAddr [] 7) [[(?a, [[1, 1], [2, 2], [3]]), (?b, [[4]])]] =
      [[1, 1], [2, 2], [3]]"
    by (simp add: peer_datagrams_def)
  have co: "coalesced_msg m ds"
    if "(m, ds) \<in> set (concat [[(?a, [[1, 1], [2, 2], [3]]), (?b, [[4]])]])" for m ds
    using that by (auto simp: coalesced_msg_def)
  have "recv_packets (length [[1, 1], [2, 2], [3 :: u8]]) (udp_qsp_io_new () 64 (SocketAddr [] 7)) 1500
      (map (\<lambda>b. Ok (map fst b)) [[(?a, [[1, 1], [2, 2], [3]]), (?b, [[4]])]]) =
      Some (map Ok [[1, 1], [2, 2], [3]])"
    using coalesced_receive_exact [of "[[(?a, [[1, 1], [2, 2], [3]]), (?b, [[4]])]]" "SocketAddr [] 7"
        1500 "()" 64, OF co, unfolded ds] by simp
  then show ?thesis by (simp add: numeral_3_eq_3)
qed

end
