(* ===== verification/Server_Session.thy ===== *)
theory Server_Session
  imports Tcp_Channel Key_Update Registry Udp_Io
begin

text \<open>
  The server's client session (\<open>slt-server/src/sessions\<close>): the state of
  \<open>ClientSessionBase\<close> and every handler of \<open>egress.rs\<close>, \<open>upgrade.rs\<close>, \<open>register.rs\<close>,
  \<open>tcp.rs\<close>, \<open>udp.rs\<close> and \<open>mod.rs\<close>.

  A handler is a state-passing computation that may fail.  What lies outside is a parameter
  \<open>server_env\<close>: the UDP backend's operations and the outcomes of TLS writes, TUN writes, socket
  creation and random numbers, indexed by the number of such calls made (\<open>ss_calls\<close>), so that
  a theorem for every environment covers every sequence of outcomes.  The clock is read
  once per handler (\<open>now\<close>, in nanoseconds).  The shared registry is a field; between handlers
  other sessions may change it.  \<open>ss_tcp_out\<close> and \<open>ss_tun_out\<close> record what was sent, and
  \<open>ss_metrics\<close> the counters incremented; log lines have no effect and are left out.

  An \<open>unreachable!\<close> is the error \<open>SePanic\<close>.
\<close>

section \<open>State\<close>

datatype udp_qsp_error =
    UeQsp "io_kind qsp_session_error" | UeIo io_kind | UeFrame frame_error | UeMessage message_error

datatype session_error =
    SeProtocolViolation | SeConnection io_kind | SeUdpQsp udp_qsp_error | SeIo io_kind
  | SeFrame frame_error | SeMessage message_error | SePayload payload_error
  | SePayloadEncode payload_error | SePanic

fun session_error_from_validation :: "message_validation_error \<Rightarrow> session_error" where
  "session_error_from_validation (InvalidPayload _ source) = SePayload source"
| "session_error_from_validation (InvalidDirection _ _) = SeProtocolViolation"
| "session_error_from_validation (InvalidPhase _ _) = SeProtocolViolation"
| "session_error_from_validation (InvalidTransport _ _) = SeProtocolViolation"

fun is_peer_protocol_error :: "session_error \<Rightarrow> bool" where
  "is_peer_protocol_error SeProtocolViolation = True"
| "is_peer_protocol_error (SeMessage _) = True"
| "is_peer_protocol_error (SePayload _) = True"
| "is_peer_protocol_error _ = False"

datatype session_shutdown_reason = Takeover | ServerRestart

fun shutdown_close_code :: "session_shutdown_reason \<Rightarrow> close_code" where
  "shutdown_close_code Takeover = CloseNormal"
| "shutdown_close_code ServerRestart = CloseServerRestart"

datatype active_transport = ActiveTcp | ActiveUdpQsp

datatype session_control = Continue | CloseSession

text \<open>A claimed datagram: its sender and bytes.\<close>

record udp_claim =
  uc_dcid_prefix :: cid_prefix
  uc_peer :: socket_addr
  uc_payload :: bytes

datatype session_event = EventUdp udp_claim | EventTunPacket bytes

record session_timeouts =
  st_ping_min :: nat
  st_ping_max :: nat
  st_udp_liveness_timeout :: nat
  st_idle_timeout :: nat
  st_tcp_write_timeout :: nat

record udp_upgrade_state =
  uu_upgrade_id :: "u64 option"
  uu_probe_seen :: bool
  uu_ready_seen :: bool
  uu_switch_to_udp_sent :: bool
  uu_stale_upgrade_ids :: "u64 list"

definition udp_upgrade_default :: udp_upgrade_state where
  "udp_upgrade_default =
     \<lparr>uu_upgrade_id = None, uu_probe_seen = False, uu_ready_seen = False,
      uu_switch_to_udp_sent = False, uu_stale_upgrade_ids = []\<rparr>"

datatype server_metric =
    TransportTcpToUdp | TransportUdpToTcp | UdpQspTxKeyPhaseTransition
  | UdpQspRxKeyPhaseTransition | DecryptFailReplay | DecryptFailTooOld | DecryptFailCrypto
  | DecryptFailOther | UdpQspLivenessTimeout | DisconnectClose | DisconnectIdleTimeout
  | DisconnectShutdown | DisconnectError

record ('io, 'tx) server_session =
  ss_client_id :: client_id
  ss_assigned_ipv4 :: ipv4_addr
  ss_created_at :: nat
  ss_last_activity :: nat
  ss_active_transport :: active_transport
  ss_session_id :: u64
  ss_registry :: "'tx registry"
  ss_metrics :: "server_metric list"
  ss_tx :: 'tx
  ss_tcp :: tcp_channel
  ss_udp_session :: "'io quic_qsp_session option"
  ss_udp_peer_packet_number :: "u64 option"
  ss_last_authenticated_udp_activity :: "nat option"
  ss_udp_upgrade :: udp_upgrade_state
  ss_limits :: message_limits
  ss_timeouts :: session_timeouts
  ss_allowed_ciphers :: "cipher_suite list"
  ss_tcp_alive :: bool
  ss_tcp_write_interrupted :: bool
  ss_pending_tcp_fallback :: "u64 option"
  ss_last_peer_fallback_id :: "u64 option"
  ss_tcp_out :: "message list"
  ss_tun_out :: "bytes list"
  ss_calls :: nat

definition server_session_new ::
    "nat \<Rightarrow> u64 \<Rightarrow> client_id \<Rightarrow> ipv4_addr \<Rightarrow> tcp_channel \<Rightarrow> 'tx registry \<Rightarrow> 'tx \<Rightarrow> message_limits \<Rightarrow>
     session_timeouts \<Rightarrow> cipher_suite list \<Rightarrow> ('io, 'tx) server_session" where
  "server_session_new now session_id client_id assigned_ipv4 tcp registry tx limits timeouts ciphers =
     \<lparr>ss_client_id = client_id, ss_assigned_ipv4 = assigned_ipv4, ss_created_at = now,
      ss_last_activity = now, ss_active_transport = ActiveTcp, ss_session_id = session_id,
      ss_registry = registry, ss_metrics = [], ss_tx = tx, ss_tcp = tcp, ss_udp_session = None,
      ss_udp_peer_packet_number = None, ss_last_authenticated_udp_activity = None,
      ss_udp_upgrade = udp_upgrade_default, ss_limits = limits, ss_timeouts = timeouts,
      ss_allowed_ciphers = ciphers, ss_tcp_alive = True, ss_tcp_write_interrupted = False,
      ss_pending_tcp_fallback = None, ss_last_peer_fallback_id = None, ss_tcp_out = [],
      ss_tun_out = [], ss_calls = 0\<rparr>"

section \<open>Environment\<close>

datatype tun_packet_send_outcome = TunAccepted | TunDropped nat | TunClosed

record 'io server_env =
  ev_crypto :: qsp_crypto
  ev_io_send :: "'io \<Rightarrow> bytes \<Rightarrow> 'io \<times> (unit, io_kind) result"
  ev_io_flush :: "'io \<Rightarrow> 'io \<times> (unit, io_kind) result"
  ev_io_has_pending :: "'io \<Rightarrow> bool"
  ev_io_discard :: "'io \<Rightarrow> 'io \<times> nat"
  ev_io_set_peer :: "'io \<Rightarrow> socket_addr \<Rightarrow> 'io"
  ev_io_create :: "nat \<Rightarrow> socket_addr \<Rightarrow> ('io, io_kind) result"
  ev_ssl_key_update :: "nat \<Rightarrow> bool \<Rightarrow> bool"
  ev_tcp_write :: "nat \<Rightarrow> write_outcome"
  ev_tun_accept :: "nat \<Rightarrow> bytes \<Rightarrow> (tun_packet_send_outcome, io_kind) result"
  ev_random :: "nat \<Rightarrow> u64"
  ev_in_time :: "nat \<Rightarrow> bool"

type_synonym ('io, 'tx, 'a) session_comp = "(('io, 'tx) server_session, 'a, session_error) comp"

text \<open>An external call: its outcome is the next one of the environment.\<close>

definition external ::
    "(nat \<Rightarrow> 'o) \<Rightarrow> ('o \<Rightarrow> (('io, 'tx) server_session, 'a, 'e) comp) \<Rightarrow> (('io, 'tx) server_session, 'a, 'e) comp" where
  "external f k =
     swith (\<lambda>s. f (ss_calls s)) (\<lambda>out. sseq (smodify (\<lambda>s. s\<lparr>ss_calls := Suc (ss_calls s)\<rparr>)) (k out))"

definition count_metric :: "server_metric \<Rightarrow> ('io, 'tx) server_session \<Rightarrow> ('io, 'tx) server_session" where
  "count_metric m s = s\<lparr>ss_metrics := ss_metrics s @ [m]\<rparr>"

section \<open>Transport selection\<close>

definition set_active_transport ::
    "'io server_env \<Rightarrow> active_transport \<Rightarrow> ('io, 'tx) server_session \<Rightarrow> ('io, 'tx) server_session" where
  "set_active_transport env transport s =
     (if ss_active_transport s = transport then s
      else
        let s = (case (ss_active_transport s, transport) of
                   (ActiveTcp, ActiveUdpQsp) \<Rightarrow> count_metric TransportTcpToUdp s
                 | (ActiveUdpQsp, ActiveTcp) \<Rightarrow>
                     let s = s\<lparr>ss_udp_session :=
                               map_option (\<lambda>q. q\<lparr>qs_io := fst (ev_io_discard env (qs_io q))\<rparr>)
                                 (ss_udp_session s)\<rparr>
                     in count_metric TransportUdpToTcp s
                 | _ \<Rightarrow> s)
        in s\<lparr>ss_active_transport := transport\<rparr>)"

definition note_activity :: "nat \<Rightarrow> ('io, 'tx) server_session \<Rightarrow> ('io, 'tx) server_session" where
  "note_activity received_at s = s\<lparr>ss_last_activity := received_at\<rparr>"

definition note_authenticated_udp_activity ::
    "nat \<Rightarrow> ('io, 'tx) server_session \<Rightarrow> ('io, 'tx) server_session" where
  "note_authenticated_udp_activity received_at s =
     s\<lparr>ss_last_activity := received_at, ss_last_authenticated_udp_activity := Some received_at\<rparr>"

definition adopt_udp_peer_if_newer ::
    "'io server_env \<Rightarrow> socket_addr \<Rightarrow> u64 \<Rightarrow> ('io, 'tx) server_session \<Rightarrow> ('io, 'tx) server_session" where
  "adopt_udp_peer_if_newer env peer packet_number s =
     (if (case ss_udp_peer_packet_number s of None \<Rightarrow> False | Some current \<Rightarrow> packet_number \<le> current)
      then s
      else case ss_udp_session s of
          None \<Rightarrow> s
        | Some q \<Rightarrow>
            s\<lparr>ss_udp_session := Some (q\<lparr>qs_io := ev_io_set_peer env (qs_io q) peer\<rparr>),
              ss_udp_peer_packet_number := Some packet_number\<rparr>)"

definition reset_udp_upgrade_state :: "('io, 'tx) server_session \<Rightarrow> ('io, 'tx) server_session" where
  "reset_udp_upgrade_state s = s\<lparr>ss_udp_upgrade := udp_upgrade_default\<rparr>"

definition retire_udp_transport :: "('io, 'tx) server_session \<Rightarrow> ('io, 'tx) server_session" where
  "retire_udp_transport s =
     reset_udp_upgrade_state
       (s\<lparr>ss_registry := remove_cids_for_session (ss_session_id s) (ss_registry s),
          ss_udp_session := None, ss_udp_peer_packet_number := None,
          ss_last_authenticated_udp_activity := None\<rparr>)"

section \<open>Egress\<close>

text \<open>The write itself: the TLS channel of the session with the outcomes of the environment.  A
  write that exceeds its timeout fails like a failed one, with its own error kind.\<close>

definition tcp_write_error_kind :: "write_outcome \<Rightarrow> tcp_write_error \<Rightarrow> session_error" where
  "tcp_write_error_kind out e =
     (case e of
        TcpFrame frame \<Rightarrow> SeFrame frame
      | TcpIo TlsKeyUpdateFailed \<Rightarrow> SeConnection KOther
      | TcpIo TlsWriteFailed \<Rightarrow>
          SeConnection (case out of WriteFailed k \<Rightarrow> k | WriteTimedOut \<Rightarrow> KTimedOut | WriteDone \<Rightarrow> KOther))"

definition send_tcp_message_inner :: "'io server_env \<Rightarrow> message \<Rightarrow> ('io, 'tx, unit) session_comp" where
  "send_tcp_message_inner env m =
     external (\<lambda>n. (ev_ssl_key_update env n, ev_tcp_write env n)) (\<lambda>(key_update, out) s.
       case tcp_write_message key_update (\<lambda>_. out = WriteDone) m (ss_tcp s) of
         (Inl e, tcp) \<Rightarrow> (s\<lparr>ss_tcp := tcp\<rparr>, Err (tcp_write_error_kind out e))
       | (Inr _, tcp) \<Rightarrow> (s\<lparr>ss_tcp := tcp, ss_tcp_out := ss_tcp_out s @ [m]\<rparr>, Ok ()))"

definition set_tcp_write_interrupted :: "bool \<Rightarrow> ('io, 'tx) server_session \<Rightarrow> ('io, 'tx) server_session" where
  "set_tcp_write_interrupted b s = s\<lparr>ss_tcp_write_interrupted := b\<rparr>"

definition send_tcp_message :: "'io server_env \<Rightarrow> message \<Rightarrow> ('io, 'tx, unit) session_comp" where
  "send_tcp_message env m =
     swith ss_tcp_write_interrupted (\<lambda>interrupted.
       if interrupted then sfail (SeConnection KConnectionAborted)
       else
         sseq (smodify (set_tcp_write_interrupted True))
           (smatch (send_tcp_message_inner env m)
             (\<lambda>e. sseq (smodify (set_tcp_write_interrupted False)) (sfail e))
             (\<lambda>_. smodify (set_tcp_write_interrupted False))))"

definition queue_udp_message ::
    "'io server_env \<Rightarrow> message \<Rightarrow> (('io, 'tx) server_session, unit, udp_qsp_error) comp" where
  "queue_udp_message env m s =
     (case ss_udp_session s of
        None \<Rightarrow> (s, Ok ())
      | Some q \<Rightarrow>
          (case encode_message m [] of
             Inl e \<Rightarrow> (s, Err (UeFrame e))
           | Inr buf \<Rightarrow>
               (case session_send (ev_crypto env) (ev_io_send env) q buf of
                  (q', Inl e) \<Rightarrow> (s\<lparr>ss_udp_session := Some q'\<rparr>, Err (UeQsp e))
                | (q', Inr _) \<Rightarrow>
                    let s = s\<lparr>ss_udp_session := Some q'\<rparr> in
                    (if qs_tx_key_phase q' \<noteq> qs_tx_key_phase q
                     then count_metric UdpQspTxKeyPhaseTransition s else s, Ok ()))))"

definition flush_udp_session ::
    "'io server_env \<Rightarrow> (('io, 'tx) server_session, unit, io_kind) comp" where
  "flush_udp_session env s =
     (case ss_udp_session s of
        None \<Rightarrow> (s, Ok ())
      | Some q \<Rightarrow>
          (case ev_io_flush env (qs_io q) of
             (io, r) \<Rightarrow> (s\<lparr>ss_udp_session := Some (q\<lparr>qs_io := io\<rparr>)\<rparr>, r)))"

definition send_tcp_fallback_request :: "'io server_env \<Rightarrow> ('io, 'tx, unit) session_comp" where
  "send_tcp_fallback_request env =
     swith ss_pending_tcp_fallback (\<lambda>pending.
       if pending \<noteq> None then sreturn ()
       else
         external (ev_random env) (\<lambda>fallback_id.
           sseq (send_tcp_message env
                   (FallbackToTcp (fallback_to_tcp_encode \<lparr>ftt_fallback_id = fallback_id\<rparr> [])))
             (smodify (\<lambda>s. s\<lparr>ss_pending_tcp_fallback := Some fallback_id\<rparr>))))"

datatype udp_failure_recovery = RetryMessageOnTcp | SignalTcpFallback | RetireOnly

definition apply_udp_failure_recovery ::
    "'io server_env \<Rightarrow> message option \<Rightarrow> udp_failure_recovery \<Rightarrow> session_error \<Rightarrow>
     ('io, 'tx, unit) session_comp" where
  "apply_udp_failure_recovery env message recovery fallback_error =
     swith ss_tcp_alive (\<lambda>alive.
       if \<not> alive then sfail fallback_error
       else
         sseq (smodify (set_active_transport env ActiveTcp))
           (case recovery of
              RetryMessageOnTcp \<Rightarrow>
                sseq (send_tcp_fallback_request env)
                  (case message of None \<Rightarrow> sreturn () | Some m \<Rightarrow> send_tcp_message env m)
            | SignalTcpFallback \<Rightarrow> send_tcp_fallback_request env
            | RetireOnly \<Rightarrow> sreturn ()))"

definition recover_from_udp_send_error ::
    "'io server_env \<Rightarrow> message \<Rightarrow> udp_failure_recovery \<Rightarrow> udp_qsp_error \<Rightarrow> ('io, 'tx, unit) session_comp" where
  "recover_from_udp_send_error env message recovery err =
     (if \<not> (case err of UeQsp _ \<Rightarrow> True | UeIo _ \<Rightarrow> True | _ \<Rightarrow> False) then sfail (SeUdpQsp err)
      else
        sseq (smodify retire_udp_transport)
          (apply_udp_failure_recovery env (Some message) recovery (SeUdpQsp err)))"

definition recover_from_udp_flush_error ::
    "'io server_env \<Rightarrow> message option \<Rightarrow> udp_failure_recovery \<Rightarrow> io_kind \<Rightarrow> ('io, 'tx, unit) session_comp" where
  "recover_from_udp_flush_error env message recovery source =
     sseq (smodify retire_udp_transport)
       (apply_udp_failure_recovery env message recovery (SeUdpQsp (UeIo source)))"

definition send_udp_message ::
    "'io server_env \<Rightarrow> message \<Rightarrow> udp_failure_recovery \<Rightarrow> ('io, 'tx, unit) session_comp" where
  "send_udp_message env message recovery =
     smatch (queue_udp_message env message) (recover_from_udp_send_error env message recovery) sreturn"

definition send_udp_message_and_flush ::
    "'io server_env \<Rightarrow> message \<Rightarrow> udp_failure_recovery \<Rightarrow> ('io, 'tx, unit) session_comp" where
  "send_udp_message_and_flush env message recovery =
     sseq (send_udp_message env message recovery)
       (smatch (flush_udp_session env)
         (recover_from_udp_flush_error env (Some message) recovery) sreturn)"

definition has_pending_udp_flush :: "'io server_env \<Rightarrow> ('io, 'tx) server_session \<Rightarrow> bool" where
  "has_pending_udp_flush env s \<longleftrightarrow>
     ss_active_transport s = ActiveUdpQsp \<and>
     (case ss_udp_session s of None \<Rightarrow> False | Some q \<Rightarrow> ev_io_has_pending env (qs_io q))"

definition send_close_over_tcp :: "'io server_env \<Rightarrow> close_code \<Rightarrow> ('io, 'tx, unit) session_comp" where
  "send_close_over_tcp env code =
     swith (\<lambda>s. \<not> ss_tcp_alive s \<or> ss_tcp_write_interrupted s) (\<lambda>unavailable.
       if unavailable then sfail (SeConnection KNotConnected)
       else send_tcp_message env (Close (close_encode code [])))"

definition send_close_over_udp :: "'io server_env \<Rightarrow> close_code \<Rightarrow> ('io, 'tx, unit) session_comp" where
  "send_close_over_udp env code =
     swith (\<lambda>s. ss_udp_session s = None) (\<lambda>none.
       if none then sfail (SeConnection KNotConnected)
       else
         smatch (queue_udp_message env (Close (close_encode code [])))
           (\<lambda>e. sfail (SeUdpQsp e))
           (\<lambda>_. smatch (flush_udp_session env) (\<lambda>e. sfail (SeUdpQsp (UeIo e))) sreturn))"

definition send_close :: "'io server_env \<Rightarrow> close_code \<Rightarrow> ('io, 'tx, unit) session_comp" where
  "send_close env code =
     swith (\<lambda>s. ss_tcp_alive s \<and> \<not> ss_tcp_write_interrupted s) (\<lambda>tcp.
       if tcp then send_close_over_tcp env code else send_close_over_udp env code)"

section \<open>Upgrade\<close>

definition MAX_STALE_UPGRADE_IDS :: nat where
  "MAX_STALE_UPGRADE_IDS = 16"

definition reset_udp_upgrade_attempt_preserving_history :: "udp_upgrade_state \<Rightarrow> udp_upgrade_state" where
  "reset_udp_upgrade_attempt_preserving_history u =
     u\<lparr>uu_upgrade_id := None, uu_probe_seen := False, uu_ready_seen := False,
       uu_switch_to_udp_sent := False\<rparr>"

definition remember_stale_upgrade_id :: "u64 \<Rightarrow> udp_upgrade_state \<Rightarrow> udp_upgrade_state" where
  "remember_stale_upgrade_id upgrade_id u =
     (if upgrade_id \<in> set (uu_stale_upgrade_ids u) then u
      else
        let ids = (if MAX_STALE_UPGRADE_IDS \<le> length (uu_stale_upgrade_ids u)
                   then drop 1 (uu_stale_upgrade_ids u) else uu_stale_upgrade_ids u)
        in u\<lparr>uu_stale_upgrade_ids := ids @ [upgrade_id]\<rparr>)"

datatype upgrade_source = SourceUpgradeProbe | SourceUdpReady

definition note_upgrade_id ::
    "u64 \<Rightarrow> upgrade_source \<Rightarrow> udp_upgrade_state \<Rightarrow> udp_upgrade_state \<times> bool" where
  "note_upgrade_id upgrade_id source u =
     (if source = SourceUpgradeProbe \<and> upgrade_id \<in> set (uu_stale_upgrade_ids u) then (u, False)
      else case uu_upgrade_id u of
          Some existing \<Rightarrow>
            if existing = upgrade_id then (u, True)
            else if source = SourceUpgradeProbe then
              let u = remember_stale_upgrade_id existing u;
                  u = reset_udp_upgrade_attempt_preserving_history u
              in (u\<lparr>uu_upgrade_id := Some upgrade_id\<rparr>, True)
            else (u, False)
        | None \<Rightarrow> (u\<lparr>uu_upgrade_id := Some upgrade_id\<rparr>, True))"

definition session_note_upgrade_id ::
    "u64 \<Rightarrow> upgrade_source \<Rightarrow> ('io, 'tx, bool) session_comp" where
  "session_note_upgrade_id upgrade_id source s =
     (case note_upgrade_id upgrade_id source (ss_udp_upgrade s) of
        (u, accepted) \<Rightarrow> (s\<lparr>ss_udp_upgrade := u\<rparr>, Ok accepted))"

definition update_upgrade ::
    "(udp_upgrade_state \<Rightarrow> udp_upgrade_state) \<Rightarrow> ('io, 'tx) server_session \<Rightarrow> ('io, 'tx) server_session" where
  "update_upgrade f s = s\<lparr>ss_udp_upgrade := f (ss_udp_upgrade s)\<rparr>"

definition maybe_send_switch_to_udp :: "'io server_env \<Rightarrow> ('io, 'tx, unit) session_comp" where
  "maybe_send_switch_to_udp env =
     swith ss_udp_upgrade (\<lambda>u.
       if uu_switch_to_udp_sent u \<or> \<not> uu_probe_seen u \<or> \<not> uu_ready_seen u then sreturn ()
       else case uu_upgrade_id u of
           None \<Rightarrow> sreturn ()
         | Some upgrade_id \<Rightarrow>
             sseq (send_tcp_message env
                     (SwitchToUdp (switch_to_udp_encode \<lparr>switch_upgrade_id = upgrade_id\<rparr> [])))
               (smodify (update_upgrade (\<lambda>u. u\<lparr>uu_switch_to_udp_sent := True\<rparr>))))"

definition handle_upgrade_probe :: "'io server_env \<Rightarrow> bytes \<Rightarrow> ('io, 'tx, session_control) session_comp" where
  "handle_upgrade_probe env payload =
     sbind (slift (map_err SePayload (upgrade_probe_decode payload))) (\<lambda>probe.
     sbind (session_note_upgrade_id (probe_upgrade_id probe) SourceUpgradeProbe) (\<lambda>accepted.
       if \<not> accepted then sreturn Continue
       else
         sseq (smodify (update_upgrade (\<lambda>u. u\<lparr>uu_probe_seen := True\<rparr>)))
         (sseq (send_udp_message_and_flush env
                  (UpgradeProbeAck (upgrade_probe_ack_encode
                     \<lparr>ack_upgrade_id = probe_upgrade_id probe, ack_nonce = probe_nonce probe\<rparr> []))
                  RetireOnly)
         (sseq (maybe_send_switch_to_udp env) (sreturn Continue)))))"

definition handle_udp_ready :: "'io server_env \<Rightarrow> bytes \<Rightarrow> ('io, 'tx, session_control) session_comp" where
  "handle_udp_ready env payload =
     sbind (slift (map_err SePayload (udp_ready_decode payload))) (\<lambda>ready.
     sbind (session_note_upgrade_id (ready_upgrade_id ready) SourceUdpReady) (\<lambda>accepted.
       if \<not> accepted then sreturn Continue
       else
         sseq (smodify (update_upgrade (\<lambda>u. u\<lparr>uu_ready_seen := True\<rparr>)))
         (sseq (maybe_send_switch_to_udp env) (sreturn Continue))))"

definition handle_switch_ack :: "'io server_env \<Rightarrow> bytes \<Rightarrow> ('io, 'tx, session_control) session_comp" where
  "handle_switch_ack env payload =
     sbind (slift (map_err SePayload (switch_ack_decode payload))) (\<lambda>ack.
     swith ss_udp_upgrade (\<lambda>u.
       case uu_upgrade_id u of
         None \<Rightarrow> sreturn Continue
       | Some current \<Rightarrow>
           if current \<noteq> sack_upgrade_id ack then sreturn Continue
           else if \<not> uu_switch_to_udp_sent u then sreturn Continue
           else
             sseq (smodify (set_active_transport env ActiveUdpQsp))
             (sseq (send_tcp_message env
                      (SwitchOk (switch_ok_encode \<lparr>sok_upgrade_id = sack_upgrade_id ack\<rparr> [])))
             (sseq (smodify (update_upgrade (\<lambda>u. reset_udp_upgrade_attempt_preserving_history
                      (remember_stale_upgrade_id (sack_upgrade_id ack) u))))
             (sreturn Continue)))))"

section \<open>Registration\<close>

fun register_decode_fail_code :: "payload_error \<Rightarrow> register_fail_code" where
  "register_decode_fail_code (InvalidCipher _) = RegisterInvalidCipher"
| "register_decode_fail_code (LengthMismatch _ _) = InvalidKeys"
| "register_decode_fail_code (InvalidKeyPhase _) = InvalidKeys"
| "register_decode_fail_code _ = register_fail_code.InvalidCid"

fun crypto_fail_code :: "qsp_crypto_error \<Rightarrow> register_fail_code" where
  "crypto_fail_code UnsupportedCipher = RegisterInvalidCipher"
| "crypto_fail_code _ = InvalidKeys"

definition send_register_fail ::
    "'io server_env \<Rightarrow> register_fail_code \<Rightarrow> ('io, 'tx, session_control) session_comp" where
  "send_register_fail env code =
     sseq (send_tcp_message env (RegisterFail (register_fail_encode code []))) (sreturn Continue)"

definition placeholder_peer :: socket_addr where
  "placeholder_peer = SocketAddr [0, 0, 0, 0] 0"

text \<open>Registering the route, which replaces the session's earlier ones.\<close>

definition session_insert_cid ::
    "cid_prefix \<Rightarrow> (('io, 'tx) server_session, (unit, cid_insert_error) result, session_error) comp" where
  "session_insert_cid dcid_prefix s =
     (case insert_cid (ss_client_id s) (ss_session_id s) dcid_prefix (ss_tx s) (ss_registry s) of
        (r, outcome) \<Rightarrow> (s\<lparr>ss_registry := r\<rparr>, Ok outcome))"

definition install_udp_session ::
    "'io \<Rightarrow> register_cid_payload \<Rightarrow> udp_qsp_keys \<Rightarrow> ('io, 'tx) server_session \<Rightarrow> ('io, 'tx) server_session" where
  "install_udp_session io register keys s =
     reset_udp_upgrade_state
       (s\<lparr>ss_udp_session :=
            Some (quic_qsp_session_new io (rc_client_to_server_cid register)
              (rc_server_to_client_cid register) keys (rc_pn_start register) (rc_pn_start_rx register)
              (rc_key_phase register)),
          ss_udp_peer_packet_number := None, ss_last_authenticated_udp_activity := None\<rparr>)"

definition accept_registration ::
    "'io server_env \<Rightarrow> register_cid_payload \<Rightarrow> udp_qsp_keys \<Rightarrow> cid_prefix \<Rightarrow>
     ('io, 'tx, session_control) session_comp" where
  "accept_registration env register keys dcid_prefix =
     sseq (smodify (\<lambda>s. s\<lparr>ss_registry :=
             remove_cids_for_session_except (ss_session_id s) dcid_prefix (ss_registry s)\<rparr>))
     (external (\<lambda>n. ev_io_create env n placeholder_peer) (\<lambda>created.
      sbind (slift (map_err SeConnection created)) (\<lambda>io.
      sseq (smodify (install_udp_session io register keys))
     (sbind (slift (map_err SePayloadEncode (register_ok_encode (rc_client_to_server_cid register) [])))
        (\<lambda>ok_buf. sseq (send_tcp_message env (RegisterOk ok_buf)) (sreturn Continue))))))"

definition handle_register_cid :: "'io server_env \<Rightarrow> bytes \<Rightarrow> ('io, 'tx, session_control) session_comp" where
  "handle_register_cid env payload =
     (case register_cid_decode payload of
        Inl err \<Rightarrow> send_register_fail env (register_decode_fail_code err)
      | Inr register \<Rightarrow>
          swith (\<lambda>s. rc_cipher register \<in> set (ss_allowed_ciphers s)) (\<lambda>allowed.
            if \<not> allowed then send_register_fail env RegisterInvalidCipher
            else case udp_qsp_keys_from_register (ev_crypto env) register of
                Inl err \<Rightarrow> send_register_fail env (crypto_fail_code err)
              | Inr keys \<Rightarrow>
                  (case cid_prefix (rc_client_to_server_cid register) of
                     Inl _ \<Rightarrow> send_register_fail env register_fail_code.InvalidCid
                   | Inr dcid_prefix \<Rightarrow>
                       sbind (session_insert_cid dcid_prefix) (\<lambda>inserted.
                         case inserted of
                           Inl _ \<Rightarrow> send_register_fail env register_fail_code.InvalidCid
                         | Inr _ \<Rightarrow> accept_registration env register keys dcid_prefix))))"

section \<open>Packets and messages\<close>

definition handle_tun_packet :: "'io server_env \<Rightarrow> bytes \<Rightarrow> ('io, 'tx, session_control) session_comp" where
  "handle_tun_packet env packet =
     swith (\<lambda>s. (max_data_len (ss_limits s), ss_active_transport s)) (\<lambda>(max_len, active).
       if max_len < length packet then sreturn Continue
       else
         sseq (case active of
                 ActiveTcp \<Rightarrow> send_tcp_message env (Data packet)
               | ActiveUdpQsp \<Rightarrow> send_udp_message env (Data packet) RetryMessageOnTcp)
           (sreturn Continue))"

fun tun_send_result :: "(tun_packet_send_outcome, io_kind) result \<Rightarrow> (unit, session_error) result" where
  "tun_send_result (Inl e) = Err (SeIo e)"
| "tun_send_result (Inr TunAccepted) = Ok ()"
| "tun_send_result (Inr (TunDropped _)) = Ok ()"
| "tun_send_result (Inr TunClosed) = Err (SeIo KBrokenPipe)"

text \<open>DATA from the client, on either transport.\<close>

definition forward_to_tun :: "'io server_env \<Rightarrow> bytes \<Rightarrow> ('io, 'tx, session_control) session_comp" where
  "forward_to_tun env packet =
     swith (\<lambda>s. validate_packet_src (ss_assigned_ipv4 s) packet) (\<lambda>valid.
       if \<not> valid then sreturn Continue
       else
         external (\<lambda>n. ev_tun_accept env n packet) (\<lambda>outcome.
         sseq (smodify (\<lambda>s. s\<lparr>ss_tun_out := ss_tun_out s @ [packet]\<rparr>))
         (sseq (slift (tun_send_result outcome)) (sreturn Continue))))"

definition pong_payload_for_ping :: "bytes \<Rightarrow> (bytes, session_error) result" where
  "pong_payload_for_ping payload =
     map_result (\<lambda>ping. u64_to_be_bytes (ping_nonce ping)) (map_err SePayload (ping_decode payload))"

definition peer_close_control ::
    "bool \<Rightarrow> ('io, 'tx, session_control) session_comp" where
  "peer_close_control increment_disconnect_close =
     sseq (smodify (\<lambda>s. if increment_disconnect_close then count_metric DisconnectClose s else s))
       (sreturn CloseSession)"

definition handle_fallback_to_tcp :: "'io server_env \<Rightarrow> bytes \<Rightarrow> ('io, 'tx, session_control) session_comp" where
  "handle_fallback_to_tcp env payload =
     sbind (slift (map_err SePayload (fallback_to_tcp_decode payload))) (\<lambda>request.
     sseq (smodify (\<lambda>s.
             if ss_last_peer_fallback_id s = Some (ftt_fallback_id request) then s
             else (reset_udp_upgrade_state (set_active_transport env ActiveTcp s))
                    \<lparr>ss_last_peer_fallback_id := Some (ftt_fallback_id request)\<rparr>))
     (sseq (send_tcp_message env
              (FallbackOk (fallback_ok_encode \<lparr>fok_fallback_id = ftt_fallback_id request\<rparr> [])))
     (sreturn Continue)))"

definition handle_fallback_ok :: "bytes \<Rightarrow> ('io, 'tx, session_control) session_comp" where
  "handle_fallback_ok payload =
     sbind (slift (map_err SePayload (fallback_ok_decode payload))) (\<lambda>ok.
     sseq (smodify (\<lambda>s.
             if ss_pending_tcp_fallback s = Some (fok_fallback_id ok)
             then s\<lparr>ss_pending_tcp_fallback := None\<rparr> else s))
     (sreturn Continue))"

definition session_context :: "message_transport \<Rightarrow> message_context" where
  "session_context transport =
     \<lparr>ctx_sender = FromClient, ctx_phase = Established, ctx_transport = transport\<rparr>"

definition validate_client_message ::
    "message_transport \<Rightarrow> message \<Rightarrow> (unit, session_error) result" where
  "validate_client_message transport m =
     map_err session_error_from_validation (validate_message m (session_context transport))"

definition dispatch_tcp_message :: "'io server_env \<Rightarrow> message \<Rightarrow> ('io, 'tx, session_control) session_comp" where
  "dispatch_tcp_message env m =
     (case m of
        UdpReady payload \<Rightarrow> handle_udp_ready env payload
      | SwitchAck payload \<Rightarrow> handle_switch_ack env payload
      | Data packet \<Rightarrow> forward_to_tun env packet
      | Ping payload \<Rightarrow>
          sbind (slift (pong_payload_for_ping payload)) (\<lambda>pong.
            sseq (send_tcp_message env (Pong pong)) (sreturn Continue))
      | Pong payload \<Rightarrow>
          sbind (slift (map_err SePayload (pong_decode payload))) (\<lambda>_. sreturn Continue)
      | Close payload \<Rightarrow>
          sbind (slift (map_err SePayload (close_decode payload))) (\<lambda>_. peer_close_control True)
      | RegisterCid payload \<Rightarrow>
          swith ss_active_transport (\<lambda>active.
            if active = ActiveUdpQsp then sfail SeProtocolViolation
            else handle_register_cid env payload)
      | FallbackToTcp payload \<Rightarrow> handle_fallback_to_tcp env payload
      | FallbackOk payload \<Rightarrow> handle_fallback_ok payload
      | _ \<Rightarrow> sfail SePanic)"

definition handle_tcp_message :: "'io server_env \<Rightarrow> message \<Rightarrow> ('io, 'tx, session_control) session_comp" where
  "handle_tcp_message env m =
     sseq (slift (validate_client_message Tcp m)) (dispatch_tcp_message env m)"

datatype udp_open_outcome = Opened u64 bytes | Dropped

definition open_udp_packet ::
    "'io server_env \<Rightarrow> bytes \<Rightarrow> ('io, 'tx) server_session \<Rightarrow> ('io, 'tx) server_session \<times> udp_open_outcome" where
  "open_udp_packet env payload s =
     (case ss_udp_session s of
        None \<Rightarrow> (s, Dropped)
      | Some q \<Rightarrow>
          (case open_packet (ev_crypto env) q payload :: _ \<times> (opened_packet, io_kind qsp_session_error) result of
             (q', Inl QsReplay) \<Rightarrow> (count_metric DecryptFailReplay (s\<lparr>ss_udp_session := Some q'\<rparr>), Dropped)
           | (q', Inl QsTooOld) \<Rightarrow> (count_metric DecryptFailTooOld (s\<lparr>ss_udp_session := Some q'\<rparr>), Dropped)
           | (q', Inl (QsCrypto _)) \<Rightarrow> (count_metric DecryptFailCrypto (s\<lparr>ss_udp_session := Some q'\<rparr>), Dropped)
           | (q', Inl _) \<Rightarrow> (count_metric DecryptFailOther (s\<lparr>ss_udp_session := Some q'\<rparr>), Dropped)
           | (q', Inr opened) \<Rightarrow>
               let s = s\<lparr>ss_udp_session := Some q'\<rparr>;
                   s = (if qs_rx_key_phase q' \<noteq> qs_rx_key_phase q
                        then count_metric UdpQspRxKeyPhaseTransition s else s)
               in (s, Opened (op_pn opened) (op_payload opened))))"

definition decode_udp_message :: "message_limits \<Rightarrow> bytes \<Rightarrow> (message, session_error) result" where
  "decode_udp_message limits payload =
     bind_result (map_err SeMessage (decode_padded_message payload limits))
       (\<lambda>decoded. ok_or SeProtocolViolation (map_option fst decoded))"

definition dispatch_udp_message :: "'io server_env \<Rightarrow> message \<Rightarrow> ('io, 'tx, session_control) session_comp" where
  "dispatch_udp_message env m =
     (case m of
        Ping payload \<Rightarrow>
          sbind (slift (pong_payload_for_ping payload)) (\<lambda>pong.
            sseq (send_udp_message_and_flush env (Pong pong) SignalTcpFallback) (sreturn Continue))
      | Pong payload \<Rightarrow>
          sbind (slift (map_err SePayload (pong_decode payload))) (\<lambda>_. sreturn Continue)
      | Data packet \<Rightarrow> forward_to_tun env packet
      | UpgradeProbe payload \<Rightarrow> handle_upgrade_probe env payload
      | Close payload \<Rightarrow>
          sbind (slift (map_err SePayload (close_decode payload))) (\<lambda>_. peer_close_control False)
      | _ \<Rightarrow> sfail SePanic)"

text \<open>What follows a packet that opened: the peer is adopted, then the message handled.\<close>

definition handle_opened ::
    "'io server_env \<Rightarrow> nat \<Rightarrow> socket_addr \<Rightarrow> u64 \<Rightarrow> bytes \<Rightarrow> ('io, 'tx, session_control) session_comp" where
  "handle_opened env now peer packet_number opened =
     sseq (smodify (adopt_udp_peer_if_newer env peer packet_number))
     (swith ss_limits (\<lambda>limits.
      sbind (slift (decode_udp_message limits opened)) (\<lambda>m.
      sseq (slift (validate_client_message UdpQsp m))
     (sbind (dispatch_udp_message env m) (\<lambda>control.
      sseq (smodify (note_authenticated_udp_activity now)) (sreturn control))))))"

definition handle_udp_claim :: "'io server_env \<Rightarrow> nat \<Rightarrow> udp_claim \<Rightarrow> ('io, 'tx, session_control) session_comp" where
  "handle_udp_claim env now claim s =
     (case open_udp_packet env (uc_payload claim) s of
        (s, Opened packet_number opened) \<Rightarrow> handle_opened env now (uc_peer claim) packet_number opened s
      | (s, Dropped) \<Rightarrow> (s, Ok Continue))"

section \<open>What no handler changes\<close>

text \<open>The identity of the session, its limits, the liveness of TCP, the mark of an interrupted
  write and the TCP read buffer stay the same, and only packets from the session's own address reach the TUN device.\<close>

definition session_frame :: "('io, 'tx) server_session \<Rightarrow> ('io, 'tx) server_session \<Rightarrow> bool" where
  "session_frame s0 s \<longleftrightarrow>
     ss_client_id s = ss_client_id s0 \<and> ss_session_id s = ss_session_id s0 \<and>
     ss_assigned_ipv4 s = ss_assigned_ipv4 s0 \<and> ss_tx s = ss_tx s0 \<and> ss_limits s = ss_limits s0 \<and>
     ss_timeouts s = ss_timeouts s0 \<and> ss_allowed_ciphers s = ss_allowed_ciphers s0 \<and>
     ss_tcp_alive s = ss_tcp_alive s0 \<and>
     ss_tcp_write_interrupted s = ss_tcp_write_interrupted s0 \<and> tc_read_buf (ss_tcp s) = tc_read_buf (ss_tcp s0) \<and>
     (\<forall>p \<in> set (ss_tun_out s). p \<in> set (ss_tun_out s0) \<or> validate_packet_src (ss_assigned_ipv4 s0) p)"

abbreviation no_panic :: "session_error \<Rightarrow> bool" where
  "no_panic e \<equiv> e \<noteq> SePanic"

lemma session_frame_refl [simp]: "session_frame s s"
  by (simp add: session_frame_def)

lemma session_frame_updates [simp]:
  "session_frame s0 (s\<lparr>ss_calls := n\<rparr>) = session_frame s0 s"
  "session_frame s0 (s\<lparr>ss_metrics := ms\<rparr>) = session_frame s0 s"
  "session_frame s0 (s\<lparr>ss_udp_session := q\<rparr>) = session_frame s0 s"
  "session_frame s0 (s\<lparr>ss_active_transport := t\<rparr>) = session_frame s0 s"
  "session_frame s0 (s\<lparr>ss_registry := r\<rparr>) = session_frame s0 s"
  "session_frame s0 (s\<lparr>ss_udp_peer_packet_number := pn\<rparr>) = session_frame s0 s"
  "session_frame s0 (s\<lparr>ss_last_authenticated_udp_activity := a\<rparr>) = session_frame s0 s"
  "session_frame s0 (s\<lparr>ss_last_activity := l\<rparr>) = session_frame s0 s"
  "session_frame s0 (s\<lparr>ss_udp_upgrade := u\<rparr>) = session_frame s0 s"
  "session_frame s0 (s\<lparr>ss_pending_tcp_fallback := f\<rparr>) = session_frame s0 s"
  "session_frame s0 (s\<lparr>ss_last_peer_fallback_id := f\<rparr>) = session_frame s0 s"
  "session_frame s0 (s\<lparr>ss_tcp_out := out\<rparr>) = session_frame s0 s"
  by (simp_all add: session_frame_def)

lemma session_frame_helpers [simp]:
  "session_frame s0 (count_metric m s) = session_frame s0 s"
  "session_frame s0 (set_active_transport env t s) = session_frame s0 s"
  "session_frame s0 (note_activity now s) = session_frame s0 s"
  "session_frame s0 (note_authenticated_udp_activity now s) = session_frame s0 s"
  "session_frame s0 (adopt_udp_peer_if_newer env peer pn s) = session_frame s0 s"
  "session_frame s0 (reset_udp_upgrade_state s) = session_frame s0 s"
  "session_frame s0 (retire_udp_transport s) = session_frame s0 s"
  "session_frame s0 (update_upgrade f s) = session_frame s0 s"
  "session_frame s0 (install_udp_session io register keys s) = session_frame s0 s"
  by (simp_all add: count_metric_def set_active_transport_def note_activity_def
      note_authenticated_udp_activity_def adopt_udp_peer_if_newer_def reset_udp_upgrade_state_def
      retire_udp_transport_def update_upgrade_def install_udp_session_def Let_def split: active_transport.split option.split)

lemma keeps_external:
  assumes "\<And>s n. I s \<Longrightarrow> I (s\<lparr>ss_calls := n\<rparr>)" "\<And>out. keeps I F (k out)"
  shows "keeps I F (external f k)"
  unfolding external_def by (intro keep keeps_modify assms)

lemma keeps_external_frame [keep]:
  "(\<And>n. keeps (session_frame s0) F (k (f n))) \<Longrightarrow> keeps (session_frame s0) F (external f k)"
  by (auto simp: external_def hoare_def swith_def sseq_def sbind_def smodify_def)

lemma send_tcp_message_inner_frame [keep]:
  "keeps (session_frame s0) no_panic (send_tcp_message_inner env m)"
  unfolding send_tcp_message_inner_def
proof (rule keeps_external_frame, rule hoareI)
  fix n s s' a
  assume "session_frame s0 s"
    "(case (ev_ssl_key_update env n, ev_tcp_write env n) of (key_update, out) \<Rightarrow> (\<lambda>s.
       case tcp_write_message key_update (\<lambda>_. out = WriteDone) m (ss_tcp s) of
         (Inl e, tcp) \<Rightarrow> (s\<lparr>ss_tcp := tcp\<rparr>, Err (tcp_write_error_kind out e))
       | (Inr _, tcp) \<Rightarrow> (s\<lparr>ss_tcp := tcp, ss_tcp_out := ss_tcp_out s @ [m]\<rparr>, Ok ()))) s = (s', Ok a)"
  then show "session_frame s0 s'"
    by (auto simp: session_frame_def dest: tcp_write_message_read_buf split: prod.splits sum.splits)
next
  fix n s s' e
  assume "session_frame s0 s"
    "(case (ev_ssl_key_update env n, ev_tcp_write env n) of (key_update, out) \<Rightarrow> (\<lambda>s.
       case tcp_write_message key_update (\<lambda>_. out = WriteDone) m (ss_tcp s) of
         (Inl e, tcp) \<Rightarrow> (s\<lparr>ss_tcp := tcp\<rparr>, Err (tcp_write_error_kind out e))
       | (Inr _, tcp) \<Rightarrow> (s\<lparr>ss_tcp := tcp, ss_tcp_out := ss_tcp_out s @ [m]\<rparr>, Ok ()))) s = (s', Err e)"
  then show "session_frame s0 s' \<and> no_panic e"
    by (auto simp: session_frame_def tcp_write_error_kind_def dest: tcp_write_message_read_buf
        split: prod.splits sum.splits tcp_write_error.splits io_error.splits)
qed

lemma session_frame_interrupted:
  "session_frame s0 s \<Longrightarrow>
   session_frame (set_tcp_write_interrupted b s0) (set_tcp_write_interrupted b s)"
  "session_frame (set_tcp_write_interrupted b s0) s \<Longrightarrow>
   session_frame s0 (set_tcp_write_interrupted (ss_tcp_write_interrupted s0) s)"
  by (simp_all add: session_frame_def set_tcp_write_interrupted_def)

lemma send_tcp_message_frame [keep]: "keeps (session_frame s0) no_panic (send_tcp_message env m)"
proof (cases "ss_tcp_write_interrupted s0")
  case True
  then show ?thesis
    by (auto simp: send_tcp_message_def hoare_def swith_def sfail_def session_frame_def)
next
  case False
  let ?s0 = "set_tcp_write_interrupted True s0"
  have restore: "session_frame ?s0 s \<Longrightarrow> session_frame s0 (set_tcp_write_interrupted False s)" for s
    using session_frame_interrupted(2) [of True s0 s] False by simp
  have inner: "hoare (session_frame ?s0)
      (smatch (send_tcp_message_inner env m)
         (\<lambda>e. sseq (smodify (set_tcp_write_interrupted False)) (sfail e))
         (\<lambda>_. smodify (set_tcp_write_interrupted False)))
      (\<lambda>_. session_frame s0) (\<lambda>e s. session_frame s0 s \<and> no_panic e)"
  proof (rule hoare_match [OF _ _ send_tcp_message_inner_frame])
    show "hoare (session_frame ?s0) (smodify (set_tcp_write_interrupted False))
        (\<lambda>_. session_frame s0) (\<lambda>e s. session_frame s0 s \<and> no_panic e)"
      by (rule hoare_pre [OF hoare_modify]) (rule restore)
    show "hoare (\<lambda>s. session_frame ?s0 s \<and> no_panic e)
        (sseq (smodify (set_tcp_write_interrupted False)) (sfail e))
        (\<lambda>_. session_frame s0) (\<lambda>e s. session_frame s0 s \<and> no_panic e)" for e
      by (rule hoare_seq [OF hoare_fail], rule hoare_pre [OF hoare_modify]) (simp add: restore)
  qed
  have "hoare (\<lambda>s. session_frame s0 s \<and> \<not> i)
      (if i then sfail (SeConnection KConnectionAborted)
       else sseq (smodify (set_tcp_write_interrupted True))
         (smatch (send_tcp_message_inner env m)
           (\<lambda>e. sseq (smodify (set_tcp_write_interrupted False)) (sfail e))
           (\<lambda>_. smodify (set_tcp_write_interrupted False))))
      (\<lambda>_. session_frame s0) (\<lambda>e s. session_frame s0 s \<and> no_panic e)" for i
  proof (cases i)
    case True
    then show ?thesis by (simp add: hoare_def)
  next
    case False
    show ?thesis
      unfolding if_not_P [OF False]
      by (rule hoare_seq [OF inner], rule hoare_pre [OF hoare_modify])
        (simp add: session_frame_interrupted(1))
  qed
  then show ?thesis
    unfolding send_tcp_message_def
    by (rule hoare_pre [OF hoare_with]) (use False in \<open>simp add: session_frame_def\<close>)
qed

lemma queue_udp_message_frame: "keeps (session_frame s0) (\<lambda>_. True) (queue_udp_message env m)"
  by (auto simp: hoare_def queue_udp_message_def Let_def split: option.splits sum.splits prod.splits)

lemma flush_udp_session_frame: "keeps (session_frame s0) (\<lambda>_. True) (flush_udp_session env)"
  by (auto simp: hoare_def flush_udp_session_def split: option.splits sum.splits prod.splits)

lemmas frame_match = keeps_match [OF queue_udp_message_frame] keeps_match [OF flush_udp_session_frame]

lemma send_tcp_fallback_request_frame [keep]:
  "keeps (session_frame s0) no_panic (send_tcp_fallback_request env)"
  unfolding send_tcp_fallback_request_def by (intro keep keeps_modify) simp_all

lemma apply_udp_failure_recovery_frame [keep]:
  "no_panic e \<Longrightarrow> keeps (session_frame s0) no_panic (apply_udp_failure_recovery env m r e)"
  unfolding apply_udp_failure_recovery_def
  by (cases r) (auto intro!: keep keeps_modify)

lemma recover_from_udp_send_error_frame [keep]:
  "keeps (session_frame s0) no_panic (recover_from_udp_send_error env m r e)"
  unfolding recover_from_udp_send_error_def by (intro keep keeps_modify) simp_all

lemma recover_from_udp_flush_error_frame [keep]:
  "keeps (session_frame s0) no_panic (recover_from_udp_flush_error env m r e)"
  unfolding recover_from_udp_flush_error_def by (intro keep keeps_modify) simp_all

lemma send_udp_message_frame [keep]: "keeps (session_frame s0) no_panic (send_udp_message env m r)"
  unfolding send_udp_message_def by (intro frame_match keep)

lemma send_udp_message_and_flush_frame [keep]:
  "keeps (session_frame s0) no_panic (send_udp_message_and_flush env m r)"
  unfolding send_udp_message_and_flush_def by (intro keep frame_match)

lemma send_close_over_tcp_frame [keep]: "keeps (session_frame s0) no_panic (send_close_over_tcp env c)"
  unfolding send_close_over_tcp_def by (intro keep) simp

lemma send_close_over_udp_frame [keep]: "keeps (session_frame s0) no_panic (send_close_over_udp env c)"
  unfolding send_close_over_udp_def by (intro keep frame_match) simp_all

lemma send_close_frame [keep]: "keeps (session_frame s0) no_panic (send_close env c)"
  unfolding send_close_def by (intro keep)

lemma session_note_upgrade_id_frame [keep]:
  "keeps (session_frame s0) F (session_note_upgrade_id u source)"
  by (auto simp: hoare_def session_note_upgrade_id_def split: prod.splits)

lemma session_insert_cid_frame [keep]: "keeps (session_frame s0) F (session_insert_cid p)"
  by (auto simp: hoare_def session_insert_cid_def split: prod.splits)

lemma lift_payload_frame [keep]: "keeps I no_panic (slift (map_err SePayload r))"
  by (rule keeps_lift) auto

lemma maybe_send_switch_frame [keep]: "keeps (session_frame s0) no_panic (maybe_send_switch_to_udp env)"
  unfolding maybe_send_switch_to_udp_def by (intro keep keeps_modify) simp

lemma handle_upgrade_probe_frame [keep]: "keeps (session_frame s0) no_panic (handle_upgrade_probe env p)"
  unfolding handle_upgrade_probe_def by (intro keep keeps_modify) simp

lemma handle_udp_ready_frame [keep]: "keeps (session_frame s0) no_panic (handle_udp_ready env p)"
  unfolding handle_udp_ready_def by (intro keep keeps_modify) simp

lemma handle_switch_ack_frame [keep]: "keeps (session_frame s0) no_panic (handle_switch_ack env p)"
  unfolding handle_switch_ack_def by (intro keep keeps_modify) simp_all

lemma send_register_fail_frame [keep]: "keeps (session_frame s0) no_panic (send_register_fail env c)"
  unfolding send_register_fail_def by (intro keep)

lemma accept_registration_frame [keep]:
  "keeps (session_frame s0) no_panic (accept_registration env reg ks p)"
  unfolding accept_registration_def by (intro keep keeps_modify) (auto simp: map_err_Inl)

lemma handle_register_cid_frame [keep]: "keeps (session_frame s0) no_panic (handle_register_cid env p)"
  unfolding handle_register_cid_def by (intro keep)

lemma handle_tun_packet_frame [keep]: "keeps (session_frame s0) no_panic (handle_tun_packet env p)"
  unfolding handle_tun_packet_def
  by (auto simp: split_beta intro!: keep split: active_transport.split)

lemma tun_send_result_no_panic: "tun_send_result r = Inl e \<Longrightarrow> no_panic e"
  by (induction r rule: tun_send_result.induct) auto

lemma forward_to_tun_frame [keep]: "keeps (session_frame s0) no_panic (forward_to_tun env p)"
proof (rule hoareI)
  fix s s' a
  assume f: "session_frame s0 s" and run: "forward_to_tun env p s = (s', Ok a)"
  then show "session_frame s0 s'"
    by (auto simp: forward_to_tun_def swith_def external_def sseq_def sbind_def smodify_def slift_def
        sreturn_def session_frame_def split: if_splits sum.splits)
next
  fix s s' e
  assume f: "session_frame s0 s" and run: "forward_to_tun env p s = (s', Err e)"
  then show "session_frame s0 s' \<and> no_panic e"
    by (auto simp: forward_to_tun_def swith_def external_def sseq_def sbind_def smodify_def slift_def
        sreturn_def session_frame_def tun_send_result_no_panic split: if_splits sum.splits)
qed

lemma pong_payload_frame [keep]: "keeps I no_panic (slift (pong_payload_for_ping p))"
  by (rule keeps_lift) (auto simp: pong_payload_for_ping_def)

lemma peer_close_control_frame [keep]: "keeps (session_frame s0) F (peer_close_control b)"
  unfolding peer_close_control_def by (intro keep keeps_modify) simp

lemma handle_fallback_to_tcp_frame [keep]:
  "keeps (session_frame s0) no_panic (handle_fallback_to_tcp env p)"
  unfolding handle_fallback_to_tcp_def by (intro keep keeps_modify) simp

lemma handle_fallback_ok_frame [keep]: "keeps (session_frame s0) no_panic (handle_fallback_ok p)"
  unfolding handle_fallback_ok_def by (intro keep keeps_modify) simp

text \<open>The shared validation keeps every inadmissible message from the \<open>unreachable!\<close> arms.\<close>

lemma validate_client_message_type:
  "validate_client_message t m = Ok () \<Longrightarrow>
   is_valid_direction (message_ty m) FromClient \<and> is_valid_phase (message_ty m) Established \<and>
   is_valid_transport (message_ty m) t"
  by (auto simp: validate_client_message_def validate_message_def validate_message_type_def
      session_context_def split: if_splits)

lemma session_error_from_validation_no_panic: "no_panic (session_error_from_validation e)"
  by (induction e rule: session_error_from_validation.induct) auto

lemma validate_client_message_frame [keep]:
  "keeps I no_panic (slift (validate_client_message t m))"
  by (rule keeps_lift)
    (auto simp: validate_client_message_def session_error_from_validation_no_panic)

lemma keeps_guarded:
  "keeps I F (slift r) \<Longrightarrow> (r = Ok () \<Longrightarrow> keeps I F k) \<Longrightarrow> keeps I F (sseq (slift r) k)"
  by (cases r) (auto simp: hoare_def sseq_def sbind_def slift_def)

lemma dispatch_tcp_message_frame:
  assumes "validate_client_message Tcp m = Ok ()"
  shows "keeps (session_frame s0) no_panic (dispatch_tcp_message env m)"
  using validate_client_message_type [OF assms]
  by (cases m) (auto simp: dispatch_tcp_message_def intro!: keep)

lemma handle_tcp_message_frame [keep]: "keeps (session_frame s0) no_panic (handle_tcp_message env m)"
  unfolding handle_tcp_message_def
  by (rule keeps_guarded [OF validate_client_message_frame dispatch_tcp_message_frame])

lemma dispatch_udp_message_frame:
  assumes "validate_client_message UdpQsp m = Ok ()"
  shows "keeps (session_frame s0) no_panic (dispatch_udp_message env m)"
  using validate_client_message_type [OF assms]
  by (cases m) (auto simp: dispatch_udp_message_def intro!: keep)

lemma decode_udp_message_frame [keep]: "keeps I no_panic (slift (decode_udp_message l p))"
  by (rule keeps_lift)
    (auto simp: decode_udp_message_def bind_result_Inl)

lemma handle_opened_frame [keep]:
  "keeps (session_frame s0) no_panic (handle_opened env now peer pn opened)"
  unfolding handle_opened_def
  by (rule keeps_seq, rule keeps_modify, simp, rule keeps_with, rule keeps_bind,
      rule decode_udp_message_frame, rule keeps_guarded, rule validate_client_message_frame,
      rule keeps_bind, erule dispatch_udp_message_frame, rule keeps_seq, rule keeps_modify, simp,
      rule keeps_return)

lemma open_udp_packet_frame:
  "open_udp_packet env p s = (s', r) \<Longrightarrow> session_frame s0 s' = session_frame s0 s"
  by (auto simp: open_udp_packet_def Let_def
      split: option.splits prod.splits sum.splits qsp_session_error.splits if_splits)

lemma handle_udp_claim_frame [keep]:
  "keeps (session_frame s0) no_panic (handle_udp_claim env now claim)"
proof (rule hoareI)
  fix s s' a
  assume f: "session_frame s0 s" and run: "handle_udp_claim env now claim s = (s', Ok a)"
  obtain s1 out where o: "open_udp_packet env (uc_payload claim) s = (s1, out)" by fastforce
  then have f1: "session_frame s0 s1" using f open_udp_packet_frame by blast
  show "session_frame s0 s'"
    using run o f1 hoareD_Ok [OF handle_opened_frame f1]
    by (auto simp: handle_udp_claim_def split: udp_open_outcome.splits)
next
  fix s s' e
  assume f: "session_frame s0 s" and run: "handle_udp_claim env now claim s = (s', Err e)"
  obtain s1 out where o: "open_udp_packet env (uc_payload claim) s = (s1, out)" by fastforce
  then have f1: "session_frame s0 s1" using f open_udp_packet_frame by blast
  show "session_frame s0 s' \<and> no_panic e"
    using run o hoareD_Err [OF handle_opened_frame f1]
    by (auto simp: handle_udp_claim_def split: udp_open_outcome.splits)
qed

section \<open>Reading\<close>

text \<open>The loop over the buffered messages.  Handling a message leaves the read buffer alone and
  every message was taken from it, so the loop ends.\<close>

function handle_tcp_read :: "'io server_env \<Rightarrow> nat \<Rightarrow> ('io, 'tx, session_control) session_comp" where
  "handle_tcp_read env now s =
     (case try_pop_message (ss_limits s) (ss_tcp s) of
        (Inl e, tcp) \<Rightarrow> (s\<lparr>ss_tcp := tcp\<rparr>, Err (SeMessage e))
      | (Inr None, tcp) \<Rightarrow> (s\<lparr>ss_tcp := tcp\<rparr>, Ok Continue)
      | (Inr (Some (ty, buf)), tcp) \<Rightarrow>
          (case handle_tcp_message env (owned_message ty buf) (s\<lparr>ss_tcp := tcp\<rparr>) of
             (s', Inl e) \<Rightarrow> (s', Err e)
           | (s', Inr control) \<Rightarrow>
               let s'' = note_activity now s' in
               if control = CloseSession then (s'', Ok CloseSession)
               else handle_tcp_read env now s''))"
  by pat_completeness auto

termination handle_tcp_read
proof (relation "measure (\<lambda>(env, now, s). length (tc_read_buf (ss_tcp s)))", goal_cases)
  case 1
  then show ?case by simp
next
  case (2 env now s popped tcp b x2 ty buf s' r' control s'')
  have "session_frame (s\<lparr>ss_tcp := tcp\<rparr>) s'"
    using keeps_state [OF handle_tcp_message_frame session_frame_refl] 2(5) by metis
  then have "tc_read_buf (ss_tcp s'') = tc_read_buf tcp"
    using 2(7) by (simp add: session_frame_def note_activity_def)
  moreover have "try_pop_message (ss_limits s) (ss_tcp s) = (Ok (Some x2), tcp)"
    using 2(1-3) by simp
  ultimately show ?case using try_pop_message_decreases by simp
qed

declare handle_tcp_read.simps [simp del]

end
