(* ===== verification/Server_Loop.thy ===== *)
theory Server_Loop
  imports Server_Session
begin

text \<open>
  The event loop of the server's client session (\<open>slt-server/src/sessions/lifecycle.rs\<close>): timers,
  one turn of \<open>run_inner\<close>, and \<open>run\<close> with the close, flush and clean-up at its end.

  A turn receives the time and the branch the \<open>select!\<close> chose; a branch whose guard is off does
  nothing.  The shutdown signal may arrive between turns or cancel a TCP write, which leaves the
  mark of an interrupted write.  A best-effort operation that is not in time is dropped.
\<close>

section \<open>Timers\<close>

datatype session_timer = TimerPing | TimerUdpLiveness | TimerIdle

definition next_session_timer :: "('io, 'tx) server_session \<Rightarrow> nat \<Rightarrow> nat \<times> session_timer" where
  "next_session_timer s next_ping_at =
     (let idle_deadline = ss_last_activity s + st_idle_timeout (ss_timeouts s);
          first = (if idle_deadline \<le> next_ping_at then (idle_deadline, TimerIdle)
                   else (next_ping_at, TimerPing))
      in if ss_active_transport s = ActiveUdpQsp \<and> ss_tcp_alive s then
           case ss_last_authenticated_udp_activity s of
             None \<Rightarrow> first
           | Some last_authenticated \<Rightarrow>
               let deadline = last_authenticated + st_udp_liveness_timeout (ss_timeouts s)
               in if deadline < fst first then (deadline, TimerUdpLiveness) else first
         else first)"

text \<open>Times are nanoseconds; the jitter is a random number of milliseconds in the range.\<close>

definition schedule_next_ping :: "'io server_env \<Rightarrow> nat \<Rightarrow> ('io, 'tx, nat) session_comp" where
  "schedule_next_ping env now =
     swith ss_timeouts (\<lambda>t.
       let range_ms = (st_ping_max t - st_ping_min t) div 1000000 in
       if 0 < range_ms then
         external (ev_random env) (\<lambda>r.
           sreturn (now + st_ping_min t + (unat r mod (range_ms + 1)) * 1000000))
       else sreturn (now + st_ping_min t))"

definition handle_ping_tick :: "'io server_env \<Rightarrow> ('io, 'tx, unit) session_comp" where
  "handle_ping_tick env =
     external (ev_random env) (\<lambda>nonce.
     swith ss_active_transport (\<lambda>active.
       let m = Ping (ping_encode \<lparr>ping_nonce = nonce\<rparr> []) in
       case active of
         ActiveTcp \<Rightarrow> send_tcp_message env m
       | ActiveUdpQsp \<Rightarrow> send_udp_message_and_flush env m RetryMessageOnTcp))"

definition handle_udp_liveness_timeout :: "'io server_env \<Rightarrow> ('io, 'tx, session_control) session_comp" where
  "handle_udp_liveness_timeout env =
     swith (\<lambda>s. ss_active_transport s \<noteq> ActiveUdpQsp \<or> \<not> ss_tcp_alive s) (\<lambda>skip.
       if skip then sreturn Continue
       else
         sseq (smodify (count_metric UdpQspLivenessTimeout))
         (sseq (smodify (set_active_transport env ActiveTcp))
         (sseq (smodify retire_udp_transport)
         (sseq (send_tcp_fallback_request env) (sreturn Continue)))))"

text \<open>The result carries the time of the next ping when it was rescheduled.\<close>

definition handle_session_timer ::
    "'io server_env \<Rightarrow> nat \<Rightarrow> session_timer \<Rightarrow> nat \<Rightarrow> ('io, 'tx, session_control \<times> nat) session_comp" where
  "handle_session_timer env now timer next_ping_at =
     (case timer of
        TimerPing \<Rightarrow>
          sseq (handle_ping_tick env)
            (sbind (schedule_next_ping env now) (\<lambda>at. sreturn (Continue, at)))
      | TimerUdpLiveness \<Rightarrow>
          sbind (handle_udp_liveness_timeout env) (\<lambda>control. sreturn (control, next_ping_at))
      | TimerIdle \<Rightarrow>
          sseq (smodify (count_metric DisconnectIdleTimeout))
            (smatch (send_close env CloseIdleTimeout)
              (\<lambda>_. sreturn (CloseSession, next_ping_at))
              (\<lambda>_. sreturn (CloseSession, next_ping_at))))"

section \<open>Work\<close>

definition handle_event :: "'io server_env \<Rightarrow> nat \<Rightarrow> session_event \<Rightarrow> ('io, 'tx, session_control) session_comp" where
  "handle_event env now event =
     (case event of
        EventTunPacket packet \<Rightarrow> handle_tun_packet env packet
      | EventUdp claim \<Rightarrow> handle_udp_claim env now claim)"

definition event_extends_udp_batch :: "session_event \<Rightarrow> ('io, 'tx) server_session \<Rightarrow> bool" where
  "event_extends_udp_batch event s \<longleftrightarrow>
     ss_active_transport s = ActiveUdpQsp \<and>
     (case event of
        EventTunPacket packet \<Rightarrow> length packet \<le> max_data_len (ss_limits s)
      | EventUdp _ \<Rightarrow> False)"

text \<open>The result of \<open>read_more\<close>: the bytes it appended to the read buffer, none at the end of the
  stream.\<close>

definition handle_tcp_read_result ::
    "'io server_env \<Rightarrow> nat \<Rightarrow> (bytes, io_kind) result \<Rightarrow> ('io, 'tx, session_control) session_comp" where
  "handle_tcp_read_result env now result =
     sbind (slift (map_err SeConnection result)) (\<lambda>chunk.
       if chunk \<noteq> [] then
         sseq (smodify (\<lambda>s. s\<lparr>ss_tcp := tcp_read_more chunk (ss_tcp s)\<rparr>)) (handle_tcp_read env now)
       else
         swith ss_active_transport (\<lambda>active.
           if active = ActiveUdpQsp then
             sseq (smodify (\<lambda>s. s\<lparr>ss_tcp_alive := False\<rparr>)) (sreturn Continue)
           else sseq (smodify (count_metric DisconnectClose)) (sreturn CloseSession)))"

section \<open>One turn of the loop\<close>

record ('io, 'tx) server_loop =
  lp_session :: "('io, 'tx) server_session"
  lp_next_ping_at :: nat
  lp_flush_before_next_event :: bool

datatype session_work =
    WorkTcpRead "(bytes, io_kind) result" | WorkEvent session_event | WorkUdpFlush | WorkTimer

type_synonym ('io, 'tx, 'a) loop_comp = "(('io, 'tx) server_loop, 'a, session_error) comp"

definition on_session ::
    "(('io, 'tx) server_session, 'a, 'e) comp \<Rightarrow> (('io, 'tx) server_loop, 'a, 'e) comp" where
  "on_session m st = (case m (lp_session st) of (s, r) \<Rightarrow> (st\<lparr>lp_session := s\<rparr>, r))"

definition run_timer :: "'io server_env \<Rightarrow> nat \<Rightarrow> session_timer \<Rightarrow> ('io, 'tx, session_control) loop_comp" where
  "run_timer env now timer =
     swith lp_next_ping_at (\<lambda>next_ping_at.
     sbind (on_session (handle_session_timer env now timer next_ping_at)) (\<lambda>(control, at).
       sseq (smodify (\<lambda>st. st\<lparr>lp_next_ping_at := at\<rparr>)) (sreturn control)))"

text \<open>The guards of the branches of \<open>wait_for_work\<close>.\<close>

definition work_enabled :: "bool \<Rightarrow> session_work \<Rightarrow> ('io, 'tx) server_loop \<Rightarrow> bool" where
  "work_enabled should_flush_udp work st =
     (case work of
        WorkTcpRead _ \<Rightarrow> ss_tcp_alive (lp_session st)
      | WorkEvent _ \<Rightarrow> \<not> lp_flush_before_next_event st
      | WorkUdpFlush \<Rightarrow> should_flush_udp
      | WorkTimer \<Rightarrow> True)"

definition run_work ::
    "'io server_env \<Rightarrow> nat \<Rightarrow> bool \<Rightarrow> session_timer \<Rightarrow> session_work \<Rightarrow> ('io, 'tx, session_control) loop_comp" where
  "run_work env now should_flush_udp timer work =
     (case work of
        WorkTcpRead result \<Rightarrow> on_session (handle_tcp_read_result env now result)
      | WorkEvent event \<Rightarrow>
          swith (\<lambda>st. event_extends_udp_batch event (lp_session st)) (\<lambda>extends_udp_batch.
          sbind (on_session (handle_event env now event)) (\<lambda>control.
          sseq (smodify (\<lambda>st. st\<lparr>lp_flush_before_next_event :=
                  should_flush_udp \<and> \<not> extends_udp_batch \<and>
                  has_pending_udp_flush env (lp_session st)\<rparr>))
            (sreturn control)))
      | WorkUdpFlush \<Rightarrow>
          smatch (on_session (flush_udp_session env))
            (\<lambda>source.
              sseq (smodify (\<lambda>st. st\<lparr>lp_flush_before_next_event := False\<rparr>))
              (sseq (on_session (recover_from_udp_flush_error env None SignalTcpFallback source))
                (sreturn Continue)))
            (\<lambda>_. sseq (smodify (\<lambda>st. st\<lparr>lp_flush_before_next_event := False\<rparr>)) (sreturn Continue))
      | WorkTimer \<Rightarrow> run_timer env now timer)"

definition handle_buffered_input :: "'io server_env \<Rightarrow> nat \<Rightarrow> ('io, 'tx, session_control) session_comp" where
  "handle_buffered_input env now =
     swith (\<lambda>s. ss_tcp_alive s \<and> has_buffered_input (ss_tcp s)) (\<lambda>buffered.
       if buffered then handle_tcp_read env now else sreturn Continue)"

definition loop_turn :: "'io server_env \<Rightarrow> nat \<Rightarrow> session_work \<Rightarrow> ('io, 'tx, session_control) loop_comp" where
  "loop_turn env now work =
     sbind (on_session (handle_buffered_input env now)) (\<lambda>control.
       if control = CloseSession then sreturn CloseSession
       else
         sseq (smodify (\<lambda>st. st\<lparr>lp_flush_before_next_event :=
                 lp_flush_before_next_event st \<and> has_pending_udp_flush env (lp_session st)\<rparr>))
         (swith (\<lambda>st. (has_pending_udp_flush env (lp_session st),
                       next_session_timer (lp_session st) (lp_next_ping_at st)))
           (\<lambda>(should_flush_udp, timer_at, timer).
             if timer_at \<le> now then run_timer env now timer
             else
               swith (work_enabled should_flush_udp work) (\<lambda>enabled.
                 if enabled then run_work env now should_flush_udp timer work
                 else sreturn Continue))))"

section \<open>The end of a session\<close>

text \<open>The second half of \<open>send_close_best_effort\<close>.\<close>

definition close_over_udp_best_effort :: "'io server_env \<Rightarrow> close_code \<Rightarrow> ('io, 'tx, unit) session_comp" where
  "close_over_udp_best_effort env code =
     swith (\<lambda>s. ss_udp_session s = None) (\<lambda>none.
       if none then sreturn ()
       else
         external (ev_in_time env) (\<lambda>in_time.
           if in_time then smatch (send_close_over_udp env code) (\<lambda>_. sreturn ()) sreturn
           else sreturn ()))"

definition send_close_best_effort :: "'io server_env \<Rightarrow> close_code \<Rightarrow> ('io, 'tx, unit) session_comp" where
  "send_close_best_effort env code =
     swith (\<lambda>s. ss_tcp_alive s \<and> \<not> ss_tcp_write_interrupted s) (\<lambda>tcp_available.
       if tcp_available then
         external (ev_in_time env) (\<lambda>in_time.
           if in_time then
             smatch (send_close_over_tcp env code)
               (\<lambda>_. close_over_udp_best_effort env code) sreturn
           else
             sseq (smodify (set_tcp_write_interrupted True)) (close_over_udp_best_effort env code))
       else close_over_udp_best_effort env code)"

definition handle_managed_shutdown ::
    "'io server_env \<Rightarrow> session_shutdown_reason \<Rightarrow> ('io, 'tx, unit) session_comp" where
  "handle_managed_shutdown env reason =
     sseq (smodify (count_metric DisconnectShutdown))
       (send_close_best_effort env (shutdown_close_code reason))"

definition flush_pending_udp_session_best_effort :: "'io server_env \<Rightarrow> ('io, 'tx, unit) session_comp" where
  "flush_pending_udp_session_best_effort env =
     swith (\<lambda>s. case ss_udp_session s of None \<Rightarrow> False | Some q \<Rightarrow> ev_io_has_pending env (qs_io q))
       (\<lambda>pending.
         if \<not> pending then sreturn ()
         else
           external (ev_in_time env) (\<lambda>in_time.
             if in_time then smatch (flush_udp_session env) (\<lambda>_. sreturn ()) sreturn
             else sreturn ()))"

definition cleanup :: "('io, 'tx) server_session \<Rightarrow> ('io, 'tx) server_session" where
  "cleanup s =
     s\<lparr>ss_registry :=
         remove_session (ss_session_id s) (ss_client_id s) (ss_assigned_ipv4 s) (ss_registry s)\<rparr>"

datatype session_run_outcome =
    RunCompleted "(unit, session_error) result" | RunShutdown session_shutdown_reason
  | RunSignalUnavailable

definition finish_run ::
    "'io server_env \<Rightarrow> session_run_outcome \<Rightarrow> ('io, 'tx) server_session \<Rightarrow>
     ('io, 'tx) server_session \<times> (unit, session_error) result" where
  "finish_run env outcome s =
     (let (s, result) =
            (case outcome of
               RunCompleted result \<Rightarrow> (s, result)
             | RunShutdown reason \<Rightarrow> (fst (handle_managed_shutdown env reason s), Ok ())
             | RunSignalUnavailable \<Rightarrow> (s, Err (SeIo KBrokenPipe)));
          s = (if (case result of Inl e \<Rightarrow> is_peer_protocol_error e | Inr _ \<Rightarrow> False)
               then fst (send_close_best_effort env CloseProtocolError s) else s);
          s = fst (flush_pending_udp_session_best_effort env s);
          s = (if is_ok result then s else count_metric DisconnectError s)
      in (cleanup s, result))"

datatype run_input =
    InputWork nat session_work
  | InputShutdown "session_shutdown_reason option" bool

text \<open>\<open>run\<close> on what happens to the session; \<open>None\<close> while it is still waiting.  A shutdown signal
  without a reason is a dropped sender, and the flag tells that a TCP write was cancelled.  The signal is
  taken between turns: what a handler that it interrupts had done up to its last \<open>await\<close> is not kept.\<close>

fun run_session ::
    "'io server_env \<Rightarrow> ('io, 'tx) server_loop \<Rightarrow> run_input list \<Rightarrow>
     (('io, 'tx) server_session \<times> (unit, session_error) result) option" where
  "run_session env st [] = None"
| "run_session env st (InputShutdown reason mid_write # rest) =
     (let s = (if mid_write then set_tcp_write_interrupted True (lp_session st) else lp_session st)
      in Some (finish_run env
           (case reason of None \<Rightarrow> RunSignalUnavailable | Some r \<Rightarrow> RunShutdown r) s))"
| "run_session env st (InputWork now work # rest) =
     (case loop_turn env now work st of
        (st', Inl e) \<Rightarrow> Some (finish_run env (RunCompleted (Err e)) (lp_session st'))
      | (st', Inr CloseSession) \<Rightarrow> Some (finish_run env (RunCompleted (Ok ())) (lp_session st'))
      | (st', Inr Continue) \<Rightarrow> run_session env st' rest)"

section \<open>Invariants of a session\<close>

definition session_owner :: "('io, 'tx) server_session \<Rightarrow> ('io, 'tx) server_session \<Rightarrow> bool" where
  "session_owner s0 s \<longleftrightarrow>
     ss_client_id s = ss_client_id s0 \<and> ss_session_id s = ss_session_id s0 \<and>
     ss_assigned_ipv4 s = ss_assigned_ipv4 s0 \<and> ss_tx s = ss_tx s0 \<and>
     (\<forall>p \<in> set (ss_tun_out s). p \<in> set (ss_tun_out s0) \<or> validate_packet_src (ss_assigned_ipv4 s0) p)"

text \<open>What the UDP state is part of, for computations that only use TCP.\<close>

definition udp_view :: "('io, 'tx) server_session \<Rightarrow>
    'io quic_qsp_session option \<times> u64 option \<times> active_transport \<times> udp_upgrade_state \<times> bool" where
  "udp_view s =
     (ss_udp_session s, ss_udp_peer_packet_number s, ss_active_transport s, ss_udp_upgrade s,
      ss_tcp_alive s)"

text \<open>An upgrade gets as far as its probes: a probe was seen only on a path whose peer was
  adopted, and the switch is requested only after a probe and the ready message.\<close>

definition upgrade_ok :: "('io, 'tx) server_session \<Rightarrow> bool" where
  "upgrade_ok s \<longleftrightarrow>
     (uu_probe_seen (ss_udp_upgrade s) \<longrightarrow> ss_udp_peer_packet_number s \<noteq> None) \<and>
     (uu_switch_to_udp_sent (ss_udp_upgrade s) \<longrightarrow>
        uu_probe_seen (ss_udp_upgrade s) \<and> uu_ready_seen (ss_udp_upgrade s)) \<and>
     length (uu_stale_upgrade_ids (ss_udp_upgrade s)) \<le> MAX_STALE_UPGRADE_IDS \<and>
     (ss_udp_peer_packet_number s \<noteq> None \<longrightarrow> ss_udp_session s \<noteq> None)"

text \<open>The preferred transport is usable: UDP only with an adopted peer, TCP only while it is
  alive.\<close>

definition transport_ok :: "('io, 'tx) server_session \<Rightarrow> bool" where
  "transport_ok s \<longleftrightarrow>
     (ss_active_transport s = ActiveUdpQsp \<longrightarrow>
        ss_udp_session s \<noteq> None \<and> ss_udp_peer_packet_number s \<noteq> None) \<and>
     (\<not> ss_tcp_alive s \<longrightarrow> ss_active_transport s = ActiveUdpQsp)"

text \<open>Datagrams go to addresses of \<open>A\<close> only, and none before a peer was adopted.\<close>

definition peers_ok ::
    "('io \<Rightarrow> (socket_addr \<times> bytes) list) \<Rightarrow> ('io \<Rightarrow> bytes list) \<Rightarrow> ('io \<Rightarrow> socket_addr) \<Rightarrow> ('io \<Rightarrow> bool) \<Rightarrow>
     socket_addr set \<Rightarrow> ('io, 'tx) server_session \<Rightarrow> bool" where
  "peers_ok wire pending peer ioinv A s \<longleftrightarrow>
     (case ss_udp_session s of
        None \<Rightarrow> True
      | Some q \<Rightarrow>
          ioinv (qs_io q) \<and> fst ` set (wire (qs_io q)) \<subseteq> A \<and>
          (if ss_udp_peer_packet_number s = None
           then wire (qs_io q) = [] \<and> pending (qs_io q) = [] else peer (qs_io q) \<in> A))"

definition sendable :: "('io, 'tx) server_session \<Rightarrow> bool" where
  "sendable s \<longleftrightarrow> (ss_udp_session s \<noteq> None \<longrightarrow> ss_udp_peer_packet_number s \<noteq> None)"

section \<open>Frames\<close>

lemma keeps_owner:
  assumes "\<And>s1. keeps (session_frame s1) F m"
  shows "keeps (session_owner s0) F m"
proof -
  have trans: "session_owner s0 s'" if "session_owner s0 s" "session_frame s s'" for s s'
    using that by (fastforce simp: session_owner_def session_frame_def)
  show ?thesis
    using trans hoareD_Ok [OF assms session_frame_refl] hoareD_Err [OF assms session_frame_refl]
    by (intro hoareI) blast+
qed

lemma try_pop_message_frame:
  "try_pop_message l c = (r, c') \<Longrightarrow> session_owner s0 (s\<lparr>ss_tcp := c'\<rparr>) = session_owner s0 s"
  by (simp add: session_owner_def)

lemma session_owner_updates [simp]:
  "session_owner s0 (s\<lparr>ss_tcp := c\<rparr>) = session_owner s0 s"
  "session_owner s0 (s\<lparr>ss_tcp_alive := b\<rparr>) = session_owner s0 s"
  "session_owner s0 (s\<lparr>ss_calls := n\<rparr>) = session_owner s0 s"
  "session_owner s0 (note_activity now s) = session_owner s0 s"
  "session_owner s0 (count_metric m s) = session_owner s0 s"
  "session_owner s0 (set_tcp_write_interrupted b s) = session_owner s0 s"
  "session_owner s0 (set_active_transport env t s) = session_owner s0 s"
  "session_owner s0 (retire_udp_transport s) = session_owner s0 s"
  "session_owner s0 s0"
  by (auto simp: session_owner_def note_activity_def count_metric_def set_tcp_write_interrupted_def
      set_active_transport_def retire_udp_transport_def reset_udp_upgrade_state_def Let_def
      split: active_transport.splits)

text \<open>The read loop: an invariant of the handler and of the two updates around it.\<close>

lemma handle_tcp_read_keeps:
  assumes pop: "\<And>s c. I s \<Longrightarrow> I (s\<lparr>ss_tcp := c\<rparr>)" and noted: "\<And>s. I s \<Longrightarrow> I (note_activity now s)"
    and handle: "\<And>m. hoare I (handle_tcp_message env m) (\<lambda>_. I) E"
    and err: "\<And>e s. I s \<Longrightarrow> E (SeMessage e) s"
  shows "hoare I (handle_tcp_read env now) (\<lambda>_. I) E"
proof -
  let ?P = "\<lambda>s. case handle_tcp_read env now s of (s', Inl e) \<Rightarrow> E e s' | (s', Inr _) \<Rightarrow> I s'"
  have "env' = env \<longrightarrow> now' = now \<longrightarrow> I s \<longrightarrow> ?P s" for env' now' s
  proof (induction env' now' s rule: handle_tcp_read.induct)
    case (1 env' now' s)
    show ?case
    proof (intro impI)
      assume eq: "env' = env" "now' = now" and "I s"
      obtain popped tcp where p: "try_pop_message (ss_limits s) (ss_tcp s) = (popped, tcp)" by fastforce
      have I1: "I (s\<lparr>ss_tcp := tcp\<rparr>)" using \<open>I s\<close> by (rule pop)
      consider (bad) e where "popped = Inl e" | (empty) "popped = Inr None"
        | (msg) ty buf where "popped = Inr (Some (ty, buf))"
        by (metis old.sum.exhaust option.exhaust prod.exhaust)
      then show "?P s"
      proof cases
        case (bad e)
        then show ?thesis using p err [OF I1] by (subst handle_tcp_read.simps) simp
      next
        case empty
        then show ?thesis using p I1 by (subst handle_tcp_read.simps) simp
      next
        case (msg ty buf)
        obtain s1 r where h: "handle_tcp_message env (owned_message ty buf) (s\<lparr>ss_tcp := tcp\<rparr>) = (s1, r)"
          by fastforce
        show ?thesis
        proof (cases r)
          case (Inl e)
          then have "E e s1" using h hoareD_Err [OF handle I1] by simp
          then show ?thesis using p msg h Inl by (subst handle_tcp_read.simps) simp
        next
          case (Inr control)
          then have I2: "I (note_activity now s1)" using h hoareD_Ok [OF handle I1] noted by simp
          have "?P (note_activity now s1)" if "control \<noteq> CloseSession"
            using 1 [of popped tcp "Some (ty, buf)" "(ty, buf)" ty buf s1 r control "note_activity now s1"]
              p msg h Inr eq I2 that by simp
          then show ?thesis using p msg h Inr I2 by (subst handle_tcp_read.simps) (simp add: Let_def)
        qed
      qed
    qed
  qed
  then show ?thesis by (simp add: hoare_def)
qed

end
