(* ===== verification/Server_Safety.thy ===== *)
theory Server_Safety
  imports Server_Loop
begin

text \<open>
  What holds of every reachable server session (\<open>slt-server/src/sessions\<close>).  The locale
  \<open>server_io\<close> is the contract between a session and its environment: a UDP backend that keeps
  \<open>session_io\<close> and a factory that creates empty ones.  Inside it every handler keeps
  \<open>server_inv\<close>, also when its sends fail, and a failing handler at least \<open>server_weak\<close>.
\<close>

definition server_weak ::
    "('io \<Rightarrow> (socket_addr \<times> bytes) list) \<Rightarrow> ('io \<Rightarrow> bytes list) \<Rightarrow> ('io \<Rightarrow> socket_addr) \<Rightarrow> ('io \<Rightarrow> bool) \<Rightarrow>
     socket_addr set \<Rightarrow> ('io, 'tx) server_session \<Rightarrow> bool" where
  "server_weak wire pending peer ioinv A s \<longleftrightarrow> peers_ok wire pending peer ioinv A s \<and> upgrade_ok s"

definition server_inv ::
    "('io \<Rightarrow> (socket_addr \<times> bytes) list) \<Rightarrow> ('io \<Rightarrow> bytes list) \<Rightarrow> ('io \<Rightarrow> socket_addr) \<Rightarrow> ('io \<Rightarrow> bool) \<Rightarrow>
     socket_addr set \<Rightarrow> ('io, 'tx) server_session \<Rightarrow> bool" where
  "server_inv wire pending peer ioinv A s \<longleftrightarrow>
     server_weak wire pending peer ioinv A s \<and> transport_ok s"

lemma set_active_transport_fields [simp]:
  "ss_tcp_alive (set_active_transport env t s) = ss_tcp_alive s"
  "ss_udp_session (set_active_transport env t s) = None \<longleftrightarrow> ss_udp_session s = None"
  "ss_udp_peer_packet_number (set_active_transport env t s) = ss_udp_peer_packet_number s"
  "ss_udp_upgrade (set_active_transport env t s) = ss_udp_upgrade s"
  "ss_active_transport (set_active_transport env t s) = t"
  "ss_tcp_write_interrupted (set_active_transport env t s) = ss_tcp_write_interrupted s"
  by (auto simp: set_active_transport_def count_metric_def Let_def split: active_transport.splits)

section \<open>Computations that only use TCP\<close>

lemma server_inv_view:
  "udp_view s = udp_view s' \<Longrightarrow>
   server_inv wire pending peer ioinv A s = server_inv wire pending peer ioinv A s' \<and>
   server_weak wire pending peer ioinv A s = server_weak wire pending peer ioinv A s'"
  by (simp add: udp_view_def server_inv_def server_weak_def peers_ok_def upgrade_ok_def transport_ok_def
      split: option.split)

lemma udp_view_updates [simp]:
  "udp_view (s\<lparr>ss_calls := n\<rparr>) = udp_view s"
  "udp_view (s\<lparr>ss_tcp := c\<rparr>) = udp_view s"
  "udp_view (s\<lparr>ss_tcp_out := out\<rparr>) = udp_view s"
  "udp_view (s\<lparr>ss_tun_out := tun\<rparr>) = udp_view s"
  "udp_view (s\<lparr>ss_registry := r\<rparr>) = udp_view s"
  "udp_view (s\<lparr>ss_pending_tcp_fallback := f\<rparr>) = udp_view s"
  "udp_view (s\<lparr>ss_last_peer_fallback_id := f\<rparr>) = udp_view s"
  "udp_view (count_metric m s) = udp_view s"
  "udp_view (note_activity now s) = udp_view s"
  "udp_view (note_authenticated_udp_activity now s) = udp_view s"
  "udp_view (set_tcp_write_interrupted b s) = udp_view s"
  by (simp_all add: udp_view_def count_metric_def note_activity_def note_authenticated_udp_activity_def
      set_tcp_write_interrupted_def)

lemma server_inv_neutral [simp]:
  "server_inv wire pending peer ioinv A (count_metric x s) = server_inv wire pending peer ioinv A s"
  "server_inv wire pending peer ioinv A (note_activity now s) = server_inv wire pending peer ioinv A s"
  "server_inv wire pending peer ioinv A (s\<lparr>ss_calls := n\<rparr>) = server_inv wire pending peer ioinv A s"
  "server_inv wire pending peer ioinv A (s\<lparr>ss_tcp := c\<rparr>) = server_inv wire pending peer ioinv A s"
  by (rule server_inv_view [THEN conjunct1]; simp)+

lemma neutral_fields [simp]:
  "ss_tcp_write_interrupted (count_metric x s) = ss_tcp_write_interrupted s"
  "ss_tcp_write_interrupted (note_activity now s) = ss_tcp_write_interrupted s"
  "ss_tcp_alive (count_metric x s) = ss_tcp_alive s"
  "ss_tcp_alive (note_activity now s) = ss_tcp_alive s"
  by (simp_all add: count_metric_def note_activity_def)

lemma keeps_external_view [keep]:
  "(\<And>out. keeps (\<lambda>s. udp_view s = v) F (k out)) \<Longrightarrow> keeps (\<lambda>s. udp_view s = v) F (external f k)"
  by (rule keeps_external) simp_all

lemma send_tcp_message_inner_view: "keeps (\<lambda>s. udp_view s = v) (\<lambda>_. True) (send_tcp_message_inner env m)"
  unfolding send_tcp_message_inner_def
  by (rule keeps_external_view) (auto simp: hoare_def split: prod.splits sum.splits)

lemma send_tcp_message_view [keep]: "keeps (\<lambda>s. udp_view s = v) (\<lambda>_. True) (send_tcp_message env m)"
  unfolding send_tcp_message_def
  by (intro keep keeps_modify keeps_match [OF send_tcp_message_inner_view]) simp_all

lemma send_tcp_fallback_request_view [keep]:
  "keeps (\<lambda>s. udp_view s = v) (\<lambda>_. True) (send_tcp_fallback_request env)"
  unfolding send_tcp_fallback_request_def by (intro keep keeps_modify) simp_all

lemma forward_to_tun_view [keep]: "keeps (\<lambda>s. udp_view s = v) (\<lambda>_. True) (forward_to_tun env p)"
  unfolding forward_to_tun_def by (intro keep keeps_modify) simp_all

lemma handle_fallback_ok_view [keep]: "keeps (\<lambda>s. udp_view s = v) (\<lambda>_. True) (handle_fallback_ok p)"
  unfolding handle_fallback_ok_def by (intro keep keeps_modify) simp_all

lemma send_register_fail_view [keep]: "keeps (\<lambda>s. udp_view s = v) (\<lambda>_. True) (send_register_fail env c)"
  unfolding send_register_fail_def by (intro keep)

lemma peer_close_control_view [keep]: "keeps (\<lambda>s. udp_view s = v) (\<lambda>_. True) (peer_close_control b)"
  unfolding peer_close_control_def by (intro keep keeps_modify) simp

lemma session_insert_cid_view [keep]: "keeps (\<lambda>s. udp_view s = v) (\<lambda>_. True) (session_insert_cid p)"
  by (auto simp: hoare_def session_insert_cid_def split: prod.splits)

lemma schedule_next_ping_view [keep]: "keeps (\<lambda>s. udp_view s = v) (\<lambda>_. True) (schedule_next_ping env now)"
  unfolding schedule_next_ping_def Let_def by (intro keep)

text \<open>Such a computation keeps every property of the UDP view.\<close>

lemma view_hoare:
  assumes view: "\<And>v. keeps (\<lambda>s. udp_view s = v) (\<lambda>_. True) m"
    and P: "\<And>s s'. udp_view s = udp_view s' \<Longrightarrow> P s = P s'"
  shows "hoare P m (\<lambda>_. P) (\<lambda>_. P)"
  using hoareD_Ok [OF view] hoareD_Err [OF view] P by (intro hoareI) blast+

section \<open>The contract with the environment\<close>

locale server_io =
  fixes env :: "'io server_env"
    and wire :: "'io \<Rightarrow> (socket_addr \<times> bytes) list"
    and pending :: "'io \<Rightarrow> bytes list"
    and peer :: "'io \<Rightarrow> socket_addr"
    and ioinv :: "'io \<Rightarrow> bool"
  assumes backend: "session_io (ev_io_send env) (ev_io_flush env) (ev_io_has_pending env)
      (ev_io_discard env) (ev_io_set_peer env) peer wire pending ioinv"
    and created: "ev_io_create env n a = Ok io \<Longrightarrow> ioinv io \<and> wire io = [] \<and> pending io = []"
begin

abbreviation J :: "socket_addr set \<Rightarrow> ('io, 'tx) server_session \<Rightarrow> bool" where
  "J \<equiv> server_inv wire pending peer ioinv"

abbreviation W :: "socket_addr set \<Rightarrow> ('io, 'tx) server_session \<Rightarrow> bool" where
  "W \<equiv> server_weak wire pending peer ioinv"

abbreviation JS :: "socket_addr set \<Rightarrow> ('io, 'tx) server_session \<Rightarrow> bool" where
  "JS A s \<equiv> J A s \<and> sendable s"

lemma content_addresses:
  assumes "wire io' @ map (Pair a) xs = wire io @ map (Pair a) ys"
  shows "fst ` set (wire io') \<subseteq> insert a (fst ` set (wire io))"
proof -
  have "set (wire io') \<subseteq> set (wire io @ map (Pair a) ys)" using assms by (metis set_append sup_ge1)
  then have "fst ` set (wire io') \<subseteq> fst ` set (wire io @ map (Pair a) ys)" by (rule image_mono)
  then show ?thesis by auto
qed

text \<open>A packet accepted or flushed by the backend goes to its peer.\<close>

lemma send_addresses:
  assumes "ioinv io" "ev_io_send env io b = (io', r)"
  shows "ioinv io' \<and> peer io' = peer io \<and> fst ` set (wire io') \<subseteq> insert (peer io) (fst ` set (wire io))"
proof -
  have "\<exists>kept. wire io' @ map (Pair (peer io)) (pending io') =
      wire io @ map (Pair (peer io)) (pending io @ kept)"
  proof (cases r)
    case (Inl e)
    then show ?thesis using session_io.send_Err [OF backend] assms by blast
  next
    case (Inr u)
    then show ?thesis using session_io.send_Ok [OF backend] assms by (metis old.unit.exhaust)
  qed
  then show ?thesis using content_addresses session_io.send_inv [OF backend assms] by blast
qed

lemma flush_addresses:
  assumes "ioinv io" "ev_io_flush env io = (io', r)"
  shows "ioinv io' \<and> peer io' = peer io \<and> fst ` set (wire io') \<subseteq> insert (peer io) (fst ` set (wire io))"
  using content_addresses session_io.flush_inv [OF backend assms] session_io.flush_wire [OF backend assms]
  by blast

lemma weaken: "J A s \<Longrightarrow> W A s"
  by (simp add: server_inv_def)

lemma weak_mono: "W A s \<Longrightarrow> A \<subseteq> B \<Longrightarrow> W B s"
  by (auto simp: server_weak_def peers_ok_def split: option.splits if_splits)

lemma inv_mono: "J A s \<Longrightarrow> A \<subseteq> B \<Longrightarrow> J B s"
  using weak_mono [of A s B] by (simp add: server_inv_def)

lemma view_keeps_J:
  fixes m :: "('io, 'tx, 'a) session_comp"
  assumes "\<And>v. keeps (\<lambda>s. udp_view s = v) (\<lambda>_. True) m"
  shows "hoare (J A) m (\<lambda>_. J A) (\<lambda>_. W A)"
proof (rule hoare_weaken [OF view_hoare [OF assms, of "J A"]])
qed (use server_inv_view weaken in blast)+

lemma sendable_view: "udp_view s = udp_view s' \<Longrightarrow> sendable s = sendable s'"
  by (simp add: udp_view_def sendable_def)

text \<open>The session with an updated backend.\<close>

lemma with_backend:
  assumes "JS A s" "ss_udp_session s = Some q"
    and "ioinv (qs_io q) \<Longrightarrow> ioinv (qs_io q') \<and> peer (qs_io q') = peer (qs_io q) \<and>
      fst ` set (wire (qs_io q')) \<subseteq> insert (peer (qs_io q)) (fst ` set (wire (qs_io q)))"
  shows "JS A (s\<lparr>ss_udp_session := Some q'\<rparr>)"
proof -
  have q: "ioinv (qs_io q)" "fst ` set (wire (qs_io q)) \<subseteq> A" "peer (qs_io q) \<in> A"
      "ss_udp_peer_packet_number s \<noteq> None"
    using assms(1,2) by (auto simp: server_inv_def server_weak_def peers_ok_def sendable_def)
  have "insert (peer (qs_io q)) (fst ` set (wire (qs_io q))) \<subseteq> A" using q by simp
  then have "ioinv (qs_io q')" "peer (qs_io q') \<in> A" "fst ` set (wire (qs_io q')) \<subseteq> A"
    using assms(3) [OF q(1)] q(3) by (simp, simp, blast)
  moreover obtain pn where "ss_udp_peer_packet_number s = Some pn" using q(4) by blast
  ultimately show ?thesis
    using assms(1,2)
    by (simp add: server_inv_def server_weak_def peers_ok_def upgrade_ok_def transport_ok_def sendable_def)
qed

lemma session_send_backend:
  fixes r :: "(unit, io_kind qsp_session_error) result"
  assumes "session_send cr (ev_io_send env) q buf = (q', r)" "ioinv (qs_io q)"
  shows "ioinv (qs_io q') \<and> peer (qs_io q') = peer (qs_io q) \<and>
      fst ` set (wire (qs_io q')) \<subseteq> insert (peer (qs_io q)) (fst ` set (wire (qs_io q)))"
proof -
  obtain q1 r1 where seal: "session_seal cr q buf = (q1, r1 :: (bytes, io_kind qsp_session_error) result)"
    by fastforce
  have io: "qs_io q1 = qs_io q"
    using seal by (auto simp: session_seal_def Let_def dest: maybe_rotate_frame
        split: prod.splits sum.splits option.splits)
  show ?thesis
  proof (cases r1)
    case (Inl e)
    then show ?thesis using assms seal io by (auto simp: session_send_def)
  next
    case (Inr pkt)
    obtain io' r2 where send: "ev_io_send env (qs_io q) pkt = (io', r2)" by fastforce
    then have "qs_io q' = io'"
      using assms(1) seal io Inr by (auto simp: session_send_def split: sum.splits)
    then show ?thesis using send_addresses [OF assms(2) send] by simp
  qed
qed

lemma queue_keeps: "keeps (JS A) (\<lambda>_. True) (queue_udp_message env m)"
proof -
  have "JS A s'" if "JS A s" "queue_udp_message env m s = (s', r)" for s s' r
  proof (cases "ss_udp_session s")
    case None
    then show ?thesis using that by (simp add: queue_udp_message_def)
  next
    case (Some q)
    show ?thesis
    proof (cases "encode_message m []")
      case (Inl e)
      then show ?thesis using that Some by (simp add: queue_udp_message_def)
    next
      case (Inr buf)
      obtain q' r' where send: "session_send (ev_crypto env) (ev_io_send env) q buf = (q', r')" by fastforce
      have "JS A (s\<lparr>ss_udp_session := Some q'\<rparr>)"
        using with_backend [OF that(1) Some] session_send_backend [OF send] by blast
      moreover have "udp_view s' = udp_view (s\<lparr>ss_udp_session := Some q'\<rparr>)"
        using that(2) Some Inr send
        by (auto simp: queue_udp_message_def Let_def split: sum.splits if_splits)
      ultimately show ?thesis using server_inv_view sendable_view by blast
    qed
  qed
  then show ?thesis by (intro hoareI) blast+
qed

lemma flush_keeps: "keeps (JS A) (\<lambda>_. True) (flush_udp_session env)"
proof -
  have "JS A s'" if "JS A s" "flush_udp_session env s = (s', r)" for s s' r
  proof (cases "ss_udp_session s")
    case None
    then show ?thesis using that by (simp add: flush_udp_session_def)
  next
    case (Some q)
    obtain io r' where f: "ev_io_flush env (qs_io q) = (io, r')" by fastforce
    then have "s' = s\<lparr>ss_udp_session := Some (q\<lparr>qs_io := io\<rparr>)\<rparr>"
      using that(2) Some by (simp add: flush_udp_session_def)
    then show ?thesis
      using with_backend [OF that(1) Some, of "q\<lparr>qs_io := io\<rparr>"] flush_addresses [OF _ f] by simp
  qed
  then show ?thesis by (intro hoareI) blast+
qed

end

section \<open>Egress and its recovery\<close>

context server_io
begin

lemma retired: "W A (retire_udp_transport s)" "ss_udp_session (retire_udp_transport s) = None"
  by (simp_all add: server_weak_def peers_ok_def upgrade_ok_def retire_udp_transport_def
      reset_udp_upgrade_state_def udp_upgrade_default_def)

lemma discarded:
  assumes "ioinv io"
  shows "ioinv (fst (ev_io_discard env io)) \<and> peer (fst (ev_io_discard env io)) = peer io \<and>
    wire (fst (ev_io_discard env io)) = wire io \<and> pending (fst (ev_io_discard env io)) = []"
  using session_io.discard_pending [OF backend assms] by (metis prod.collapse)

lemma activate_tcp:
  assumes "W A s" "ss_tcp_alive s"
  shows "J A (set_active_transport env ActiveTcp s)"
proof (cases "ss_active_transport s")
  case ActiveTcp
  then show ?thesis
    using assms by (simp add: set_active_transport_def server_inv_def transport_ok_def)
next
  case ActiveUdpQsp
  show ?thesis
  proof (cases "ss_udp_session s")
    case None
    then show ?thesis
      using assms ActiveUdpQsp
      by (auto simp: set_active_transport_def server_inv_def server_weak_def peers_ok_def upgrade_ok_def
          transport_ok_def count_metric_def)
  next
    case (Some q)
    then have "ioinv (qs_io q)" using assms(1) by (simp add: server_weak_def peers_ok_def)
    then show ?thesis
      using assms ActiveUdpQsp Some discarded [of "qs_io q"]
      by (simp add: set_active_transport_def server_inv_def server_weak_def peers_ok_def upgrade_ok_def
          transport_ok_def count_metric_def)
  qed
qed

lemma tcp_JS:
  fixes m :: "('io, 'tx, 'a) session_comp"
  assumes "\<And>v. keeps (\<lambda>s. udp_view s = v) (\<lambda>_. True) m"
  shows "hoare (JS A) m (\<lambda>_. JS A) (\<lambda>_. W A)"
proof (rule hoare_weaken [OF view_hoare [OF assms, of "JS A"]])
qed (use server_inv_view sendable_view weaken in blast)+

lemma recovery:
  "hoare (\<lambda>s. W A s \<and> ss_udp_session s = None) (apply_udp_failure_recovery env m r e)
     (\<lambda>_. JS A) (\<lambda>_. W A)"
proof -
  let ?k = "case r of
       RetryMessageOnTcp \<Rightarrow>
         sseq (send_tcp_fallback_request env)
           (case m of None \<Rightarrow> sreturn () | Some m \<Rightarrow> send_tcp_message env m)
     | SignalTcpFallback \<Rightarrow> send_tcp_fallback_request env
     | RetireOnly \<Rightarrow> sreturn ()"
  have "keeps (\<lambda>s. udp_view s = v) (\<lambda>_. True) ?k" for v
    by (cases r; simp only: udp_failure_recovery.case; intro keep)
  then have k: "hoare (JS A) ?k (\<lambda>_. JS A) (\<lambda>_. W A)" by (rule tcp_JS)
  have "hoare (\<lambda>s. W A s \<and> ss_udp_session s = None \<and> ss_tcp_alive s)
      (sseq (smodify (set_active_transport env ActiveTcp)) ?k) (\<lambda>_. JS A) (\<lambda>_. W A)"
    by (rule hoare_seq [OF k], rule hoare_pre [OF hoare_modify])
      (simp add: activate_tcp sendable_def del: not_None_eq)
  then show ?thesis
    unfolding apply_udp_failure_recovery_def
    by (auto simp: hoare_def swith_def sfail_def)
qed

lemma recover_send:
  "hoare (JS A) (recover_from_udp_send_error env m r e) (\<lambda>_. JS A) (\<lambda>_. W A)"
proof (cases "\<not> (case e of UeQsp _ \<Rightarrow> True | UeIo _ \<Rightarrow> True | _ \<Rightarrow> False)")
  case True
  show ?thesis
    unfolding recover_from_udp_send_error_def if_P [OF True]
    by (rule hoare_pre [OF hoare_fail]) (simp add: weaken)
next
  case False
  show ?thesis
    unfolding recover_from_udp_send_error_def if_not_P [OF False]
    by (rule hoare_seq [OF recovery], rule hoare_pre [OF hoare_modify]) (simp add: retired)
qed

lemma recover_flush:
  "hoare (\<lambda>_. True) (recover_from_udp_flush_error env m r e) (\<lambda>_. JS A) (\<lambda>_. W A)"
  unfolding recover_from_udp_flush_error_def
  by (rule hoare_seq [OF recovery], rule hoare_pre [OF hoare_modify]) (simp add: retired)

lemma send_udp: "hoare (JS A) (send_udp_message env m r) (\<lambda>_. JS A) (\<lambda>_. W A)"
  unfolding send_udp_message_def
  by (rule hoare_match [OF hoare_return recover_send]) (rule hoare_weaken [OF queue_keeps]; blast)

lemma send_udp_and_flush:
  "hoare (JS A) (send_udp_message_and_flush env m r) (\<lambda>_. JS A) (\<lambda>_. W A)"
  unfolding send_udp_message_and_flush_def
  by (rule hoare_seq [OF _ send_udp], rule hoare_match [OF hoare_return recover_flush])
    (rule hoare_weaken [OF flush_keeps]; blast)

lemma close_tcp: "hoare (JS A) (send_close_over_tcp env c) (\<lambda>_. JS A) (\<lambda>_. W A)"
  by (rule tcp_JS, unfold send_close_over_tcp_def, intro keep TrueI)

lemma close_udp: "hoare (JS A) (send_close_over_udp env c) (\<lambda>_. JS A) (\<lambda>_. W A)"
proof -
  have "hoare (JS A) (smatch (flush_udp_session env) (\<lambda>e. sfail (SeUdpQsp (UeIo e))) sreturn)
      (\<lambda>_. JS A) (\<lambda>_. W A)"
    by (rule hoare_match [OF hoare_return hoare_fail]) (rule hoare_weaken [OF flush_keeps]; blast intro: weaken)
  then have "hoare (JS A) (smatch (queue_udp_message env (Close (close_encode c [])))
      (\<lambda>e. sfail (SeUdpQsp e))
      (\<lambda>_. smatch (flush_udp_session env) (\<lambda>e. sfail (SeUdpQsp (UeIo e))) sreturn)) (\<lambda>_. JS A) (\<lambda>_. W A)"
    by (rule hoare_match [OF _ hoare_fail]) (rule hoare_weaken [OF queue_keeps]; blast intro: weaken)
  then show ?thesis
    unfolding send_close_over_udp_def by (auto simp: hoare_def swith_def sfail_def weaken)
qed

end

section \<open>Upgrade and registration\<close>

lemma length_remember_stale:
  "length (uu_stale_upgrade_ids u) \<le> MAX_STALE_UPGRADE_IDS \<Longrightarrow>
   length (uu_stale_upgrade_ids (remember_stale_upgrade_id i u)) \<le> MAX_STALE_UPGRADE_IDS"
  by (auto simp: remember_stale_upgrade_id_def Let_def MAX_STALE_UPGRADE_IDS_def)

text \<open>Changing only the upgrade state keeps the rest of the invariant.\<close>

lemma upgrade_update:
  "server_inv wire pending peer ioinv A s \<Longrightarrow> upgrade_ok (update_upgrade f s) \<Longrightarrow>
   server_inv wire pending peer ioinv A (update_upgrade f s)"
  "sendable (update_upgrade f s) = sendable s"
  by (simp_all add: server_inv_def server_weak_def peers_ok_def transport_ok_def update_upgrade_def
      sendable_def split: option.splits)

lemma note_upgrade_id_ok:
  assumes "upgrade_ok s" "note_upgrade_id i source (ss_udp_upgrade s) = (u, b)"
  shows "upgrade_ok (s\<lparr>ss_udp_upgrade := u\<rparr>)"
proof -
  have stale: "length (uu_stale_upgrade_ids (remember_stale_upgrade_id j (ss_udp_upgrade s))) \<le>
      MAX_STALE_UPGRADE_IDS" for j
    using assms(1) length_remember_stale by (simp add: upgrade_ok_def)
  show ?thesis
    using assms stale
    by (auto simp: note_upgrade_id_def upgrade_ok_def Let_def
        reset_udp_upgrade_attempt_preserving_history_def split: if_splits option.splits)
qed

lemma server_inv_upgrade_ok: "server_inv wire pending peer ioinv A s \<Longrightarrow> upgrade_ok s"
  by (simp add: server_inv_def server_weak_def)

lemma hoare_external:
  assumes "\<And>n. hoare P (k (f n)) Q E" "\<And>s n. P s \<Longrightarrow> P (s\<lparr>ss_calls := n\<rparr>)"
  shows "hoare P (external f k) Q E"
  using assms by (simp add: external_def hoare_def swith_def sseq_def sbind_def smodify_def)

context server_io
begin

text \<open>The invariant, with the peer adopted when \<open>b\<close> holds.\<close>

abbreviation JB :: "bool \<Rightarrow> socket_addr set \<Rightarrow> ('io, 'tx) server_session \<Rightarrow> bool" where
  "JB b A s \<equiv> J A s \<and> (b \<longrightarrow> sendable s)"

lemma tcp_view_pred:
  fixes m :: "('io, 'tx, 'a) session_comp"
  assumes "\<And>v. keeps (\<lambda>s. udp_view s = v) (\<lambda>_. True) m"
    and "\<And>s s'. udp_view s = udp_view s' \<Longrightarrow> P s = P s'" "\<And>s. P s \<Longrightarrow> W A s"
  shows "hoare P m (\<lambda>_. P) (\<lambda>_. W A)"
  by (rule hoare_weaken [OF view_hoare [of m P]]) (use assms in blast)+

lemma note_upgrade:
  "hoare (JB b A) (session_note_upgrade_id i source) (\<lambda>_. JB b A) E"
proof (rule hoareI)
  fix s s' a
  assume J: "JB b A s" and run: "session_note_upgrade_id i source s = (s', Ok a)"
  obtain u c where n: "note_upgrade_id i source (ss_udp_upgrade s) = (u, c)" by fastforce
  then have s': "s' = update_upgrade (\<lambda>_. u) s"
    using run by (simp add: session_note_upgrade_id_def update_upgrade_def)
  have "upgrade_ok (update_upgrade (\<lambda>_. u) s)"
    using note_upgrade_id_ok [OF server_inv_upgrade_ok n] J unfolding update_upgrade_def by blast
  then show "JB b A s'" using J s' upgrade_update by blast
qed (simp add: session_note_upgrade_id_def split: prod.splits)

lemma maybe_switch: "hoare (JB b A) (maybe_send_switch_to_udp env) (\<lambda>_. JB b A) (\<lambda>_. W A)"
proof -
  have send: "hoare (\<lambda>s. JB b A s \<and> ss_udp_upgrade s = u) (send_tcp_message env m)
      (\<lambda>_ s. JB b A s \<and> ss_udp_upgrade s = u) (\<lambda>_. W A)" for u m
  proof (rule tcp_view_pred [OF send_tcp_message_view])
    show "(JB b A s \<and> ss_udp_upgrade s = u) = (JB b A s' \<and> ss_udp_upgrade s' = u)"
      if "udp_view s = udp_view s'" for s s' :: "('io, 'tx) server_session"
      using server_inv_view [OF that] sendable_view [OF that] that by (simp add: udp_view_def)
  qed (blast intro: weaken)
  have sent: "upgrade_ok (update_upgrade (\<lambda>u. u\<lparr>uu_switch_to_udp_sent := True\<rparr>) s)"
    if "upgrade_ok s" "uu_probe_seen (ss_udp_upgrade s)" "uu_ready_seen (ss_udp_upgrade s)"
    for s :: "('io, 'tx) server_session"
    using that by (auto simp: upgrade_ok_def update_upgrade_def)
  have go: "hoare (\<lambda>s. JB b A s \<and> ss_udp_upgrade s = u)
      (sseq (send_tcp_message env m)
         (smodify (update_upgrade (\<lambda>u. u\<lparr>uu_switch_to_udp_sent := True\<rparr>)))) (\<lambda>_. JB b A) (\<lambda>_. W A)"
    if "uu_probe_seen u" "uu_ready_seen u" for u m
  proof (rule hoare_seq [OF _ send], rule hoare_pre [OF hoare_modify])
    fix s :: "('io, 'tx) server_session"
    assume s: "JB b A s \<and> ss_udp_upgrade s = u"
    then have "upgrade_ok (update_upgrade (\<lambda>u. u\<lparr>uu_switch_to_udp_sent := True\<rparr>) s)"
      using that sent server_inv_upgrade_ok by blast
    then show "JB b A (update_upgrade (\<lambda>u. u\<lparr>uu_switch_to_udp_sent := True\<rparr>) s)"
      using s upgrade_update by blast
  qed
  have "hoare (\<lambda>s. JB b A s \<and> ss_udp_upgrade s = u)
      (if uu_switch_to_udp_sent u \<or> \<not> uu_probe_seen u \<or> \<not> uu_ready_seen u then sreturn ()
       else case uu_upgrade_id u of
           None \<Rightarrow> sreturn ()
         | Some upgrade_id \<Rightarrow>
             sseq (send_tcp_message env
                     (SwitchToUdp (switch_to_udp_encode \<lparr>switch_upgrade_id = upgrade_id\<rparr> [])))
               (smodify (update_upgrade (\<lambda>u. u\<lparr>uu_switch_to_udp_sent := True\<rparr>))))
      (\<lambda>_. JB b A) (\<lambda>_. W A)" for u
    by (intro chooses option_cases go) (auto intro: returns)
  then show ?thesis
    unfolding maybe_send_switch_to_udp_def by (rule hoare_pre [OF hoare_with]) simp
qed

lemma udp_ready: "hoare (JB b A) (handle_udp_ready env p) (\<lambda>_. JB b A) (\<lambda>_. W A)"
proof -
  have ready: "JB b A (update_upgrade (\<lambda>u. u\<lparr>uu_ready_seen := True\<rparr>) s)" if "JB b A s"
    for s :: "('io, 'tx) server_session"
  proof -
    have "upgrade_ok (update_upgrade (\<lambda>u. u\<lparr>uu_ready_seen := True\<rparr>) s)"
      using that server_inv_upgrade_ok [of wire pending peer ioinv A s]
      by (auto simp: upgrade_ok_def update_upgrade_def)
    then show ?thesis using that upgrade_update by blast
  qed
  have k: "hoare (JB b A) (if \<not> acc then sreturn Continue
      else sseq (smodify (update_upgrade (\<lambda>u. u\<lparr>uu_ready_seen := True\<rparr>)))
         (sseq (maybe_send_switch_to_udp env) (sreturn Continue))) (\<lambda>_. JB b A) (\<lambda>_. W A)" for acc
  proof (cases acc)
    case True
    have "hoare (JB b A) (sseq (smodify (update_upgrade (\<lambda>u. u\<lparr>uu_ready_seen := True\<rparr>)))
         (sseq (maybe_send_switch_to_udp env) (sreturn Continue))) (\<lambda>_. JB b A) (\<lambda>_. W A)"
      by (rule hoare_seq [OF hoare_seq [OF hoare_return maybe_switch]], rule hoare_pre [OF hoare_modify])
        (rule ready)
    then show ?thesis using True by simp
  qed (simp add: returns)
  show ?thesis
    unfolding handle_udp_ready_def
    by (rule hoare_bind [OF hoare_bind [OF k note_upgrade]], rule hoare_pre [OF hoare_lift])
      (blast intro: weaken)
qed

end

text \<open>A session with an adopted peer.\<close>

definition connected :: "('io, 'tx) server_session \<Rightarrow> bool" where
  "connected s \<longleftrightarrow> ss_udp_session s \<noteq> None \<and> ss_udp_peer_packet_number s \<noteq> None"

lemma connected_sendable: "connected s \<Longrightarrow> sendable s"
  by (simp add: connected_def sendable_def)

context server_io
begin

lemma modify_J: "(\<And>s. P s \<Longrightarrow> J A (f s)) \<Longrightarrow> hoare (J A) k Q E \<Longrightarrow> hoare P (sseq (smodify f) k) Q E"
  by (rule seqs [OF modifies])

lemma modify_JS: "(\<And>s. P s \<Longrightarrow> JS A (f s)) \<Longrightarrow> hoare (JS A) k Q E \<Longrightarrow> hoare P (sseq (smodify f) k) Q E"
  by (rule seqs [OF modifies])

lemma active_udp_connected: "J A s \<Longrightarrow> ss_active_transport s = ActiveUdpQsp \<Longrightarrow> connected s"
  by (simp add: server_inv_def transport_ok_def connected_def)

lemma note_connected:
  "hoare (\<lambda>s. J A s \<and> connected s) (session_note_upgrade_id i source) (\<lambda>_ s. J A s \<and> connected s) E"
proof (rule hoareI)
  fix s s' a
  assume s: "J A s \<and> connected s" and run: "session_note_upgrade_id i source s = (s', Ok a)"
  then have "connected s'"
    by (auto simp: session_note_upgrade_id_def connected_def split: prod.splits)
  moreover have "J A s'" using hoareD_Ok [OF note_upgrade [where b = False and A = A] _ run] s by simp
  ultimately show "J A s' \<and> connected s'" by simp
qed (simp add: session_note_upgrade_id_def split: prod.splits)

lemma upgrade_probe:
  "hoare (\<lambda>s. J A s \<and> connected s) (handle_upgrade_probe env p) (\<lambda>_. J A) (\<lambda>_. W A)"
proof -
  have seen: "JS A (update_upgrade (\<lambda>u. u\<lparr>uu_probe_seen := True\<rparr>) s)" if "J A s \<and> connected s"
    for s :: "('io, 'tx) server_session"
  proof -
    have "upgrade_ok (update_upgrade (\<lambda>u. u\<lparr>uu_probe_seen := True\<rparr>) s)"
      using that server_inv_upgrade_ok [of wire pending peer ioinv A s]
      by (auto simp: upgrade_ok_def update_upgrade_def connected_def)
    then show ?thesis using that upgrade_update connected_sendable by blast
  qed
  have switch: "hoare (JS A) (maybe_send_switch_to_udp env) (\<lambda>_. J A) (\<lambda>_. W A)"
    by (rule hoare_weaken [OF maybe_switch [where b = True]]) auto
  show ?thesis
    unfolding handle_upgrade_probe_def
    by (intro lift_binds binds [OF note_connected] chooses returns modify_JS [where A = A] seen
        seqs [OF send_udp_and_flush] seqs [OF switch]) (blast intro: weaken)+
qed

lemma activate_udp:
  assumes "J A s" "uu_switch_to_udp_sent (ss_udp_upgrade s)"
  shows "J A (set_active_transport env ActiveUdpQsp s)"
proof (cases "ss_active_transport s")
  case ActiveTcp
  have "connected s"
    using assms by (auto simp: server_inv_def server_weak_def upgrade_ok_def connected_def)
  then show ?thesis
    using assms ActiveTcp
    by (auto simp: set_active_transport_def server_inv_def server_weak_def peers_ok_def upgrade_ok_def
        transport_ok_def count_metric_def connected_def)
qed (use assms in \<open>simp add: set_active_transport_def\<close>)

lemma switch_ack: "hoare (J A) (handle_switch_ack env p) (\<lambda>_. J A) (\<lambda>_. W A)"
proof -
  have committed: "J A (update_upgrade (\<lambda>u. reset_udp_upgrade_attempt_preserving_history
      (remember_stale_upgrade_id i u)) s)" if "J A s" for s :: "('io, 'tx) server_session" and i
  proof (rule upgrade_update(1) [OF that])
    show "upgrade_ok (update_upgrade (\<lambda>u. reset_udp_upgrade_attempt_preserving_history
        (remember_stale_upgrade_id i u)) s)"
      using server_inv_upgrade_ok [OF that] length_remember_stale [of "ss_udp_upgrade s" i]
      by (auto simp: upgrade_ok_def update_upgrade_def reset_udp_upgrade_attempt_preserving_history_def)
  qed
  have send: "hoare (J A) (send_tcp_message env m) (\<lambda>_. J A) (\<lambda>_. W A)" for m
    by (rule view_keeps_J [OF send_tcp_message_view])
  show ?thesis
    unfolding handle_switch_ack_def
    by (intro lift_binds reads option_cases chooses modify_J [where A = A] seqs [OF send] returns committed)
      (auto intro: weaken activate_udp)
qed

lemma installed:
  assumes "J A s" "ss_active_transport s = ActiveTcp" "ioinv io" "wire io = []" "pending io = []"
  shows "J A (install_udp_session io register keys s)"
  using assms
  by (auto simp: install_udp_session_def reset_udp_upgrade_state_def server_inv_def server_weak_def
      peers_ok_def upgrade_ok_def transport_ok_def udp_upgrade_default_def quic_qsp_session_new_def)

lemma registration:
  "hoare (\<lambda>s. J A s \<and> ss_active_transport s = ActiveTcp) (handle_register_cid env p) (\<lambda>_. J A) (\<lambda>_. W A)"
proof -
  let ?P = "\<lambda>s. J A s \<and> ss_active_transport s = ActiveTcp"
  have P_view: "?P s = ?P s'" if "udp_view s = udp_view s'" for s s' :: "('io, 'tx) server_session"
    using server_inv_view [OF that] that by (simp add: udp_view_def)
  have send: "hoare (J A) (send_tcp_message env m) (\<lambda>_. J A) (\<lambda>_. W A)" for m
    by (rule view_keeps_J [OF send_tcp_message_view])
  have fail: "hoare ?P (send_register_fail env c) (\<lambda>_. J A) (\<lambda>_. W A)" for c
    by (rule hoare_pre [OF view_keeps_J [OF send_register_fail_view]]) simp
  have accept: "hoare ?P (accept_registration env reg ks pre) (\<lambda>_. J A) (\<lambda>_. W A)" for reg ks pre
    unfolding accept_registration_def
  proof (rule seqs [OF modifies], rule iffD1 [OF P_view])
    show "hoare ?P (external (\<lambda>n. ev_io_create env n placeholder_peer) (\<lambda>created.
        sbind (slift (map_err SeConnection created)) (\<lambda>io. sseq (smodify (install_udp_session io reg ks))
          (sbind (slift (map_err SePayloadEncode (register_ok_encode (rc_client_to_server_cid reg) [])))
            (\<lambda>ok_buf. sseq (send_tcp_message env (RegisterOk ok_buf)) (sreturn Continue))))))
        (\<lambda>_. J A) (\<lambda>_. W A)"
    proof (rule hoare_external)
      show "?P (s\<lparr>ss_calls := n\<rparr>)" if "?P s" for s n using that P_view [of "s\<lparr>ss_calls := n\<rparr>" s] by simp
      show "hoare ?P (sbind (slift (map_err SeConnection (ev_io_create env n placeholder_peer)))
          (\<lambda>io. sseq (smodify (install_udp_session io reg ks))
            (sbind (slift (map_err SePayloadEncode (register_ok_encode (rc_client_to_server_cid reg) [])))
              (\<lambda>ok_buf. sseq (send_tcp_message env (RegisterOk ok_buf)) (sreturn Continue)))))
          (\<lambda>_. J A) (\<lambda>_. W A)" for n
        by (intro lift_binds modify_J [where A = A] seqs [OF send] returns) (auto intro: weaken installed dest: created)
    qed
  qed simp_all
  have insert: "hoare ?P (session_insert_cid pre) (\<lambda>_. ?P) (\<lambda>_. W A)" for pre
    by (rule tcp_view_pred [OF session_insert_cid_view P_view]) (blast intro: weaken)+
  show ?thesis
    unfolding handle_register_cid_def
    by (intro result_cases reads chooses binds [OF hoare_pre [OF insert]] fail accept
        hoare_pre [OF fail] hoare_pre [OF accept]) auto
qed

end

section \<open>Messages and packets\<close>

text \<open>What the frame of a computation fixes stays true along with any postcondition.\<close>

lemma with_frame:
  assumes frame: "\<And>s1. keeps (session_frame s1) F m" and m: "hoare P m Q E"
  shows "hoare (\<lambda>s. P s \<and> ss_tcp_alive s = a \<and> ss_tcp_write_interrupted s = i) m
    (\<lambda>r s. Q r s \<and> ss_tcp_alive s = a \<and> ss_tcp_write_interrupted s = i) E"
proof (rule hoareI)
  fix s s' r
  assume s: "P s \<and> ss_tcp_alive s = a \<and> ss_tcp_write_interrupted s = i" and run: "m s = (s', Ok r)"
  have "session_frame s s'" using hoareD_Ok [OF frame session_frame_refl run] .
  then show "Q r s' \<and> ss_tcp_alive s' = a \<and> ss_tcp_write_interrupted s' = i"
    using s hoareD_Ok [OF m _ run] by (simp add: session_frame_def)
next
  fix s s' e
  assume "P s \<and> ss_tcp_alive s = a \<and> ss_tcp_write_interrupted s = i" "m s = (s', Err e)"
  then show "E e s'" using hoareD_Err [OF m] by blast
qed

lemma open_packet_io:
  fixes r :: "(opened_packet, 'e qsp_session_error) result"
  shows "open_packet cr q p = (q', r) \<Longrightarrow> qs_io q' = qs_io q"
  by (auto simp: open_packet_def open_with_candidate_def promote_candidate_rx_keys_def accept_opened_def
      maybe_confirm_previous_rx_keys_def Let_def
      split: option.splits sum.splits if_splits replay_error.splits)

text \<open>The address of a claim whose packet opens under the session's keys.\<close>

definition authenticated_peer :: "'io server_env \<Rightarrow> udp_claim \<Rightarrow> ('io, 'tx) server_session \<Rightarrow> socket_addr set" where
  "authenticated_peer env claim s =
     (case open_udp_packet env (uc_payload claim) s of
        (_, Opened _ _) \<Rightarrow> {uc_peer claim}
      | (_, Dropped) \<Rightarrow> {})"

context server_io
begin

lemma opened_J:
  assumes "J A s" "open_udp_packet env p s = (s', out)"
  shows "J A s'" "out \<noteq> Dropped \<Longrightarrow> ss_udp_session s' \<noteq> None"
proof -
  have "J A s' \<and> (out \<noteq> Dropped \<longrightarrow> ss_udp_session s' \<noteq> None)"
  proof (cases "ss_udp_session s")
    case None
    then show ?thesis using assms by (simp add: open_udp_packet_def)
  next
    case (Some q)
    obtain q' r where o: "open_packet (ev_crypto env) q p = (q', r :: (opened_packet, io_kind qsp_session_error) result)"
      by fastforce
    have io: "qs_io q' = qs_io q" by (rule open_packet_io [OF o])
    have "udp_view s' = udp_view (s\<lparr>ss_udp_session := Some q'\<rparr>)"
      using assms(2) Some o
      by (auto simp: open_udp_packet_def Let_def split: sum.splits qsp_session_error.splits if_splits)
    moreover have "J A (s\<lparr>ss_udp_session := Some q'\<rparr>)"
      using assms(1) Some io
      by (simp add: server_inv_def server_weak_def peers_ok_def upgrade_ok_def transport_ok_def)
    ultimately show ?thesis using server_inv_view by (fastforce simp: udp_view_def)
  qed
  then show "J A s'" "out \<noteq> Dropped \<Longrightarrow> ss_udp_session s' \<noteq> None" by auto
qed

lemma adopted:
  assumes "J A s" "ss_udp_session s \<noteq> None" "p \<in> A"
  shows "J A (adopt_udp_peer_if_newer env p pn s) \<and> connected (adopt_udp_peer_if_newer env p pn s)"
proof -
  obtain q where q: "ss_udp_session s = Some q" using assms(2) by blast
  have "ioinv (qs_io q)" using assms(1) q by (simp add: server_inv_def server_weak_def peers_ok_def)
  from session_io.set_peer_frame [OF backend this] assms q show ?thesis
    by (auto simp: adopt_udp_peer_if_newer_def server_inv_def server_weak_def peers_ok_def upgrade_ok_def
        transport_ok_def connected_def split: option.splits if_splits)
qed

lemma tun_forward: "hoare (J A) (forward_to_tun env p) (\<lambda>_. J A) (\<lambda>_. W A)"
  by (rule view_keeps_J [OF forward_to_tun_view])

lemma send_tcp: "hoare (J A) (send_tcp_message env m) (\<lambda>_. J A) (\<lambda>_. W A)"
  by (rule view_keeps_J [OF send_tcp_message_view])

lemma tun_packet: "hoare (J A) (handle_tun_packet env p) (\<lambda>_. J A) (\<lambda>_. W A)"
proof -
  have udp: "hoare (\<lambda>s. J A s \<and> ss_active_transport s = ActiveUdpQsp)
      (send_udp_message env (Data p) RetryMessageOnTcp) (\<lambda>_. J A) (\<lambda>_. W A)"
    by (rule hoare_weaken [OF send_udp]) (auto dest: active_udp_connected connected_sendable)
  have k: "hoare (\<lambda>s. J A s \<and> ss_active_transport s = active)
      (sseq (case active of
               ActiveTcp \<Rightarrow> send_tcp_message env (Data p)
             | ActiveUdpQsp \<Rightarrow> send_udp_message env (Data p) RetryMessageOnTcp) (sreturn Continue))
      (\<lambda>_. J A) (\<lambda>_. W A)" for active
    by (cases active) (auto intro!: seqs [OF udp] seqs [OF hoare_pre [OF send_tcp]] returns)
  show ?thesis
    unfolding handle_tun_packet_def split_beta
    by (intro reads chooses returns hoare_pre [OF k]) auto
qed

lemma fallback_to_tcp:
  "hoare (\<lambda>s. J A s \<and> ss_tcp_alive s) (handle_fallback_to_tcp env p) (\<lambda>_. J A) (\<lambda>_. W A)"
proof -
  have default: "J A ((reset_udp_upgrade_state s)\<lparr>ss_last_peer_fallback_id := f\<rparr>)" if "J A s"
    for s :: "('io, 'tx) server_session" and f
    using that
    by (simp add: reset_udp_upgrade_state_def server_inv_def server_weak_def peers_ok_def upgrade_ok_def
        transport_ok_def udp_upgrade_default_def split: option.splits)
  have reset: "J A ((reset_udp_upgrade_state (set_active_transport env ActiveTcp s))
      \<lparr>ss_last_peer_fallback_id := f\<rparr>)" if "J A s" "ss_tcp_alive s"
    for s :: "('io, 'tx) server_session" and f
    by (rule default [OF activate_tcp [OF weaken [OF that(1)] that(2)]])
  show ?thesis
    unfolding handle_fallback_to_tcp_def
    by (intro lift_binds modify_J [where A = A] seqs [OF send_tcp] returns) (auto intro: weaken reset)
qed

lemma tcp_dispatch:
  assumes "validate_client_message Tcp m = Ok ()"
  shows "hoare (\<lambda>s. J A s \<and> ss_tcp_alive s) (dispatch_tcp_message env m) (\<lambda>_. J A) (\<lambda>_. W A)"
proof -
  let ?P = "\<lambda>s :: ('io, 'tx) server_session. J A s \<and> ss_tcp_alive s"
  have ready: "hoare ?P (handle_udp_ready env p) (\<lambda>_. J A) (\<lambda>_. W A)" for p
    by (rule hoare_weaken [OF udp_ready [where b = False]]) auto
  have reg: "hoare ?P (swith ss_active_transport (\<lambda>active.
      if active = ActiveUdpQsp then sfail SeProtocolViolation else handle_register_cid env p))
      (\<lambda>_. J A) (\<lambda>_. W A)" for p
  proof (intro reads chooses fails)
    fix active
    assume "active \<noteq> ActiveUdpQsp"
    then show "hoare (\<lambda>s. ?P s \<and> ss_active_transport s = active) (handle_register_cid env p) (\<lambda>_. J A) (\<lambda>_. W A)"
      by (intro hoare_pre [OF registration]) (cases active; auto)
  qed (blast intro: weaken)
  show ?thesis
    using validate_client_message_type [OF assms]
    by (cases m) (auto simp: dispatch_tcp_message_def intro!: ready reg lift_binds returns
        fallback_to_tcp hoare_pre [OF switch_ack] hoare_pre [OF tun_forward]
        seqs [OF hoare_pre [OF send_tcp]] hoare_pre [OF view_keeps_J [OF peer_close_control_view]]
        hoare_pre [OF view_keeps_J [OF handle_fallback_ok_view]] weaken)
qed

lemma tcp_message:
  "hoare (\<lambda>s. J A s \<and> ss_tcp_alive s) (handle_tcp_message env m) (\<lambda>_. J A) (\<lambda>_. W A)"
  unfolding handle_tcp_message_def by (intro lift_seqs tcp_dispatch) (auto intro: weaken)

lemma udp_dispatch:
  assumes "validate_client_message UdpQsp m = Ok ()"
  shows "hoare (\<lambda>s. J A s \<and> connected s) (dispatch_udp_message env m) (\<lambda>_. J A) (\<lambda>_. W A)"
proof -
  have send: "hoare (\<lambda>s. J A s \<and> connected s) (send_udp_message_and_flush env x r) (\<lambda>_. J A) (\<lambda>_. W A)" for x r
    by (rule hoare_weaken [OF send_udp_and_flush]) (auto intro: connected_sendable)
  show ?thesis
    using validate_client_message_type [OF assms]
    by (cases m) (auto simp: dispatch_udp_message_def intro!: lift_binds returns upgrade_probe
        hoare_pre [OF tun_forward] seqs [OF send] hoare_pre [OF view_keeps_J [OF peer_close_control_view]]
        weaken)
qed

lemma opened_packet:
  assumes "p \<in> A"
  shows "hoare (\<lambda>s. J A s \<and> ss_udp_session s \<noteq> None) (handle_opened env now p pn opened)
    (\<lambda>_. J A) (\<lambda>_. W A)"
proof -
  have adopt: "hoare (\<lambda>s. J A s \<and> ss_udp_session s \<noteq> None) (smodify (adopt_udp_peer_if_newer env p pn))
      (\<lambda>_ s. J A s \<and> connected s) (\<lambda>_. W A)"
    using adopted assms by (intro modifies) blast
  have noted: "J A (note_authenticated_udp_activity now s)" if "J A s" for s :: "('io, 'tx) server_session"
    using that server_inv_view [of "note_authenticated_udp_activity now s" s] by simp
  show ?thesis
    unfolding handle_opened_def
    by (intro seqs [OF adopt] reads lift_binds lift_seqs binds [OF hoare_pre [OF udp_dispatch]]
        modify_J [where A = A] returns noted) (auto intro: weaken)
qed

lemma udp_claim:
  assumes "J A s" "handle_udp_claim env now claim s = (s', r)"
  shows "case r of Inl _ \<Rightarrow> W (A \<union> authenticated_peer env claim s) s'
    | Inr _ \<Rightarrow> J (A \<union> authenticated_peer env claim s) s'"
proof -
  obtain s1 out where o: "open_udp_packet env (uc_payload claim) s = (s1, out)" by fastforce
  show ?thesis
  proof (cases out)
    case (Opened pn opened)
    let ?A = "A \<union> {uc_peer claim}"
    have s1: "J ?A s1 \<and> ss_udp_session s1 \<noteq> None"
      using opened_J(2) [OF assms(1) o] Opened inv_mono [OF opened_J(1) [OF assms(1) o], of ?A] by blast
    have run: "handle_opened env now (uc_peer claim) pn opened s1 = (s', r)"
      using assms(2) o Opened by (simp add: handle_udp_claim_def)
    have peer: "authenticated_peer env claim s = {uc_peer claim}"
      using o Opened by (simp add: authenticated_peer_def)
    note triple = opened_packet [of "uc_peer claim" ?A now pn opened]
    show ?thesis
      unfolding peer
      using hoareD_Ok [OF triple s1] hoareD_Err [OF triple s1] run by (cases r) auto
  next
    case Dropped
    then show ?thesis
      using assms(2) o opened_J(1) [OF assms(1) o]
      by (auto simp: handle_udp_claim_def authenticated_peer_def)
  qed
qed

end

section \<open>Timers and turns\<close>

lemma schedule_next_ping_frame [keep]: "keeps (session_frame s0) no_panic (schedule_next_ping env now)"
  unfolding schedule_next_ping_def Let_def by (intro keep)

lemma handle_ping_tick_frame [keep]: "keeps (session_frame s0) no_panic (handle_ping_tick env)"
  unfolding handle_ping_tick_def Let_def by (auto intro!: keep split: active_transport.split)

lemma handle_udp_liveness_timeout_frame [keep]:
  "keeps (session_frame s0) no_panic (handle_udp_liveness_timeout env)"
  unfolding handle_udp_liveness_timeout_def by (intro keep keeps_modify) simp_all

lemma handle_event_frame [keep]: "keeps (session_frame s0) no_panic (handle_event env now ev)"
  unfolding handle_event_def by (cases ev) (auto intro!: keep)

text \<open>The claims that may be handled in a turn.\<close>

definition turn_peers ::
    "'io server_env \<Rightarrow> nat \<Rightarrow> session_work \<Rightarrow> ('io, 'tx) server_loop \<Rightarrow> socket_addr set" where
  "turn_peers env now work st =
     (case work of
        WorkEvent (EventUdp claim) \<Rightarrow>
          authenticated_peer env claim (fst (handle_buffered_input env now (lp_session st)))
      | _ \<Rightarrow> {})"

lemma on_session_triple:
  "hoare P m Q E \<Longrightarrow>
   hoare (\<lambda>st. P (lp_session st)) (on_session m) (\<lambda>a st. Q a (lp_session st)) (\<lambda>e st. E e (lp_session st))"
  by (fastforce simp: hoare_def on_session_def split: prod.splits sum.splits)

context server_io
begin

text \<open>The invariant of the loop: no write is left interrupted between turns.\<close>

abbreviation K :: "socket_addr set \<Rightarrow> ('io, 'tx) server_session \<Rightarrow> bool" where
  "K A s \<equiv> J A s \<and> \<not> ss_tcp_write_interrupted s"

abbreviation after :: "socket_addr set \<Rightarrow> session_control \<Rightarrow> ('io, 'tx) server_session \<Rightarrow> bool" where
  "after A c s \<equiv> (if c = CloseSession then W A s else K A s)"

lemma K_frame:
  fixes m :: "('io, 'tx, 'a) session_comp"
  assumes "\<And>s1. keeps (session_frame s1) F m" "hoare (J A) m (\<lambda>_. J A) (\<lambda>_. W A)"
  shows "hoare (K A) m (\<lambda>_. K A) (\<lambda>_. W A)"
proof (rule hoareI)
  fix s s' r
  assume "K A s" "m s = (s', Ok r)"
  then show "K A s'"
    using hoareD_Ok [OF assms(2)] hoareD_Ok [OF assms(1) session_frame_refl]
    by (fastforce simp: session_frame_def)
qed (use hoareD_Err [OF assms(2)] in blast)

lemma K_after: "K A s \<Longrightarrow> after A c s"
  by (simp add: weaken)

lemma read_loop: "hoare (\<lambda>s. K A s \<and> ss_tcp_alive s) (handle_tcp_read env now) (\<lambda>_ s. K A s \<and> ss_tcp_alive s) (\<lambda>_. W A)"
proof (rule handle_tcp_read_keeps)
  fix s :: "('io, 'tx) server_session" and c
  assume s: "K A s \<and> ss_tcp_alive s"
  show "K A (s\<lparr>ss_tcp := c\<rparr>) \<and> ss_tcp_alive (s\<lparr>ss_tcp := c\<rparr>)" using s by simp
  show "K A (note_activity now s) \<and> ss_tcp_alive (note_activity now s)" using s by simp
next
  fix m
  have "hoare (\<lambda>s. (J A s \<and> ss_tcp_alive s) \<and> ss_tcp_alive s = True \<and> ss_tcp_write_interrupted s = False)
      (handle_tcp_message env m)
      (\<lambda>_ s. J A s \<and> ss_tcp_alive s = True \<and> ss_tcp_write_interrupted s = False) (\<lambda>_. W A)"
    by (rule with_frame [OF handle_tcp_message_frame tcp_message])
  then show "hoare (\<lambda>s. K A s \<and> ss_tcp_alive s) (handle_tcp_message env m)
      (\<lambda>_ s. K A s \<and> ss_tcp_alive s) (\<lambda>_. W A)"
    by (rule hoare_weaken) auto
qed (blast intro: weaken)

lemma buffered_input: "hoare (K A) (handle_buffered_input env now) (\<lambda>_. K A) (\<lambda>_. W A)"
  unfolding handle_buffered_input_def
  by (intro reads chooses returns hoare_weaken [OF read_loop]) auto

lemma read_result: "hoare (\<lambda>s. K A s \<and> ss_tcp_alive s) (handle_tcp_read_result env now result) (\<lambda>_. K A) (\<lambda>_. W A)"
proof -
  have read: "hoare (\<lambda>s. K A s \<and> ss_tcp_alive s) (handle_tcp_read env now) (\<lambda>_. K A) (\<lambda>_. W A)"
    by (rule hoare_weaken [OF read_loop]) auto
  have chunk: "hoare (\<lambda>s. K A s \<and> ss_tcp_alive s) (smodify (\<lambda>s. s\<lparr>ss_tcp := f s\<rparr>))
      (\<lambda>_ s. K A s \<and> ss_tcp_alive s) (\<lambda>_. W A)" for f :: "('io, 'tx) server_session \<Rightarrow> tcp_channel"
    by (intro modifies) simp
  have eof: "J A (s\<lparr>ss_tcp_alive := False\<rparr>)" if "J A s" "ss_active_transport s = ActiveUdpQsp"
    for s :: "('io, 'tx) server_session"
    using that by (auto simp: server_inv_def server_weak_def peers_ok_def upgrade_ok_def transport_ok_def
        split: option.splits)
  show ?thesis
    unfolding handle_tcp_read_result_def
    by (intro lift_binds chooses seqs [OF chunk] read reads seqs [OF modifies [where Q = "\<lambda>_. K A"]]
        returns) (auto intro: weaken eof)
qed

lemma ping_tick: "hoare (J A) (handle_ping_tick env) (\<lambda>_. J A) (\<lambda>_. W A)"
proof -
  have udp: "hoare (\<lambda>s. J A s \<and> ss_active_transport s = ActiveUdpQsp)
      (send_udp_message_and_flush env m RetryMessageOnTcp) (\<lambda>_. J A) (\<lambda>_. W A)" for m
    by (rule hoare_weaken [OF send_udp_and_flush]) (auto dest: active_udp_connected connected_sendable)
  have k: "hoare (\<lambda>s. J A s \<and> ss_active_transport s = active)
      (case active of ActiveTcp \<Rightarrow> send_tcp_message env m
       | ActiveUdpQsp \<Rightarrow> send_udp_message_and_flush env m RetryMessageOnTcp) (\<lambda>_. J A) (\<lambda>_. W A)" for active m
    using udp by (cases active) (auto intro: hoare_pre [OF send_tcp])
  show ?thesis
    unfolding handle_ping_tick_def Let_def
    by (intro hoare_external reads k) simp
qed

lemma liveness: "hoare (J A) (handle_udp_liveness_timeout env) (\<lambda>_. J A) (\<lambda>_. W A)"
proof -
  have retire: "J A (retire_udp_transport (set_active_transport env ActiveTcp (count_metric x s)))"
    if "ss_tcp_alive s" for s :: "('io, 'tx) server_session" and x
    using that
    by (simp add: retire_udp_transport_def reset_udp_upgrade_state_def server_inv_def server_weak_def
        peers_ok_def upgrade_ok_def transport_ok_def udp_upgrade_default_def count_metric_def)
  have compose: "sseq (smodify f) (sseq (smodify g) (sseq (smodify h) k)) = sseq (smodify (\<lambda>s. h (g (f s)))) k"
    for f g h :: "('io, 'tx) server_session \<Rightarrow> ('io, 'tx) server_session" and k :: "('io, 'tx, session_control) session_comp"
    by (simp add: sseq_def sbind_def smodify_def)
  show ?thesis
    unfolding handle_udp_liveness_timeout_def compose
    by (intro reads chooses returns modify_J [where A = A]
        seqs [OF view_keeps_J [OF send_tcp_fallback_request_view]]) (auto intro: retire)
qed

lemma idle_close: "hoare (K A) (send_close env c) (\<lambda>_. W A) (\<lambda>_. W A)"
proof -
  have tcp: "hoare (K A) (send_close_over_tcp env c) (\<lambda>_. W A) (\<lambda>_. W A)"
  proof (rule hoare_weaken [OF view_keeps_J [where A = A]])
    show "keeps (\<lambda>s. udp_view s = v) (\<lambda>_. True) (send_close_over_tcp env c)" for v
      unfolding send_close_over_tcp_def by (intro keep TrueI)
  qed (auto intro: weaken)
  have udp: "hoare (\<lambda>s. K A s \<and> (ss_tcp_alive s \<and> \<not> ss_tcp_write_interrupted s) = False)
      (send_close_over_udp env c) (\<lambda>_. W A) (\<lambda>_. W A)"
  proof (rule hoare_weaken [OF close_udp [where A = A]])
    fix s :: "('io, 'tx) server_session"
    assume s: "K A s \<and> (ss_tcp_alive s \<and> \<not> ss_tcp_write_interrupted s) = False"
    then have "ss_active_transport s = ActiveUdpQsp" by (auto simp: server_inv_def transport_ok_def)
    then show "JS A s" using s active_udp_connected connected_sendable by blast
  qed (auto intro: weaken)
  show ?thesis
    unfolding send_close_def
    by (intro reads chooses hoare_pre [OF tcp] hoare_pre [OF udp]) auto
qed

lemma session_timer:
  "hoare (K A) (handle_session_timer env now timer at) (\<lambda>r. after A (fst r)) (\<lambda>_. W A)"
proof (cases timer)
  case TimerPing
  have "hoare (K A) (sseq (handle_ping_tick env) (sbind (schedule_next_ping env now)
      (\<lambda>at. sreturn (Continue, at)))) (\<lambda>r. after A (fst r)) (\<lambda>_. W A)"
    by (intro seqs [OF K_frame [OF handle_ping_tick_frame ping_tick]]
        binds [OF K_frame [OF schedule_next_ping_frame view_keeps_J [OF schedule_next_ping_view]]]
        returns) simp
  then show ?thesis using TimerPing by (simp add: handle_session_timer_def)
next
  case TimerUdpLiveness
  have "hoare (K A) (sbind (handle_udp_liveness_timeout env) (\<lambda>c. sreturn (c, at)))
      (\<lambda>r. after A (fst r)) (\<lambda>_. W A)"
    by (intro binds [OF K_frame [OF handle_udp_liveness_timeout_frame liveness]] returns)
      (auto intro: weaken)
  then show ?thesis using TimerUdpLiveness by (simp add: handle_session_timer_def)
next
  case TimerIdle
  have "hoare (K A) (sseq (smodify (count_metric DisconnectIdleTimeout))
      (smatch (send_close env CloseIdleTimeout) (\<lambda>_. sreturn (CloseSession, at))
        (\<lambda>_. sreturn (CloseSession, at)))) (\<lambda>r. after A (fst r)) (\<lambda>_. W A)"
    by (intro seqs [OF modifies [where Q = "\<lambda>_. K A"]] hoare_match [OF _ _ idle_close] returns) auto
  then show ?thesis using TimerIdle by (simp add: handle_session_timer_def)
qed

end

context server_io
begin

abbreviation LK :: "socket_addr set \<Rightarrow> ('io, 'tx) server_loop \<Rightarrow> bool" where
  "LK A st \<equiv> K A (lp_session st)"

abbreviation LW :: "socket_addr set \<Rightarrow> ('io, 'tx) server_loop \<Rightarrow> bool" where
  "LW A st \<equiv> W A (lp_session st)"

abbreviation Lafter :: "socket_addr set \<Rightarrow> session_control \<Rightarrow> ('io, 'tx) server_loop \<Rightarrow> bool" where
  "Lafter A c st \<equiv> after A c (lp_session st)"

lemma timer_turn: "hoare (LK A) (run_timer env now timer) (Lafter A) (\<lambda>_. LW A)"
proof -
  have k: "hoare (\<lambda>st. after A (fst r) (lp_session st))
      ((\<lambda>(control, at). sseq (smodify (\<lambda>st. st\<lparr>lp_next_ping_at := at\<rparr>)) (sreturn control)) r)
      (Lafter A) (\<lambda>_. LW A)" for r
    by (cases r) (auto simp: hoare_def sseq_def sbind_def smodify_def sreturn_def)
  show ?thesis
    unfolding run_timer_def
    by (intro reads binds [OF hoare_pre [OF on_session_triple [OF session_timer]] k]) simp
qed

lemma event_keeps:
  "hoare (\<lambda>s. K A s \<and> (\<forall>claim. ev = EventUdp claim \<longrightarrow> authenticated_peer env claim s \<subseteq> A))
     (handle_event env now ev) (\<lambda>_. K A) (\<lambda>_. W A)"
proof (cases ev)
  case (EventTunPacket p)
  then show ?thesis
    using hoare_pre [OF K_frame [OF handle_tun_packet_frame tun_packet]]
    by (auto simp: handle_event_def)
next
  case (EventUdp claim)
  have same: "A \<union> authenticated_peer env claim s = A" if "authenticated_peer env claim s \<subseteq> A"
    for s :: "('io, 'tx) server_session" using that by blast
  have J: "hoare (\<lambda>s. J A s \<and> authenticated_peer env claim s \<subseteq> A) (handle_udp_claim env now claim)
      (\<lambda>_. J A) (\<lambda>_. W A)"
    using udp_claim [where A = A] same by (intro hoareI) fastforce+
  have "hoare (\<lambda>s. K A s \<and> authenticated_peer env claim s \<subseteq> A) (handle_udp_claim env now claim)
      (\<lambda>_. K A) (\<lambda>_. W A)"
  proof (rule hoareI)
    fix s s' r
    assume s: "K A s \<and> authenticated_peer env claim s \<subseteq> A"
      and run: "handle_udp_claim env now claim s = (s', Ok r)"
    have "session_frame s s'" by (rule hoareD_Ok [OF handle_udp_claim_frame session_frame_refl run])
    moreover have "J A s'" using s by (intro hoareD_Ok [OF J _ run]) simp
    ultimately show "K A s'" using s by (simp add: session_frame_def)
  next
    fix s s' e
    assume "K A s \<and> authenticated_peer env claim s \<subseteq> A" "handle_udp_claim env now claim s = (s', Err e)"
    then show "W A s'" using hoareD_Err [OF J] by blast
  qed
  then show ?thesis using EventUdp by (simp add: handle_event_def)
qed

lemma flush_turn:
  "hoare (\<lambda>st. LK A st \<and> has_pending_udp_flush env (lp_session st)) (on_session (flush_udp_session env))
     (\<lambda>_. LK A) (\<lambda>_. LK A)"
proof -
  have pre: "JS A s" if "K A s \<and> has_pending_udp_flush env s" for s :: "('io, 'tx) server_session"
    using that active_udp_connected connected_sendable by (auto simp: has_pending_udp_flush_def)
  have "K A s'" if "K A s \<and> has_pending_udp_flush env s" "flush_udp_session env s = (s', r)"
    for s s' :: "('io, 'tx) server_session" and r
  proof -
    have "JS A s'" by (rule keeps_state [OF flush_keeps pre [OF that(1)] that(2)])
    moreover have "session_frame s s'"
      by (rule keeps_state [OF flush_udp_session_frame session_frame_refl that(2)])
    ultimately show ?thesis using that(1) by (simp add: session_frame_def)
  qed
  then have "hoare (\<lambda>s. K A s \<and> has_pending_udp_flush env s) (flush_udp_session env) (\<lambda>_. K A) (\<lambda>_. K A)"
    by (intro hoareI) blast+
  from on_session_triple [OF this] show ?thesis .
qed

lemma recover_turn:
  "hoare (LK A) (on_session (recover_from_udp_flush_error env m r e)) (\<lambda>_. LK A) (\<lambda>_. LW A)"
proof -
  have "hoare (J A) (recover_from_udp_flush_error env m r e) (\<lambda>_. J A) (\<lambda>_. W A)"
    by (rule hoare_weaken [OF recover_flush [where A = A]]) auto
  from on_session_triple [OF K_frame [OF recover_from_udp_flush_error_frame this]] show ?thesis .
qed

text \<open>The claim of the turn, if any, is from an address of \<open>A\<close>.\<close>

abbreviation claimed :: "socket_addr set \<Rightarrow> session_work \<Rightarrow> ('io, 'tx) server_session \<Rightarrow> bool" where
  "claimed A work s \<equiv> \<forall>claim. work = WorkEvent (EventUdp claim) \<longrightarrow> authenticated_peer env claim s \<subseteq> A"

lemma work_turn:
  "hoare (\<lambda>st. LK A st \<and> claimed A work (lp_session st) \<and> work_enabled flush work st \<and>
          (flush \<longrightarrow> has_pending_udp_flush env (lp_session st)))
     (run_work env now flush timer work) (Lafter A) (\<lambda>_. LW A)"
proof (cases work)
  case (WorkTcpRead result)
  show ?thesis
    unfolding run_work_def WorkTcpRead session_work.case
    by (rule hoare_weaken [OF on_session_triple [OF read_result]])
      (auto simp: work_enabled_def intro: weaken)
next
  case (WorkEvent ev)
  have set: "hoare (LK A) (sseq (smodify (\<lambda>st. st\<lparr>lp_flush_before_next_event := f st\<rparr>)) (sreturn c))
      (Lafter A) (\<lambda>_. LW A)" for f :: "('io, 'tx) server_loop \<Rightarrow> bool" and c
    by (intro seqs [OF modifies [where Q = "\<lambda>_. LK A"]] returns) (auto intro: weaken)
  show ?thesis
    unfolding run_work_def WorkEvent session_work.case
    by (intro reads binds [OF hoare_pre [OF on_session_triple [OF event_keeps]] set]) auto
next
  case WorkUdpFlush
  have clear: "hoare (LK A) (smodify (\<lambda>st. st\<lparr>lp_flush_before_next_event := False\<rparr>)) (\<lambda>_. LK A) (\<lambda>_. LW A)"
    by (intro modifies) simp
  have "hoare (\<lambda>st. LK A st \<and> has_pending_udp_flush env (lp_session st)) (run_work env now flush timer WorkUdpFlush)
      (Lafter A) (\<lambda>_. LW A)"
    unfolding run_work_def session_work.case
    by (intro hoare_match [OF _ _ flush_turn] seqs [OF clear] seqs [OF recover_turn] returns) simp_all
  then show ?thesis
    unfolding WorkUdpFlush by (rule hoare_pre) (auto simp: work_enabled_def)
next
  case WorkTimer
  show ?thesis
    unfolding run_work_def WorkTimer session_work.case by (rule hoare_pre [OF timer_turn]) simp
qed

lemma turn:
  assumes "LK A st" "loop_turn env now work st = (st', r)"
  shows "case r of Inl _ \<Rightarrow> LW (A \<union> turn_peers env now work st) st'
    | Inr c \<Rightarrow> Lafter (A \<union> turn_peers env now work st) c st'"
proof -
  let ?A = "A \<union> turn_peers env now work st"
  let ?claimed = "\<lambda>st. claimed ?A work (lp_session st)"
  have start: "LK ?A st" using assms(1) inv_mono [of A "lp_session st" ?A] by blast
  obtain st1 r1 where b: "on_session (handle_buffered_input env now) st = (st1, r1)" by fastforce
  have claimed: "?claimed st1"
    using b by (auto simp: on_session_def turn_peers_def split: prod.splits)
  have K1: "case r1 of Inl _ \<Rightarrow> LW ?A st1 | Inr _ \<Rightarrow> LK ?A st1"
    using hoareD_Ok [OF on_session_triple [OF buffered_input] start, of now st1]
      hoareD_Err [OF on_session_triple [OF buffered_input] start, of now st1] b
    by (cases r1) auto
  let ?rest = "sseq (smodify (\<lambda>st. st\<lparr>lp_flush_before_next_event :=
        lp_flush_before_next_event st \<and> has_pending_udp_flush env (lp_session st)\<rparr>))
      (swith (\<lambda>st. (has_pending_udp_flush env (lp_session st),
                    next_session_timer (lp_session st) (lp_next_ping_at st)))
        (\<lambda>(should_flush_udp, timer_at, timer).
          if timer_at \<le> now then run_timer env now timer
          else swith (work_enabled should_flush_udp work) (\<lambda>enabled.
            if enabled then run_work env now should_flush_udp timer work else sreturn Continue)))"
  have rest: "hoare (\<lambda>st. LK ?A st \<and> ?claimed st) ?rest (Lafter ?A) (\<lambda>_. LW ?A)"
    unfolding split_beta
    by (intro seqs [OF modifies [where Q = "\<lambda>_ st. LK ?A st \<and> ?claimed st"]] reads chooses returns
        hoare_pre [OF timer_turn] hoare_pre [OF work_turn]) auto
  show ?thesis
  proof (cases r1)
    case (Inl e)
    then show ?thesis using assms(2) b K1 by (auto simp: loop_turn_def sbind_def)
  next
    case (Inr c)
    show ?thesis
    proof (cases "c = CloseSession")
      case True
      then show ?thesis using assms(2) b K1 Inr by (auto simp: loop_turn_def sbind_def sreturn_def intro: weaken)
    next
      case False
      then have "?rest st1 = (st', r)" using assms(2) b Inr by (simp add: loop_turn_def sbind_def)
      then show ?thesis
        using hoareD_Ok [OF rest, of st1 st'] hoareD_Err [OF rest, of st1 st'] K1 Inr claimed
        by (cases r) auto
    qed
  qed
qed

end

end
