(* ===== verification/Server_Run.thy ===== *)
theory Server_Run
  imports Server_Safety
begin

text \<open>
  Whole runs of a server session (\<open>slt-server/src/sessions/lifecycle.rs\<close>): the states the loop
  reaches between its turns, with the addresses that authenticated packets came from, and what a
  run leaves behind when it ends, whatever happens on the way.
\<close>

text \<open>The state \<open>run_inner\<close> enters its loop with.\<close>

definition loop_start :: "'io server_env \<Rightarrow> nat \<Rightarrow> ('io, 'tx) server_session \<Rightarrow> ('io, 'tx) server_loop" where
  "loop_start env now s =
     (case schedule_next_ping env now s of
        (s', Inl _) \<Rightarrow> \<lparr>lp_session = s', lp_next_ping_at = now, lp_flush_before_next_event = False\<rparr>
      | (s', Inr at) \<Rightarrow> \<lparr>lp_session = s', lp_next_ping_at = at, lp_flush_before_next_event = False\<rparr>)"

text \<open>The states between turns.  The set holds the sources of the packets that the session
  authenticated so far.  Other sessions may change the shared registry at any time.\<close>

inductive server_reach :: "'io server_env \<Rightarrow> socket_addr set \<Rightarrow> ('io, 'tx) server_loop \<Rightarrow> bool" for env where
  reach_start:
    "server_reach env {} (loop_start env now
       (server_session_new now' session_id client_id ip tcp registry tx limits timeouts ciphers))"
| reach_registry:
    "server_reach env A st \<Longrightarrow>
     server_reach env A (st\<lparr>lp_session := (lp_session st)\<lparr>ss_registry := r\<rparr>\<rparr>)"
| reach_turn:
    "server_reach env A st \<Longrightarrow> loop_turn env now work st = (st', Ok Continue) \<Longrightarrow>
     server_reach env (A \<union> turn_peers env now work st) st'"

section \<open>Frames of a turn\<close>

lemma keeps_on_session [keep]:
  "keeps I F m \<Longrightarrow> keeps (\<lambda>st. I (lp_session st)) F (on_session m)"
  by (auto simp: hoare_def on_session_def split: prod.splits sum.splits)

lemma handle_tcp_read_owner [keep]: "keeps (session_owner s0) no_panic (handle_tcp_read env now)"
  by (rule handle_tcp_read_keeps [OF _ _ keeps_owner [OF handle_tcp_message_frame]]) simp_all

lemmas owner_keeps [keep] =
  keeps_owner [OF handle_ping_tick_frame] keeps_owner [OF schedule_next_ping_frame]
  keeps_owner [OF handle_udp_liveness_timeout_frame] keeps_owner [OF handle_event_frame]
  keeps_owner [OF flush_udp_session_frame] keeps_owner [OF recover_from_udp_flush_error_frame]
  keeps_owner [OF send_close_frame]

lemma handle_session_timer_owner [keep]:
  "keeps (session_owner s0) no_panic (handle_session_timer env now timer at)"
  unfolding handle_session_timer_def
  by (cases timer; simp only: session_timer.case; intro keep keeps_modify keeps_match
      [OF keeps_owner [OF send_close_frame]]) simp_all

lemma connection_error_keeps [keep]: "keeps I no_panic (slift (map_err SeConnection r))"
  by (rule keeps_lift) (cases r; auto)

lemma handle_tcp_read_result_owner [keep]:
  "keeps (session_owner s0) no_panic (handle_tcp_read_result env now r)"
  unfolding handle_tcp_read_result_def by (intro keep keeps_modify) simp_all

lemma handle_buffered_input_owner [keep]:
  "keeps (session_owner s0) no_panic (handle_buffered_input env now)"
  unfolding handle_buffered_input_def by (intro keep)

abbreviation owns :: "('io, 'tx) server_session \<Rightarrow> ('io, 'tx) server_loop \<Rightarrow> bool" where
  "owns s0 st \<equiv> session_owner s0 (lp_session st)"

lemma run_timer_owner [keep]: "keeps (owns s0) no_panic (run_timer env now timer)"
  unfolding run_timer_def split_beta by (intro keep keeps_modify) simp_all

lemma run_work_owner [keep]: "keeps (owns s0) no_panic (run_work env now b timer work)"
  unfolding run_work_def
  by (cases work; simp only: session_work.case; intro keep keeps_modify
      keeps_match [OF keeps_on_session [OF keeps_owner [OF flush_udp_session_frame]]]) simp_all

lemma loop_turn_owner [keep]: "keeps (owns s0) no_panic (loop_turn env now work)"
  unfolding loop_turn_def split_beta by (intro keep keeps_modify) simp_all

lemma loop_start_owner: "owns s (loop_start env now s)"
  using keeps_state [OF keeps_owner [OF schedule_next_ping_frame], of s s env now]
  by (auto simp: loop_start_def split: prod.splits sum.splits)

section \<open>The end of a run\<close>

lemma close_over_udp_best_effort_owner [keep]:
  "keeps (session_owner s0) no_panic (close_over_udp_best_effort env c)"
  unfolding close_over_udp_best_effort_def
  by (intro keep keeps_external keeps_match [OF keeps_owner [OF send_close_over_udp_frame]]) simp

lemma send_close_best_effort_owner [keep]:
  "keeps (session_owner s0) no_panic (send_close_best_effort env c)"
  unfolding send_close_best_effort_def
  by (intro keep keeps_external keeps_modify keeps_match [OF keeps_owner [OF send_close_over_tcp_frame]])
    simp_all

lemma handle_managed_shutdown_owner [keep]:
  "keeps (session_owner s0) no_panic (handle_managed_shutdown env reason)"
  unfolding handle_managed_shutdown_def by (intro keep keeps_modify) simp

lemma flush_pending_best_effort_owner [keep]:
  "keeps (session_owner s0) no_panic (flush_pending_udp_session_best_effort env)"
  unfolding flush_pending_udp_session_best_effort_def
  by (intro keep keeps_external keeps_match [OF keeps_owner [OF flush_udp_session_frame]]) simp

lemma keeps_fst: "keeps I F m \<Longrightarrow> I s \<Longrightarrow> I (fst (m s))"
  by (metis keeps_state prod.collapse)

lemma session_owner_cleanup [simp]: "session_owner s0 (cleanup s) = session_owner s0 s"
  by (simp add: cleanup_def session_owner_def)

lemma finish_run_result:
  "snd (finish_run env outcome s) = (case outcome of RunCompleted r \<Rightarrow> r | RunShutdown _ \<Rightarrow> Ok ()
     | RunSignalUnavailable \<Rightarrow> Err (SeIo KBrokenPipe))"
  by (simp add: finish_run_def Let_def split: session_run_outcome.split prod.split)

lemma finish_run_state:
  assumes "session_owner s0 s"
  shows "\<exists>s'. session_owner s0 s' \<and> fst (finish_run env outcome s) = cleanup s'"
proof -
  obtain s1 r where 1: "session_owner s0 s1"
    "(case outcome of RunCompleted result \<Rightarrow> (s, result)
        | RunShutdown reason \<Rightarrow> (fst (handle_managed_shutdown env reason s), Ok ())
        | RunSignalUnavailable \<Rightarrow> (s, Err (SeIo KBrokenPipe))) = (s1, r)"
    using assms keeps_fst [OF handle_managed_shutdown_owner assms] by (cases outcome) auto
  define s2 where "s2 = (if case r of Inl e \<Rightarrow> is_peer_protocol_error e | Inr _ \<Rightarrow> False
    then fst (send_close_best_effort env CloseProtocolError s1) else s1)"
  define s3 where "s3 = fst (flush_pending_udp_session_best_effort env s2)"
  have "session_owner s0 s2" using 1(1) keeps_fst [OF send_close_best_effort_owner 1(1)] by (simp add: s2_def)
  then have "session_owner s0 s3"
    unfolding s3_def by (rule keeps_fst [OF flush_pending_best_effort_owner])
  moreover have "fst (finish_run env outcome s) = cleanup (if is_ok r then s3 else count_metric DisconnectError s3)"
    by (simp add: finish_run_def 1(2) Let_def s3_def s2_def)
  ultimately show ?thesis by (intro exI conjI) (auto simp del: session_owner_cleanup)
qed

text \<open>A run is over with the clean-up of a session that is still the one it started with, and
  with the error of a turn or of the missing shutdown signal.\<close>

lemma run_session_ends:
  assumes "owns s0 st" "run_session env st inputs = Some (s, r)"
  shows "(\<exists>s'. session_owner s0 s' \<and> s = cleanup s') \<and> r \<noteq> Err SePanic"
  using assms
proof (induction env st inputs arbitrary: s r rule: run_session.induct)
  case (2 env st reason mid_write rest)
  let ?s = "if mid_write then set_tcp_write_interrupted True (lp_session st) else lp_session st"
  let ?o = "case reason of None \<Rightarrow> RunSignalUnavailable | Some r \<Rightarrow> RunShutdown r"
  have "session_owner s0 ?s" using 2(1) by simp
  then show ?case
    using finish_run_state [of s0 ?s env ?o] finish_run_result [of env ?o ?s] 2(2)
    by (auto split: option.splits)
next
  case (3 env st now work rest)
  obtain st' c where t: "loop_turn env now work st = (st', c)" by fastforce
  have own: "owns s0 st'" by (rule keeps_state [OF loop_turn_owner 3(2) t])
  show ?case
  proof (cases c)
    case (Inl e)
    have "no_panic e" using keeps_error [OF loop_turn_owner 3(2)] t Inl by blast
    then show ?thesis
      using finish_run_state [OF own, of env "RunCompleted (Err e)"]
        finish_run_result [of env "RunCompleted (Err e)" "lp_session st'"] 3(3) t Inl
      by (auto simp: prod_eq_iff)
  next
    case (Inr control)
    show ?thesis
    proof (cases control)
      case Continue
      then show ?thesis using 3 t Inr own by simp
    next
      case CloseSession
      then show ?thesis
        using finish_run_state [OF own, of env "RunCompleted (Ok ())"]
          finish_run_result [of env "RunCompleted (Ok ())" "lp_session st'"] 3(3) t Inr
        by (auto simp: prod_eq_iff)
    qed
  qed
qed simp

lemma cleanup_routes:
  "\<not> owned_by (ss_session_id s) (rg_sessions (ss_registry (cleanup s)) (ss_client_id s))"
  "\<not> owned_by (ss_session_id s) (rg_ip_routes (ss_registry (cleanup s)) (ss_assigned_ipv4 s))"
  "rg_cid_routes (ss_registry (cleanup s)) p = Some route \<Longrightarrow> cr_session_id route \<noteq> ss_session_id s"
  by (auto simp: cleanup_def remove_session_def owned_by_def retain_def Let_def
      split: option.splits if_splits)

section \<open>Invariants of the reachable states\<close>

lemma reach_invariant:
  assumes io: "server_io env wire pending peer ioinv" and reach: "server_reach env A st"
  shows "server_inv wire pending peer ioinv A (lp_session st) \<and> \<not> ss_tcp_write_interrupted (lp_session st)"
  using reach
proof induction
  case (reach_start now now' session_id client_id ip tcp registry tx limits timeouts ciphers)
  let ?s = "server_session_new now' session_id client_id ip tcp registry tx limits timeouts ciphers"
  have J: "server_inv wire pending peer ioinv {} ?s"
    by (simp add: server_session_new_def server_inv_def server_weak_def peers_ok_def upgrade_ok_def
        transport_ok_def udp_upgrade_default_def)
  obtain s' r where sch: "schedule_next_ping env now ?s = (s', r)" by fastforce
  have "udp_view s' = udp_view ?s" by (rule keeps_state [OF schedule_next_ping_view refl sch])
  moreover have "session_frame ?s s'" by (rule keeps_state [OF schedule_next_ping_frame session_frame_refl sch])
  ultimately have "server_inv wire pending peer ioinv {} s' \<and> \<not> ss_tcp_write_interrupted s'"
    using J server_inv_view [of s' ?s] by (simp add: session_frame_def server_session_new_def)
  then show ?case using sch by (simp add: loop_start_def split: sum.split)
next
  case (reach_registry A st r)
  then show ?case
    using server_inv_view [of "(lp_session st)\<lparr>ss_registry := r\<rparr>" "lp_session st"] by simp
next
  case (reach_turn A st now work st')
  then show ?case using server_io.turn [OF io, of A st now work st' "Ok Continue"] by simp
qed

section \<open>The production environment\<close>

text \<open>\<open>ServerUdpQspIoFactory::create\<close> on a clone of the front-door socket, and an environment whose
  sessions use the batching backend.\<close>

definition server_udp_io_create ::
    "(nat \<Rightarrow> ('k, io_kind) result) \<Rightarrow> nat \<Rightarrow> nat \<Rightarrow> socket_addr \<Rightarrow> ('k udp_qsp_io, io_kind) result" where
  "server_udp_io_create try_clone max_gso n peer =
     map_result (\<lambda>socket. udp_qsp_io_new socket max_gso peer) (try_clone n)"

definition server_udp_env ::
    "qsp_crypto \<Rightarrow> 'k try_send \<Rightarrow> (nat \<Rightarrow> ('k, io_kind) result) \<Rightarrow> nat \<Rightarrow> (nat \<Rightarrow> bool \<Rightarrow> bool) \<Rightarrow>
     (nat \<Rightarrow> write_outcome) \<Rightarrow> (nat \<Rightarrow> bytes \<Rightarrow> (tun_packet_send_outcome, io_kind) result) \<Rightarrow>
     (nat \<Rightarrow> u64) \<Rightarrow> (nat \<Rightarrow> bool) \<Rightarrow> 'k udp_qsp_io server_env" where
  "server_udp_env cr try_send try_clone max_gso key_update tcp_write tun random in_time =
     \<lparr>ev_crypto = cr, ev_io_send = udp_send_packet try_send, ev_io_flush = flush_pending try_send,
      ev_io_has_pending = udp_has_pending_flush, ev_io_discard = udp_discard_pending_send,
      ev_io_set_peer = udp_set_peer, ev_io_create = server_udp_io_create try_clone max_gso,
      ev_ssl_key_update = key_update, ev_tcp_write = tcp_write, ev_tun_accept = tun,
      ev_random = random, ev_in_time = in_time\<rparr>"

lemma server_udp_io:
  assumes "gso_socket try_send wire" "\<And>n k. try_clone n = Ok k \<Longrightarrow> wire k = []"
  shows "server_io (server_udp_env cr try_send try_clone max_gso key_update tcp_write tun random in_time)
    (\<lambda>io. wire (uq_sock io)) slab_packets uq_peer slab_inv"
proof (rule server_io.intro, goal_cases)
  case 1
  show ?case using udp_session_io [OF assms(1)] by (simp add: server_udp_env_def)
next
  case (2 n a io)
  then show ?case
    using assms(2)
    by (cases "try_clone n") (auto simp: server_udp_env_def server_udp_io_create_def)
qed

interpretation server_udp: server_io
  "server_udp_env cr log_send (\<lambda>_. Ok ([], outcomes)) max_gso key_update tcp_write tun random in_time"
  "\<lambda>io. log_wire (uq_sock io)" slab_packets uq_peer slab_inv
  by (rule server_udp_io [OF log_send_gso]) (auto simp: log_wire_def)

section \<open>One message over TCP\<close>

text \<open>Evaluation of a computation.\<close>

lemmas comp_simps = monad_simps external_def on_session_def Let_def

lemma send_tcp_message_done:
  assumes "\<not> ss_tcp_write_interrupted s" "ev_tcp_write env (ss_calls s) = WriteDone"
    and "\<And>b. ev_ssl_key_update env (ss_calls s) b" "length (message_payload m) < 2 ^ 32"
  shows "\<exists>tcp. tc_read_buf tcp = tc_read_buf (ss_tcp s) \<and>
    send_tcp_message env m s =
      (s\<lparr>ss_calls := Suc (ss_calls s), ss_tcp := tcp, ss_tcp_out := ss_tcp_out s @ [m],
        ss_tcp_write_interrupted := False\<rparr>, Ok ())"
proof -
  obtain tcp where w: "tcp_write_message (ev_ssl_key_update env (ss_calls s))
      (\<lambda>_. ev_tcp_write env (ss_calls s) = WriteDone) m (ss_tcp s) = (Ok (), tcp)"
    "tc_read_buf tcp = tc_read_buf (ss_tcp s)"
    using tcp_write_message_done [of "ev_ssl_key_update env (ss_calls s)"
        "\<lambda>_. ev_tcp_write env (ss_calls s) = WriteDone" m "ss_tcp s"] assms(2-4) by blast
  show ?thesis
    using assms(1,2) w
    by (auto simp: send_tcp_message_def send_tcp_message_inner_def set_tcp_write_interrupted_def comp_simps
        intro!: exI [of _ tcp])
qed

lemma handle_tcp_read_message:
  assumes "message_within (ss_limits s) m" "tc_read_buf (ss_tcp s) = []"
    and "handle_tcp_message env m s = (s', Ok Continue)"
  shows "handle_tcp_read env now (s\<lparr>ss_tcp := tcp_read_more (message_bytes m) (ss_tcp s)\<rparr>) =
    (note_activity now s', Ok Continue)"
proof -
  have pop: "try_pop_message (ss_limits s) (tcp_read_more (message_bytes m) (ss_tcp s)) =
      (Ok (Some (message_ty m, message_bytes m)), ss_tcp s)"
    using decode_message_front [OF assms(1), of "[]"] assms(2)
    by (simp add: try_pop_message_def pop_message_buf_decode tcp_read_more_def)
  have "session_frame s s'"
    by (rule hoareD_Ok [OF handle_tcp_message_frame session_frame_refl assms(3)])
  then have "tc_read_buf (ss_tcp s') = []" using assms(2) by (simp add: session_frame_def)
  then have none: "try_pop_message l (ss_tcp s') = (Ok None, ss_tcp s')" for l
    by (simp add: try_pop_message_def pop_message_buf_def decode_frame_def HEADER_LEN_def)
  have stop: "handle_tcp_read env now (note_activity now s') = (note_activity now s', Ok Continue)"
    by (subst handle_tcp_read.simps) (simp add: none note_activity_def)
  show ?thesis
    by (subst handle_tcp_read.simps) (simp add: pop owned_message_bytes assms(3) stop)
qed

text \<open>A turn that reads one message and handles it, before any timer is due.\<close>

lemma loop_turn_message:
  assumes "message_within (ss_limits s) m" "tc_read_buf (ss_tcp s) = []" "ss_tcp_alive s"
    and "handle_tcp_message env m s = (s', Ok Continue)"
    and "s = lp_session st" "now < fst (next_session_timer s (lp_next_ping_at st))"
    and "\<not> lp_flush_before_next_event st"
  shows "loop_turn env now (WorkTcpRead (Ok (message_bytes m))) st =
    (st\<lparr>lp_session := note_activity now s'\<rparr>, Ok Continue)"
proof -
  have "message_bytes m \<noteq> []" by (simp add: message_bytes_def)
  then have "handle_tcp_read_result env now (Ok (message_bytes m)) s = (note_activity now s', Ok Continue)"
    using handle_tcp_read_message [OF assms(1,2,4)]
    by (simp add: handle_tcp_read_result_def comp_simps)
  then show ?thesis
    using assms(2,3,5-)
    by (simp add: loop_turn_def handle_buffered_input_def has_buffered_input_def run_work_def work_enabled_def
        comp_simps case_prod_beta)
qed

section \<open>Registration\<close>

lemma cid_prefix_Ok: "cid_len c = MAX_DCID_LEN \<Longrightarrow> \<exists>p. cid_prefix c = Ok p"
  by (simp add: cid_prefix_def MAX_DCID_LEN_def QUIC_DCID_PREFIX_LEN_def)

text \<open>A registration the server accepts: the route is the session's only one, and the new UDP
  session has the registered connection IDs, keys and packet numbers and no peer yet.\<close>

lemma handle_register_cid_accepts:
  assumes decode: "register_cid_decode payload = Ok reg" "register_cid_wf reg"
    and allowed: "rc_cipher reg \<in> set (ss_allowed_ciphers s)"
    and keys: "udp_qsp_keys_from_register (ev_crypto env) reg = Ok keys"
    and route: "cid_prefix (rc_client_to_server_cid reg) = Ok p"
      "insert_cid (ss_client_id s) (ss_session_id s) p (ss_tx s) (ss_registry s) = (r, Ok ())"
    and io: "ev_io_create env (ss_calls s) placeholder_peer = Ok io"
    and tcp: "\<not> ss_tcp_write_interrupted s" "\<And>n. ev_tcp_write env n = WriteDone" "\<And>n b. ev_ssl_key_update env n b"
  shows "\<exists>s'. handle_register_cid env payload s = (s', Ok Continue) \<and>
    ss_udp_session s' = Some (quic_qsp_session_new io (rc_client_to_server_cid reg)
      (rc_server_to_client_cid reg) keys (rc_pn_start reg) (rc_pn_start_rx reg) (rc_key_phase reg)) \<and>
    ss_udp_peer_packet_number s' = None \<and> ss_active_transport s' = ss_active_transport s \<and>
    ss_registry s' = remove_cids_for_session_except (ss_session_id s) p r \<and>
    ss_tcp_out s' = ss_tcp_out s @ [RegisterOk (20 # cid_as_slice (rc_client_to_server_cid reg))]"
proof -
  let ?ok = "RegisterOk (20 # cid_as_slice (rc_client_to_server_cid reg))"
  let ?s = "install_udp_session io reg keys (s\<lparr>ss_registry :=
    remove_cids_for_session_except (ss_session_id s) p r, ss_calls := Suc (ss_calls s)\<rparr>)"
  have len: "cid_len (rc_client_to_server_cid reg) = 20" "cid_wf (rc_client_to_server_cid reg)"
    using decode(2) by (simp_all add: register_cid_wf_def MAX_DCID_LEN_def)
  then have ok: "register_ok_encode (rc_client_to_server_cid reg) [] = Ok (20 # cid_as_slice (rc_client_to_server_cid reg))"
    by (simp add: register_ok_encode_def MAX_DCID_LEN_def)
  have "length (message_payload ?ok) < 2 ^ 32" using len cid_length_as_slice by simp
  then obtain tcp where "send_tcp_message env ?ok ?s =
      (?s\<lparr>ss_calls := Suc (ss_calls ?s), ss_tcp := tcp, ss_tcp_out := ss_tcp_out ?s @ [?ok],
        ss_tcp_write_interrupted := False\<rparr>, Ok ())"
    using send_tcp_message_done [of ?s env ?ok] tcp
    by (auto simp: install_udp_session_def reset_udp_upgrade_state_def)
  then show ?thesis
    using decode(1) allowed keys route io ok
    by (simp add: handle_register_cid_def session_insert_cid_def accept_registration_def comp_simps)
      (simp add: install_udp_session_def reset_udp_upgrade_state_def)
qed

section \<open>Sample runs\<close>

definition sample_server_env :: "transmit log_socket udp_qsp_io server_env" where
  "sample_server_env =
     server_udp_env plain_crypto log_send (\<lambda>_. Ok ([], [])) 64 (\<lambda>_ _. True) (\<lambda>_. WriteDone)
       (\<lambda>_ _. Ok TunAccepted) (\<lambda>_. 5) (\<lambda>_. True)"

definition sample_server_session :: "(transmit log_socket udp_qsp_io, nat) server_session" where
  "sample_server_session =
     server_session_new 0 1 (ClientId [1]) (Ipv4Addr 10 0 0 2)
       (tcp_channel_with_state default_interval_key_updater [])
       (snd (register_session (ClientId [1]) (Ipv4Addr 10 0 0 2) 0 registry_new)) 0
       (message_limits_from_mtu 1400)
       \<lparr>st_ping_min = 100, st_ping_max = 100, st_udp_liveness_timeout = 50, st_idle_timeout = 1000,
        st_tcp_write_timeout = 5\<rparr> [ChaCha20Poly1305]"

text \<open>An IPv4 packet from the address of the session.\<close>

definition sample_ip_packet :: bytes where
  "sample_ip_packet = [0x45, 0, 0, 20, 0, 0, 0, 0, 64, 17, 0, 0, 10, 0, 0, 2, 8, 8, 8, 8]"

definition sample_register :: register_cid_payload where
  "sample_register =
     \<lparr>rc_client_to_server_cid = \<lparr>cid_len_byte = 20, cid_bytes = replicate 20 1\<rparr>,
      rc_server_to_client_cid = \<lparr>cid_len_byte = 8, cid_bytes = replicate 8 2 @ replicate 12 0\<rparr>,
      rc_cipher = ChaCha20Poly1305, rc_secret_tx = replicate 32 1, rc_secret_rx = replicate 32 2,
      rc_pn_start = 0, rc_pn_start_rx = 0, rc_key_phase = False\<rparr>"

lemma sample_server_env [simp]:
  "ev_crypto sample_server_env = plain_crypto"
  "ev_ssl_key_update sample_server_env n b" "ev_tcp_write sample_server_env n = WriteDone"
  "ev_tun_accept sample_server_env n p = Ok TunAccepted" "ev_random sample_server_env n = 5"
  "ev_io_create sample_server_env n a = Ok (udp_qsp_io_new ([], []) 64 a)"
  by (simp_all add: sample_server_env_def server_udp_env_def server_udp_io_create_def)

lemma sample_server_io:
  "server_io sample_server_env (\<lambda>io. log_wire (uq_sock io)) slab_packets uq_peer slab_inv"
  unfolding sample_server_env_def by (rule server_udp.server_io_axioms)

abbreviation sample_start :: "(transmit log_socket udp_qsp_io, nat) server_loop" where
  "sample_start \<equiv> loop_start sample_server_env 0 sample_server_session"

lemma sample_start_eq:
  "sample_start = \<lparr>lp_session = sample_server_session, lp_next_ping_at = 100, lp_flush_before_next_event = False\<rparr>"
  by (simp add: loop_start_def schedule_next_ping_def comp_simps sample_server_session_def server_session_new_def)

lemma sample_fields [simp]:
  "ss_tcp_alive sample_server_session" "ss_limits sample_server_session = message_limits_from_mtu 1400"
  "\<not> ss_tcp_write_interrupted sample_server_session" "tc_read_buf (ss_tcp sample_server_session) = []"
  "ss_tun_out sample_server_session = []" "ss_assigned_ipv4 sample_server_session = Ipv4Addr 10 0 0 2"
  "ss_allowed_ciphers sample_server_session = [ChaCha20Poly1305]"
  "ss_client_id sample_server_session = ClientId [1]" "ss_session_id sample_server_session = 1"
  "ss_udp_session sample_server_session = None" "ss_active_transport sample_server_session = ActiveTcp"
  "next_session_timer sample_server_session 100 = (100, TimerPing)"
  "ss_registry sample_server_session = snd (register_session (ClientId [1]) (Ipv4Addr 10 0 0 2) 0 registry_new)"
  by (simp_all add: sample_server_session_def server_session_new_def tcp_channel_with_state_def
      next_session_timer_def)

text \<open>The client sends a packet.\<close>

lemma sample_data_turn:
  "loop_turn sample_server_env 20 (WorkTcpRead (Ok (message_bytes (Data sample_ip_packet)))) sample_start =
     (sample_start\<lparr>lp_session := sample_server_session\<lparr>ss_last_activity := 20, ss_tun_out := [sample_ip_packet],
        ss_calls := 1\<rparr>\<rparr>, Ok Continue)"
proof -
  have valid: "validate_client_message Tcp (Data sample_ip_packet) = Ok ()"
     "validate_packet_src (Ipv4Addr 10 0 0 2) sample_ip_packet"
    by code_simp+
  have within: "message_within (message_limits_from_mtu 1400) (Data sample_ip_packet)"
    by (simp add: message_within_def message_limits_from_mtu_def sample_ip_packet_def le_max_iff_disj)
  have "ss_calls sample_server_session = 0" by (simp add: sample_server_session_def server_session_new_def)
  then have "handle_tcp_message sample_server_env (Data sample_ip_packet) sample_server_session =
      (sample_server_session\<lparr>ss_calls := 1, ss_tun_out := [sample_ip_packet]\<rparr>, Ok Continue)"
    using valid by (simp add: handle_tcp_message_def dispatch_tcp_message_def forward_to_tun_def comp_simps)
  from loop_turn_message [OF _ _ _ this, of sample_start 20] show ?thesis
    by (simp add: sample_start_eq within note_activity_def)
qed

lemma sample_run:
  "\<exists>s. run_session sample_server_env sample_start
     [InputWork 20 (WorkTcpRead (Ok (message_bytes (Data sample_ip_packet)))), InputShutdown None True] =
       Some (s, Err (SeIo KBrokenPipe)) \<and> ss_tun_out s = [sample_ip_packet]"
  by (simp add: sample_data_turn finish_run_def flush_pending_udp_session_best_effort_def comp_simps cleanup_def
      count_metric_def set_tcp_write_interrupted_def is_ok_def)

text \<open>The client registers a UDP path.\<close>

lemma register_cid_message:
  assumes "register_cid_wf reg"
  obtains b where "register_cid_encode reg [] = Ok b" "register_cid_decode b = Ok reg"
    "validate_client_message Tcp (RegisterCid b) = Ok ()"
    "message_within (message_limits_from_mtu mtu) (RegisterCid b)"
proof -
  obtain b where b: "register_cid_encode reg [] = Ok b" using register_cid_encode_layout [OF assms] by blast
  have dec: "register_cid_decode b = Ok reg" using register_cid.decode_Ok_iff assms b by blast
  have "length b \<le> MAX_CONTROL_FRAME_LEN"
    using register_cid_encoded_len_correct [OF assms b] by simp
  then have "message_within (message_limits_from_mtu mtu) (RegisterCid b)"
    by (simp add: message_within_def message_limits_from_mtu_def MAX_CONTROL_FRAME_LEN_def payload_lens Let_def)
  moreover have "validate_message (RegisterCid b) (session_context Tcp) = Ok ()"
    using dec by (simp add: validate_message_Ok session_context_def validate_message_type_Ok decode_fixed_payload_def)
  ultimately show ?thesis using that [OF b dec] by (simp add: validate_client_message_def)
qed

lemma sample_register_wf: "register_cid_wf sample_register"
  by (simp add: sample_register_def register_cid_wf_def cid_wf_def cid_len_def payload_lens)

lemma sample_registered:
  "\<exists>(st :: (transmit log_socket udp_qsp_io, nat) server_loop) q. server_reach sample_server_env {} st \<and> ss_udp_session (lp_session st) = Some q"
proof -
  let ?s = sample_server_session
  obtain b where b: "register_cid_decode b = Ok sample_register"
    "validate_client_message Tcp (RegisterCid b) = Ok ()"
    "message_within (message_limits_from_mtu 1400) (RegisterCid b)"
    using register_cid_message [OF sample_register_wf] by blast
  obtain keys where keys: "udp_qsp_keys_from_register plain_crypto sample_register = Ok keys"
    using udp_qsp_keys_new_Ok [OF plain_crypto_ok] sample_register_wf
    by (metis register_cid_wf_def udp_qsp_keys_from_register_def)
  obtain p where p: "cid_prefix (rc_client_to_server_cid sample_register) = Ok p"
    using cid_prefix_Ok sample_register_wf unfolding register_cid_wf_def by blast
  have "snd (insert_cid (ClientId [1]) 1 p (ss_tx ?s)
      (snd (register_session (ClientId [1]) (Ipv4Addr 10 0 0 2) 0 registry_new))) = Ok ()"
    by (simp add: insert_cid_def register_session_def registry_new_def Let_def)
  then obtain r where r: "insert_cid (ClientId [1]) 1 p (ss_tx ?s)
      (snd (register_session (ClientId [1]) (Ipv4Addr 10 0 0 2) 0 registry_new)) = (r, Ok ())"
    by (metis prod.collapse)
  have c: "rc_cipher sample_register = ChaCha20Poly1305" by (simp add: sample_register_def)
  obtain s' where s': "handle_register_cid sample_server_env b ?s = (s', Ok Continue)" "ss_udp_session s' \<noteq> None"
    using handle_register_cid_accepts [of b sample_register ?s sample_server_env keys p r]
      b(1) sample_register_wf keys r p c by auto
  then have "handle_tcp_message sample_server_env (RegisterCid b) ?s = (s', Ok Continue)"
    using b(2) by (simp add: handle_tcp_message_def dispatch_tcp_message_def comp_simps)
  from loop_turn_message [OF _ _ _ this, of sample_start 20]
  have "loop_turn sample_server_env 20 (WorkTcpRead (Ok (message_bytes (RegisterCid b)))) sample_start =
      (sample_start\<lparr>lp_session := note_activity 20 s'\<rparr>, Ok Continue)"
    using b(3) by (simp add: sample_start_eq)
  moreover have "server_reach sample_server_env {} sample_start"
    unfolding sample_server_session_def by (rule reach_start)
  ultimately have "server_reach sample_server_env {} (sample_start\<lparr>lp_session := note_activity 20 s'\<rparr>)"
    using reach_turn by (fastforce simp: turn_peers_def)
  then show ?thesis using s'(2) by (force simp: note_activity_def)
qed

section \<open>Properties\<close>

text \<open>C12: In every state the server's session loop reaches, whatever the client sends, whatever the
  transports and timers do and whenever sends fail, the preferred transport is usable: UDP is
  preferred only with a UDP session whose peer was learned from an authenticated packet, and it is
  preferred whenever TCP is dead; a switch to UDP was requested only after both a probe and the
  ready message of that attempt were seen; at most \<open>MAX_STALE_UPGRADE_IDS\<close> old attempts are
  remembered; and no TCP write is left half done.\<close>

theorem reachable_session_transport:
  assumes "server_io env wire pending peer ioinv" "server_reach env A st" "s = lp_session st"
  shows "(ss_active_transport s = ActiveUdpQsp \<longrightarrow>
            ss_udp_session s \<noteq> None \<and> ss_udp_peer_packet_number s \<noteq> None) \<and>
         (\<not> ss_tcp_alive s \<longrightarrow> ss_active_transport s = ActiveUdpQsp) \<and>
         (uu_switch_to_udp_sent (ss_udp_upgrade s) \<longrightarrow>
            uu_probe_seen (ss_udp_upgrade s) \<and> uu_ready_seen (ss_udp_upgrade s) \<and>
            ss_udp_session s \<noteq> None) \<and>
         length (uu_stale_upgrade_ids (ss_udp_upgrade s)) \<le> MAX_STALE_UPGRADE_IDS \<and>
         \<not> ss_tcp_write_interrupted s"
  using reach_invariant [OF assms(1,2)] assms(3)
  by (auto simp: server_inv_def server_weak_def transport_ok_def upgrade_ok_def)

theorem reachable_session_transport_witness:
  "\<exists>st :: (transmit log_socket udp_qsp_io, nat) server_loop. server_reach sample_server_env {} st \<and> ss_udp_session (lp_session st) \<noteq> None \<and>
     length (uu_stale_upgrade_ids (ss_udp_upgrade (lp_session st))) \<le> MAX_STALE_UPGRADE_IDS \<and>
     \<not> ss_tcp_write_interrupted (lp_session st)"
proof -
  obtain st :: "(transmit log_socket udp_qsp_io, nat) server_loop" and q
    where st: "server_reach sample_server_env {} st" "ss_udp_session (lp_session st) = Some q"
    using sample_registered by blast
  from reachable_session_transport [OF sample_server_io st(1) refl] st show ?thesis by blast
qed

text \<open>C13: The server sends UDP datagrams of a session only to addresses from which it authenticated a
  packet of that session: in every reachable state all datagrams on the wire went to such addresses,
  the current peer of a path with a learned peer is one of them, and before that nothing was
  sent or queued.  (The close notifications after the loop has ended are not covered.)\<close>

theorem udp_only_to_authenticated_peers:
  assumes "server_io env wire pending peer ioinv" "server_reach env A st"
    and "ss_udp_session (lp_session st) = Some q"
  shows "fst ` set (wire (qs_io q)) \<subseteq> A \<and>
    (if ss_udp_peer_packet_number (lp_session st) = None
     then wire (qs_io q) = [] \<and> pending (qs_io q) = [] else peer (qs_io q) \<in> A)"
  using reach_invariant [OF assms(1,2)] assms(3)
  by (auto simp: server_inv_def server_weak_def peers_ok_def split: if_splits)

theorem udp_only_to_authenticated_peers_witness:
  "\<exists>(st :: (transmit log_socket udp_qsp_io, nat) server_loop) q. server_reach sample_server_env {} st \<and> ss_udp_session (lp_session st) = Some q \<and>
     log_wire (uq_sock (qs_io q)) = []"
proof -
  obtain st :: "(transmit log_socket udp_qsp_io, nat) server_loop" and q
    where st: "server_reach sample_server_env {} st" "ss_udp_session (lp_session st) = Some q"
    using sample_registered by blast
  from udp_only_to_authenticated_peers [OF sample_server_io st] st show ?thesis by auto
qed

text \<open>C14: A session cannot spoof addresses: over a whole run, whatever arrives on TCP and UDP, every
  packet handed to the TUN device is an IPv4 packet whose source is the address assigned to the
  session.\<close>

theorem tun_packets_from_assigned_address:
  assumes "run_session env (loop_start env now s0) inputs = Some (s, r)" "ss_tun_out s0 = []"
  shows "\<forall>p \<in> set (ss_tun_out s). extract_src_ipv4 p = Some (ss_assigned_ipv4 s0)"
proof -
  obtain s' where "session_owner s0 s'" "s = cleanup s'"
    using run_session_ends [OF loop_start_owner assms(1)] by blast
  then show ?thesis
    using assms(2)
    by (auto simp: session_owner_def cleanup_def validate_packet_src_def validate_src_ipv4_def
        split: option.splits)
qed

theorem tun_packets_from_assigned_address_witness:
  "extract_src_ipv4 sample_ip_packet = Some (Ipv4Addr 10 0 0 2)"
proof -
  obtain s where "run_session sample_server_env sample_start
     [InputWork 20 (WorkTcpRead (Ok (message_bytes (Data sample_ip_packet)))), InputShutdown None True] =
       Some (s, Err (SeIo KBrokenPipe))" "ss_tun_out s = [sample_ip_packet]"
    using sample_run by blast
  then show ?thesis using tun_packets_from_assigned_address by fastforce
qed

text \<open>C15: However a session ends (close, end of stream, protocol or I/O error, takeover, restart or a
  lost shutdown signal), it never reaches an \<open>unreachable!\<close> and it removes its own routes: no
  connection-ID prefix leads to it, and neither its client nor its address is bound to it.\<close>

theorem ended_session_unrouted:
  assumes "run_session env (loop_start env now s0) inputs = Some (s, r)"
  shows "r \<noteq> Err SePanic \<and>
    (\<forall>p route. rg_cid_routes (ss_registry s) p = Some route \<longrightarrow> cr_session_id route \<noteq> ss_session_id s0) \<and>
    \<not> owned_by (ss_session_id s0) (rg_sessions (ss_registry s) (ss_client_id s0)) \<and>
    \<not> owned_by (ss_session_id s0) (rg_ip_routes (ss_registry s) (ss_assigned_ipv4 s0))"
proof -
  obtain s' where "session_owner s0 s'" "s = cleanup s'" "r \<noteq> Err SePanic"
    using run_session_ends [OF loop_start_owner assms] by blast
  then show ?thesis using cleanup_routes [of s'] by (auto simp: session_owner_def)
qed

theorem ended_session_unrouted_witness:
  "\<exists>s r. run_session sample_server_env sample_start
     [InputWork 20 (WorkTcpRead (Ok (message_bytes (Data sample_ip_packet)))), InputShutdown None True] = Some (s, r) \<and>
     \<not> owned_by 1 (rg_sessions (ss_registry s) (ClientId [1]))"
proof -
  obtain s r where "run_session sample_server_env sample_start
     [InputWork 20 (WorkTcpRead (Ok (message_bytes (Data sample_ip_packet)))), InputShutdown None True] = Some (s, r)"
    using sample_run by blast
  then show ?thesis using ended_session_unrouted by fastforce
qed

end
