(* ===== verification/Client_State.thy ===== *)
theory Client_State
  imports Tcp_Channel Key_Update Udp_Io
begin

text \<open>
  The state of the client's session (\<open>slt-client/src/runtime/session\<close>: \<open>state.rs\<close>, \<open>event.rs\<close>,
  \<open>error.rs\<close>, \<open>mod.rs\<close>), the reconnect backoff of \<open>runtime/mod.rs\<close>, the UDP-QSP transport of
  \<open>transport/udp_qsp.rs\<close> and the preparation of a registration in \<open>runtime/register.rs\<close>.

  As on the server, what lies outside is a parameter \<open>client_env\<close> whose outcomes are indexed by the
  number of external calls made (\<open>cs_calls\<close>).  Times and durations are nanoseconds.  A transport is
  its UDP-QSP session: its buffers are scratch space and its counters go to the session's log.
\<close>

section \<open>Errors and exits\<close>

datatype client_udp_error =
    CuIo io_kind | CuSendIo io_kind | CuQsp "io_kind qsp_session_error" | CuFrame frame_error
  | CuMessage message_error | CuIncompleteMessage

fun is_recoverable :: "client_udp_error \<Rightarrow> bool" where
  "is_recoverable (CuSendIo _) = False"
| "is_recoverable (CuIo source) =
     (source \<in> {KWouldBlock, KTimedOut, KConnectionRefused, KConnectionReset})"
| "is_recoverable (CuQsp (QsIo source)) =
     (source \<in> {KWouldBlock, KTimedOut, KConnectionRefused, KConnectionReset})"
| "is_recoverable (CuQsp (QsCrypto _)) = True"
| "is_recoverable (CuQsp QsReplay) = True"
| "is_recoverable (CuQsp QsTooOld) = True"
| "is_recoverable (CuQsp QsPacketNumberOverflow) = False"
| "is_recoverable (CuFrame _) = False"
| "is_recoverable (CuMessage _) = False"
| "is_recoverable CuIncompleteMessage = False"

text \<open>The details of a protocol violation that the code distinguishes.\<close>

datatype violation =
    InadmissibleMessage | RegisterOkMismatch | IncompleteUdpMessage | UdpSessionMissing
  | UdpTransportMissing

datatype client_error =
    CeProtocolViolation violation | CePermissionDenied io_kind | CeUdpUpgradeRequired
  | CeConnection io_kind | CeIo io_kind | CeUdpQsp client_udp_error | CeCrypto
  | CeUdpQspKeys qsp_crypto_error | CeFrame frame_error | CeMessage message_error
  | CePayload payload_error | CePanic

fun client_error_from_validation :: "message_validation_error \<Rightarrow> client_error" where
  "client_error_from_validation (InvalidPayload _ source) = CePayload source"
| "client_error_from_validation (InvalidDirection _ _) = CeProtocolViolation InadmissibleMessage"
| "client_error_from_validation (InvalidPhase _ _) = CeProtocolViolation InadmissibleMessage"
| "client_error_from_validation (InvalidTransport _ _) = CeProtocolViolation InadmissibleMessage"

fun client_error_from_udp :: "client_udp_error \<Rightarrow> client_error" where
  "client_error_from_udp (CuFrame source) = CeFrame source"
| "client_error_from_udp (CuMessage source) = CeMessage source"
| "client_error_from_udp CuIncompleteMessage = CeProtocolViolation IncompleteUdpMessage"
| "client_error_from_udp transport = CeUdpQsp transport"

text \<open>\<open>TcpWriteError\<close> with the kind of the failed write.\<close>

definition client_error_from_tcp_write :: "write_outcome \<Rightarrow> tcp_write_error \<Rightarrow> client_error" where
  "client_error_from_tcp_write out e =
     (case e of
        TcpFrame frame \<Rightarrow> CeFrame frame
      | TcpIo TlsKeyUpdateFailed \<Rightarrow> CeIo KOther
      | TcpIo TlsWriteFailed \<Rightarrow>
          CeIo (case out of WriteFailed k \<Rightarrow> k | WriteTimedOut \<Rightarrow> KTimedOut | WriteDone \<Rightarrow> KOther))"

datatype tun_task = TunReader | TunWriter

datatype session_exit =
    ExitShutdown | ExitTcpClosed | ExitTunClosed tun_task | ExitTunFault | ExitIdleTimeout
  | ExitRemoteClose close_code | ExitProtocolError | ExitPermissionDenied | ExitConnectionError
  | ExitNetworkChanged | ExitUdpUpgradeRequired

fun client_error_exit :: "client_error \<Rightarrow> session_exit" where
  "client_error_exit (CeProtocolViolation _) = ExitProtocolError"
| "client_error_exit (CeFrame _) = ExitProtocolError"
| "client_error_exit (CeMessage _) = ExitProtocolError"
| "client_error_exit (CePayload _) = ExitProtocolError"
| "client_error_exit CeCrypto = ExitProtocolError"
| "client_error_exit (CeUdpQspKeys _) = ExitProtocolError"
| "client_error_exit (CePermissionDenied _) = ExitPermissionDenied"
| "client_error_exit CeUdpUpgradeRequired = ExitUdpUpgradeRequired"
| "client_error_exit (CeConnection source) =
     (if source = KPermissionDenied then ExitPermissionDenied else ExitConnectionError)"
| "client_error_exit (CeIo source) =
     (if source = KPermissionDenied then ExitPermissionDenied else ExitConnectionError)"
| "client_error_exit (CeUdpQsp _) = ExitConnectionError"
| "client_error_exit CePanic = ExitProtocolError"

definition is_udp_qsp_recoverable :: "client_error \<Rightarrow> bool" where
  "is_udp_qsp_recoverable e = (case e of CeUdpQsp err \<Rightarrow> is_recoverable err | _ \<Rightarrow> False)"

definition is_udp_path_transport_error :: "client_error \<Rightarrow> bool" where
  "is_udp_path_transport_error e = (case e of CeUdpQsp _ \<Rightarrow> True | CeIo _ \<Rightarrow> True | _ \<Rightarrow> False)"

datatype client_control = ClientContinue | ClientClose session_exit

section \<open>Reconnect backoff\<close>

definition DURATION_MAX :: nat where
  "DURATION_MAX = (2 ^ 64 - 1) * 1000000000 + 999999999"

record reconnect_backoff =
  rb_base :: nat
  rb_max :: nat
  rb_current :: nat

definition reconnect_backoff_new :: "nat \<Rightarrow> nat \<Rightarrow> reconnect_backoff" where
  "reconnect_backoff_new base maximum = \<lparr>rb_base = base, rb_max = maximum, rb_current = base\<rparr>"

definition backoff_reset :: "reconnect_backoff \<Rightarrow> reconnect_backoff" where
  "backoff_reset b = b\<lparr>rb_current := rb_base b\<rparr>"

text \<open>\<open>next_delay\<close> with the random number it draws the jitter from.\<close>

definition next_delay :: "u64 \<Rightarrow> reconnect_backoff \<Rightarrow> reconnect_backoff \<times> nat" where
  "next_delay random b =
     (let cap = rb_current b;
          next = (if cap * 2 \<le> DURATION_MAX then cap * 2 else rb_max b);
          cap_ms = min (cap div 1000000) (2 ^ 64 - 1);
          half = cap_ms div 2;
          jitter = (if half > 0 then unat random mod (half + 1) else 0)
      in (b\<lparr>rb_current := min next (rb_max b)\<rparr>, min ((cap_ms - half) + jitter) (2 ^ 64 - 1) * 1000000))"

section \<open>UDP state\<close>

record 'k quic_ids =
  qi_dcid :: cid
  qi_scid :: cid
  qi_peer :: socket_addr
  qi_socket :: 'k

record 'io prepared_registration =
  pr_payload_buf :: bytes
  pr_session :: "'io quic_qsp_session option"
  pr_cipher :: cipher_suite

record 'io pending_registration =
  pg_prepared :: "'io prepared_registration"
  pg_deadline :: nat

datatype ('io, 'k) udp_state =
    UdpDisabled
  | NeedDiscovery reconnect_backoff nat
  | UdpPending "'k quic_ids" reconnect_backoff nat "'io pending_registration option"
  | UdpActive "'io quic_qsp_session"

definition udp_is_waiting :: "('io, 'k) udp_state \<Rightarrow> bool" where
  "udp_is_waiting u =
     (case u of NeedDiscovery _ _ \<Rightarrow> True | UdpPending _ _ _ registration \<Rightarrow> registration = None
      | _ \<Rightarrow> False)"

definition udp_reconnect_at :: "('io, 'k) udp_state \<Rightarrow> nat option" where
  "udp_reconnect_at u =
     (case u of
        NeedDiscovery _ reconnect_at \<Rightarrow> Some reconnect_at
      | UdpPending _ _ reconnect_at registration \<Rightarrow>
          if registration = None then Some reconnect_at else None
      | _ \<Rightarrow> None)"

definition udp_register_deadline :: "('io, 'k) udp_state \<Rightarrow> nat option" where
  "udp_register_deadline u =
     (case u of
        UdpPending _ _ _ registration \<Rightarrow> map_option pg_deadline registration
      | _ \<Rightarrow> None)"

definition udp_as_active :: "('io, 'k) udp_state \<Rightarrow> 'io quic_qsp_session option" where
  "udp_as_active u = (case u of UdpActive transport \<Rightarrow> Some transport | _ \<Rightarrow> None)"

record upgrading =
  ug_upgrade_id :: u64
  ug_deadline :: nat
  ug_attempts :: u32
  ug_next_probe_at :: nat
  ug_probe_nonce :: u64
  ug_probe_acked :: bool
  ug_ready_sent :: bool
  ug_probe_backoff :: reconnect_backoff

datatype client_upgrade_state =
    UpgradeDisabled | UpgradeIdle | Upgrading upgrading | AwaitingSwitchOk u64 nat
  | TcpOnlyBlockedUdp nat

definition upgrade_timer_at :: "client_upgrade_state \<Rightarrow> nat option" where
  "upgrade_timer_at u =
     (case u of
        UpgradeDisabled \<Rightarrow> None
      | UpgradeIdle \<Rightarrow> None
      | Upgrading g \<Rightarrow>
          Some (if ug_probe_acked g then ug_deadline g else min (ug_next_probe_at g) (ug_deadline g))
      | AwaitingSwitchOk _ deadline \<Rightarrow> Some deadline
      | TcpOnlyBlockedUdp retry_at \<Rightarrow> Some retry_at)"

definition saturating_add_u32 :: "u32 \<Rightarrow> u32 \<Rightarrow> u32" where
  "saturating_add_u32 a b = (if unat a + unat b < 2 ^ 32 then a + b else - 1)"

datatype client_active_transport = ClientTcp | ClientUdpQsp

section \<open>Configuration and environment\<close>

datatype client_udp_qsp_cipher = CipherAuto | CipherAes128Gcm | CipherChaCha20Poly1305

fun cipher_select :: "client_udp_qsp_cipher \<Rightarrow> bool \<Rightarrow> cipher_suite" where
  "cipher_select CipherAuto aes_gcm_accelerated =
     (if aes_gcm_accelerated then Aes128Gcm else ChaCha20Poly1305)"
| "cipher_select CipherChaCha20Poly1305 _ = ChaCha20Poly1305"
| "cipher_select CipherAes128Gcm _ = Aes128Gcm"

record client_session_config =
  cc_enable_upgrade :: bool
  cc_require_udp :: bool
  cc_tun_mtu :: u16
  cc_cipher :: client_udp_qsp_cipher
  cc_ping_min :: nat
  cc_ping_max :: nat
  cc_idle_timeout :: nat
  cc_udp_liveness_timeout :: nat
  cc_register_timeout :: nat
  cc_reconnect_min :: nat
  cc_reconnect_max :: nat

datatype tun_send_outcome = TunQueued | TunQueueClosed | TunSendCancelled

text \<open>What the path refresh receives next: the shutdown signal, a datagram or a socket error;
  when nothing is left before the deadline it times out.\<close>

datatype refresh_input = RefreshCancelled | RefreshRecv "(bytes, io_kind) result"

record ('io, 'k) client_env =
  ce_crypto :: qsp_crypto
  ce_io_send :: "'io \<Rightarrow> bytes \<Rightarrow> 'io \<times> (unit, io_kind) result"
  ce_io_flush :: "'io \<Rightarrow> 'io \<times> (unit, io_kind) result"
  ce_io_has_pending :: "'io \<Rightarrow> bool"
  ce_io_discard :: "'io \<Rightarrow> 'io \<times> nat"
  ce_io_peer :: "'io \<Rightarrow> socket_addr"
  ce_io_create :: "nat \<Rightarrow> 'k \<Rightarrow> socket_addr \<Rightarrow> ('io, io_kind) result"
  ce_bind_socket :: "nat \<Rightarrow> socket_addr \<Rightarrow> ('k, io_kind) result"
  ce_ssl_key_update :: "nat \<Rightarrow> bool \<Rightarrow> bool"
  ce_tcp_write :: "nat \<Rightarrow> write_outcome"
  ce_tun_send :: "nat \<Rightarrow> tun_send_outcome"
  ce_random :: "nat \<Rightarrow> u64"
  ce_random_secret :: "nat \<Rightarrow> bytes option"
  ce_aes_accelerated :: bool
  ce_in_time :: "nat \<Rightarrow> bool"
  ce_refresh :: "nat \<Rightarrow> refresh_input list"

section \<open>The session\<close>

datatype transport_change_reason =
    ReasonUpgradeCommitted | ReasonUdpError | ReasonUdpLivenessTimeout | ReasonServerInitiated

datatype client_event =
    TransportChanged client_active_transport client_active_transport transport_change_reason
  | UdpDiscoveryStarted | UdpDiscoveryFailed | UdpRegisterStarted | UdpRegisterFailed
  | UdpRegistered | UdpUpgradeStarted u64 | UdpPathValidated u64 | UdpSwitchCommitted u64
  | UdpPathRefreshStarted | UdpPathRefreshSucceeded | UdpPathRefreshFailed | NetworkChangedEvent

datatype client_metric =
    CmTransportTcpToUdp | CmTransportUdpToTcp | CmTransportUdpToTcpServer | CmDisconnectClose
  | CmDisconnectShutdown | CmDisconnectError | CmDisconnectIdleTimeout | CmUdpRegisterFailure
  | CmUdpDiscoveryFailure | CmTunDroppedOversized | CmTxKeyPhaseTransition
  | CmRxKeyPhaseTransition | CmDecryptFailReplay | CmDecryptFailTooOld | CmDecryptFailCrypto
  | CmDecryptFailOther

record ('io, 'k) client_session =
  cs_config :: client_session_config
  cs_tcp :: tcp_channel
  cs_active_transport :: client_active_transport
  cs_cancelled :: bool
  cs_limits :: message_limits
  cs_last_activity :: nat
  cs_last_authenticated_udp_activity :: "nat option"
  cs_udp_state :: "('io, 'k) udp_state"
  cs_retained_udp_transport :: "'io quic_qsp_session option"
  cs_udp_upgrade :: client_upgrade_state
  cs_udp_upgrade_backoff :: reconnect_backoff
  cs_udp_cipher_policy :: client_udp_qsp_cipher
  cs_discovery_task :: bool
  cs_metrics :: "client_metric list"
  cs_tcp_alive :: bool
  cs_pending_tcp_fallback :: "u64 option"
  cs_last_peer_fallback_id :: "u64 option"
  cs_events :: "client_event list"
  cs_tcp_out :: "message list"
  cs_tun_out :: "bytes list"
  cs_calls :: nat

definition client_session_new ::
    "nat \<Rightarrow> client_session_config \<Rightarrow> tcp_channel \<Rightarrow> ('io, 'k) client_session" where
  "client_session_new now config tcp =
     (let upgrade_enabled = cc_enable_upgrade config \<or> cc_require_udp config in
      \<lparr>cs_config = config, cs_tcp = tcp, cs_active_transport = ClientTcp, cs_cancelled = False,
       cs_limits = message_limits_from_mtu (cc_tun_mtu config), cs_last_activity = now,
       cs_last_authenticated_udp_activity = None,
       cs_udp_state =
         (if upgrade_enabled
          then NeedDiscovery (reconnect_backoff_new (cc_reconnect_min config) (cc_reconnect_max config)) now
          else UdpDisabled),
       cs_retained_udp_transport = None,
       cs_udp_upgrade = (if upgrade_enabled then UpgradeIdle else UpgradeDisabled),
       cs_udp_upgrade_backoff = reconnect_backoff_new (cc_reconnect_min config) (cc_reconnect_max config),
       cs_udp_cipher_policy = cc_cipher config, cs_discovery_task = False, cs_metrics = [],
       cs_tcp_alive = True, cs_pending_tcp_fallback = None, cs_last_peer_fallback_id = None,
       cs_events = [], cs_tcp_out = [], cs_tun_out = [], cs_calls = 0\<rparr>)"

definition udp_receive_transport :: "('io, 'k) client_session \<Rightarrow> 'io quic_qsp_session option" where
  "udp_receive_transport s =
     (case udp_as_active (cs_udp_state s) of
        Some transport \<Rightarrow> Some transport
      | None \<Rightarrow> cs_retained_udp_transport s)"

text \<open>Writing back the transport that \<open>udp_receive_transport_mut\<close> hands out.\<close>

definition set_receive_transport ::
    "'io quic_qsp_session \<Rightarrow> ('io, 'k) client_session \<Rightarrow> ('io, 'k) client_session" where
  "set_receive_transport q s =
     (case cs_udp_state s of
        UdpActive _ \<Rightarrow> s\<lparr>cs_udp_state := UdpActive q\<rparr>
      | _ \<Rightarrow> s\<lparr>cs_retained_udp_transport := Some q\<rparr>)"

definition client_count :: "client_metric \<Rightarrow> ('io, 'k) client_session \<Rightarrow> ('io, 'k) client_session" where
  "client_count m s = s\<lparr>cs_metrics := cs_metrics s @ [m]\<rparr>"

definition emit :: "client_event \<Rightarrow> ('io, 'k) client_session \<Rightarrow> ('io, 'k) client_session" where
  "emit e s = s\<lparr>cs_events := cs_events s @ [e]\<rparr>"

definition upgrade_enabled :: "('io, 'k) client_session \<Rightarrow> bool" where
  "upgrade_enabled s \<longleftrightarrow> cc_enable_upgrade (cs_config s) \<or> cc_require_udp (cs_config s)"

type_synonym ('io, 'k, 'a) client_comp = "(('io, 'k) client_session, 'a, client_error) comp"

definition client_external ::
    "(nat \<Rightarrow> 'o) \<Rightarrow> ('o \<Rightarrow> (('io, 'k) client_session, 'a, 'e) comp) \<Rightarrow> (('io, 'k) client_session, 'a, 'e) comp" where
  "client_external f k =
     swith (\<lambda>s. f (cs_calls s)) (\<lambda>out. sseq (smodify (\<lambda>s. s\<lparr>cs_calls := Suc (cs_calls s)\<rparr>)) (k out))"

end
