(* ===== verification/Client_Session.thy ===== *)
theory Client_Session
  imports Client_State
begin

text \<open>
  The handlers of the client's session (\<open>slt-client/src/runtime/session\<close>: \<open>lifecycle.rs\<close>,
  \<open>tcp.rs\<close>, \<open>udp.rs\<close>, \<open>upgrade.rs\<close>), with the UDP-QSP transport and the registration they use.  A
  handler reads the clock once.  The discovery task is known to the session by its result only.
\<close>

section \<open>Writing\<close>

definition client_note_activity :: "nat \<Rightarrow> ('io, 'k) client_session \<Rightarrow> ('io, 'k) client_session" where
  "client_note_activity received_at s = s\<lparr>cs_last_activity := received_at\<rparr>"

definition client_note_udp_activity :: "nat \<Rightarrow> ('io, 'k) client_session \<Rightarrow> ('io, 'k) client_session" where
  "client_note_udp_activity received_at s =
     s\<lparr>cs_last_activity := received_at, cs_last_authenticated_udp_activity := Some received_at\<rparr>"

definition note_transport_change ::
    "client_active_transport \<Rightarrow> client_active_transport \<Rightarrow> transport_change_reason \<Rightarrow>
     ('io, 'k) client_session \<Rightarrow> ('io, 'k) client_session" where
  "note_transport_change old new reason s = emit (TransportChanged old new reason) s"

definition write_tcp_message :: "('io, 'k) client_env \<Rightarrow> message \<Rightarrow> ('io, 'k, unit) client_comp" where
  "write_tcp_message env m =
     client_external (\<lambda>n. (ce_ssl_key_update env n, ce_tcp_write env n)) (\<lambda>(key_update, out) s.
       case tcp_write_message key_update (\<lambda>_. out = WriteDone) m (cs_tcp s) of
         (Inl e, tcp) \<Rightarrow> (s\<lparr>cs_tcp := tcp\<rparr>, Err (client_error_from_tcp_write out e))
       | (Inr _, tcp) \<Rightarrow> (s\<lparr>cs_tcp := tcp, cs_tcp_out := cs_tcp_out s @ [m]\<rparr>, Ok ()))"

text \<open>\<open>UdpQspTransport::write_message\<close>: the session afterwards, whether the key phase moved, and
  the result.\<close>

definition transport_write_message ::
    "('io, 'k) client_env \<Rightarrow> message \<Rightarrow> 'io quic_qsp_session \<Rightarrow>
     'io quic_qsp_session \<times> bool \<times> (unit, client_udp_error) result" where
  "transport_write_message env m q =
     (case encode_message m [] of
        Inl e \<Rightarrow> (q, False, Err (CuFrame e))
      | Inr buf \<Rightarrow>
          (case session_send (ce_crypto env) (ce_io_send env) q buf of
             (q', Inr _) \<Rightarrow> (q', qs_tx_key_phase q' \<noteq> qs_tx_key_phase q, Ok ())
           | (q', Inl (QsIo source)) \<Rightarrow> (q', False, Err (CuSendIo source))
           | (q', Inl other) \<Rightarrow> (q', False, Err (CuQsp other))))"

text \<open>On a given transport of the session.\<close>

definition write_on_transport ::
    "('io, 'k) client_env \<Rightarrow> message \<Rightarrow> 'io quic_qsp_session \<Rightarrow> ('io, 'k, unit) client_comp" where
  "write_on_transport env m q =
     (let (q', transitioned, r) = transport_write_message env m q in
      sseq (smodify (set_receive_transport q'))
      (sseq (smodify (\<lambda>s. if transitioned then client_count CmTxKeyPhaseTransition s else s))
        (slift (map_err client_error_from_udp r))))"

definition write_active_message :: "('io, 'k) client_env \<Rightarrow> message \<Rightarrow> ('io, 'k, unit) client_comp" where
  "write_active_message env m =
     swith cs_active_transport (\<lambda>active.
       case active of
         ClientTcp \<Rightarrow> write_tcp_message env m
       | ClientUdpQsp \<Rightarrow>
           swith (\<lambda>s. udp_as_active (cs_udp_state s)) (\<lambda>udp.
             case udp of
               None \<Rightarrow> sfail (CeProtocolViolation UdpTransportMissing)
             | Some q \<Rightarrow> write_on_transport env m q))"

definition flush_transport :: "('io, 'k) client_env \<Rightarrow> 'io quic_qsp_session \<Rightarrow> ('io, 'k, unit) client_comp" where
  "flush_transport env q =
     (let (io, r) = ce_io_flush env (qs_io q) in
      sseq (smodify (set_receive_transport (q\<lparr>qs_io := io\<rparr>))) (slift (map_err CeIo r)))"

definition write_udp_message_and_flush :: "('io, 'k) client_env \<Rightarrow> message \<Rightarrow> ('io, 'k, unit) client_comp" where
  "write_udp_message_and_flush env m =
     swith udp_receive_transport (\<lambda>udp.
       case udp of
         None \<Rightarrow> sfail (CeProtocolViolation UdpTransportMissing)
       | Some q \<Rightarrow>
           sseq (write_on_transport env m q)
             (swith udp_receive_transport (\<lambda>udp.
               case udp of
                 None \<Rightarrow> sfail (CeProtocolViolation UdpTransportMissing)
               | Some q \<Rightarrow> flush_transport env q)))"

definition flush_udp_transport :: "('io, 'k) client_env \<Rightarrow> ('io, 'k, unit) client_comp" where
  "flush_udp_transport env =
     swith (\<lambda>s. udp_as_active (cs_udp_state s)) (\<lambda>udp.
       case udp of
         None \<Rightarrow> sfail (CeProtocolViolation UdpTransportMissing)
       | Some q \<Rightarrow> flush_transport env q)"

section \<open>Discovery and registration schedules\<close>

text \<open>Drawing the next delay of a backoff.\<close>

definition draw_delay ::
    "('io, 'k) client_env \<Rightarrow> reconnect_backoff \<Rightarrow> (reconnect_backoff \<times> nat \<Rightarrow> ('io, 'k, 'a) client_comp) \<Rightarrow>
     ('io, 'k, 'a) client_comp" where
  "draw_delay env b k = client_external (ce_random env) (\<lambda>r. k (next_delay r b))"

definition fresh_backoff :: "client_session_config \<Rightarrow> reconnect_backoff" where
  "fresh_backoff c = reconnect_backoff_new (cc_reconnect_min c) (cc_reconnect_max c)"

definition disable_udp :: "('io, 'k) client_session \<Rightarrow> ('io, 'k) client_session" where
  "disable_udp s =
     s\<lparr>cs_retained_udp_transport := None, cs_udp_state := UdpDisabled,
       cs_udp_upgrade := UpgradeDisabled, cs_last_authenticated_udp_activity := None\<rparr>"

text \<open>The receive path is kept by moving the active transport aside.\<close>

definition retain_receive_path :: "bool \<Rightarrow> ('io, 'k) client_session \<Rightarrow> ('io, 'k) client_session" where
  "retain_receive_path preserve_receive_path s =
     (if preserve_receive_path \<and> cs_retained_udp_transport s = None then
        case cs_udp_state s of
          UdpActive transport \<Rightarrow>
            s\<lparr>cs_udp_state := UdpDisabled, cs_retained_udp_transport := Some transport\<rparr>
        | _ \<Rightarrow> s
      else if \<not> preserve_receive_path then
        s\<lparr>cs_retained_udp_transport := None, cs_last_authenticated_udp_activity := None\<rparr>
      else s)"

definition schedule_discovery_retry_with_receive_path ::
    "('io, 'k) client_env \<Rightarrow> nat \<Rightarrow> bool \<Rightarrow> ('io, 'k, unit) client_comp" where
  "schedule_discovery_retry_with_receive_path env now preserve_receive_path =
     swith upgrade_enabled (\<lambda>enabled.
       if \<not> enabled then smodify disable_udp
       else
         sseq (smodify (\<lambda>s. s\<lparr>cs_udp_upgrade := UpgradeIdle\<rparr>))
         (sseq (smodify (retain_receive_path preserve_receive_path))
           (swith (\<lambda>s. (cs_udp_state s, fresh_backoff (cs_config s))) (\<lambda>(udp, fresh).
             draw_delay env (case udp of NeedDiscovery backoff _ \<Rightarrow> backoff | _ \<Rightarrow> fresh)
               (\<lambda>(backoff, delay).
                 smodify (\<lambda>s. s\<lparr>cs_udp_state := NeedDiscovery backoff (now + delay)\<rparr>))))))"

definition schedule_discovery_retry :: "('io, 'k) client_env \<Rightarrow> nat \<Rightarrow> ('io, 'k, unit) client_comp" where
  "schedule_discovery_retry env now = schedule_discovery_retry_with_receive_path env now True"

definition schedule_discovery_retry_after_udp_failure ::
    "('io, 'k) client_env \<Rightarrow> nat \<Rightarrow> ('io, 'k, unit) client_comp" where
  "schedule_discovery_retry_after_udp_failure env now =
     schedule_discovery_retry_with_receive_path env now False"

definition schedule_discovery_now :: "nat \<Rightarrow> ('io, 'k) client_session \<Rightarrow> ('io, 'k) client_session" where
  "schedule_discovery_now now s =
     (if \<not> upgrade_enabled s then disable_udp s
      else
        s\<lparr>cs_retained_udp_transport := None, cs_last_authenticated_udp_activity := None,
          cs_udp_upgrade := UpgradeIdle,
          cs_udp_state := NeedDiscovery (fresh_backoff (cs_config s)) now\<rparr>)"

definition schedule_registration_retry :: "('io, 'k) client_env \<Rightarrow> nat \<Rightarrow> ('io, 'k, unit) client_comp" where
  "schedule_registration_retry env now =
     swith cs_udp_state (\<lambda>udp.
       case udp of
         UdpPending ids backoff _ _ \<Rightarrow>
           draw_delay env backoff (\<lambda>(backoff, delay).
             smodify (\<lambda>s. s\<lparr>cs_udp_state := UdpPending ids backoff (now + delay) None\<rparr>))
       | _ \<Rightarrow> sreturn ())"

section \<open>Falling back to TCP\<close>

definition discard_pending_udp_send_for_fallback ::
    "('io, 'k) client_env \<Rightarrow> ('io, 'k) client_session \<Rightarrow> ('io, 'k) client_session" where
  "discard_pending_udp_send_for_fallback env s =
     (case udp_receive_transport s of
        None \<Rightarrow> s
      | Some q \<Rightarrow> set_receive_transport (q\<lparr>qs_io := fst (ce_io_discard env (qs_io q))\<rparr>) s)"

definition request_tcp_fallback ::
    "('io, 'k) client_env \<Rightarrow> transport_change_reason \<Rightarrow> ('io, 'k, unit) client_comp" where
  "request_tcp_fallback env reason =
     swith (\<lambda>s. (cs_tcp_alive s, cs_pending_tcp_fallback s)) (\<lambda>(alive, pending).
       if \<not> alive then sfail (CeConnection KNotConnected)
       else
         sseq (if pending \<noteq> None then sreturn ()
               else
                 client_external (ce_random env) (\<lambda>fallback_id.
                   sseq (write_tcp_message env
                           (FallbackToTcp (fallback_to_tcp_encode \<lparr>ftt_fallback_id = fallback_id\<rparr> [])))
                     (smodify (\<lambda>s. s\<lparr>cs_pending_tcp_fallback := Some fallback_id\<rparr>))))
         (sseq (smodify (discard_pending_udp_send_for_fallback env))
           (smodify (\<lambda>s. if cs_active_transport s = ClientUdpQsp then
               note_transport_change ClientUdpQsp ClientTcp reason
                 ((client_count CmTransportUdpToTcp s)\<lparr>cs_active_transport := ClientTcp\<rparr>)
             else s))))"

definition client_handle_fallback_to_tcp ::
    "('io, 'k) client_env \<Rightarrow> nat \<Rightarrow> bytes \<Rightarrow> ('io, 'k, client_control) client_comp" where
  "client_handle_fallback_to_tcp env now payload =
     sbind (slift (map_err CePayload (fallback_to_tcp_decode payload))) (\<lambda>request.
     let fallback_id = ftt_fallback_id request in
     swith (\<lambda>s. cs_last_peer_fallback_id s = Some fallback_id) (\<lambda>is_duplicate.
       sseq (if is_duplicate then sreturn ()
             else
               sseq (smodify (discard_pending_udp_send_for_fallback env))
               (sseq (smodify (\<lambda>s. if cs_active_transport s = ClientUdpQsp then
                        note_transport_change ClientUdpQsp ClientTcp ReasonServerInitiated
                          ((client_count CmTransportUdpToTcpServer s)\<lparr>cs_active_transport := ClientTcp\<rparr>)
                      else s))
               (sseq (schedule_discovery_retry env now)
                 (smodify (\<lambda>s. s\<lparr>cs_last_peer_fallback_id := Some fallback_id\<rparr>)))))
       (sseq (write_tcp_message env (FallbackOk (fallback_ok_encode \<lparr>fok_fallback_id = fallback_id\<rparr> [])))
         (sreturn ClientContinue))))"

definition client_handle_fallback_ok :: "bytes \<Rightarrow> ('io, 'k, client_control) client_comp" where
  "client_handle_fallback_ok payload =
     sbind (slift (map_err CePayload (fallback_ok_decode payload))) (\<lambda>ok.
     sseq (smodify (\<lambda>s. if cs_pending_tcp_fallback s = Some (fok_fallback_id ok)
             then s\<lparr>cs_pending_tcp_fallback := None\<rparr> else s))
       (sreturn ClientContinue))"

text \<open>True: the session goes on; false: both transports are dead.\<close>

definition handle_udp_error :: "('io, 'k) client_env \<Rightarrow> nat \<Rightarrow> client_error \<Rightarrow> ('io, 'k, bool) client_comp" where
  "handle_udp_error env now err =
     (if is_udp_qsp_recoverable err then sreturn True
      else
        swith (\<lambda>s. (case cs_udp_state s of NeedDiscovery _ _ \<Rightarrow> True | UdpPending _ _ _ _ \<Rightarrow> True | _ \<Rightarrow> False) \<and>
                   cs_retained_udp_transport s \<noteq> None) (\<lambda>retained.
          if retained then
            sseq (smodify (\<lambda>s. s\<lparr>cs_retained_udp_transport := None,
                                 cs_last_authenticated_udp_activity := None\<rparr>)) (sreturn True)
          else
            swith cs_tcp_alive (\<lambda>alive.
              if \<not> alive then sreturn False
              else
                sseq (request_tcp_fallback env ReasonUdpError)
                (sseq (schedule_discovery_retry_after_udp_failure env now) (sreturn True)))))"

definition handle_udp_event_error ::
    "('io, 'k) client_env \<Rightarrow> nat \<Rightarrow> client_error \<Rightarrow> ('io, 'k, client_control) client_comp" where
  "handle_udp_event_error env now err =
     sbind (handle_udp_error env now err) (\<lambda>alive.
       if \<not> alive then
         sseq (smodify (client_count CmDisconnectError)) (sreturn (ClientClose ExitConnectionError))
       else sreturn ClientContinue)"

text \<open>What pings, closes and packets share: a failed write on the preferred UDP path is handled and
  the message written on TCP.\<close>

definition recover_udp_write ::
    "('io, 'k) client_env \<Rightarrow> nat \<Rightarrow> client_active_transport \<Rightarrow> ('io, 'k, unit) client_comp \<Rightarrow> client_error \<Rightarrow>
     ('io, 'k, unit) client_comp" where
  "recover_udp_write env now active retry err =
     (if active \<noteq> ClientUdpQsp then sfail err
      else if is_udp_path_transport_error err then
        sbind (handle_udp_error env now err) (\<lambda>alive.
          if \<not> alive then sfail (CeConnection KNotConnected) else retry)
      else sfail err)"

definition client_handle_ping_tick :: "('io, 'k) client_env \<Rightarrow> nat \<Rightarrow> ('io, 'k, unit) client_comp" where
  "client_handle_ping_tick env now =
     client_external (ce_random env) (\<lambda>nonce.
     swith cs_active_transport (\<lambda>active.
       let m = Ping (ping_encode \<lparr>ping_nonce = nonce\<rparr> []) in
       smatch (if active = ClientUdpQsp then write_udp_message_and_flush env m else write_tcp_message env m)
         (recover_udp_write env now active (write_tcp_message env m)) sreturn))"

definition client_send_close :: "('io, 'k) client_env \<Rightarrow> nat \<Rightarrow> close_code \<Rightarrow> ('io, 'k, unit) client_comp" where
  "client_send_close env now code =
     swith cs_active_transport (\<lambda>active.
       let m = Close (close_encode code []) in
       smatch (if active = ClientUdpQsp then write_udp_message_and_flush env m else write_tcp_message env m)
         (recover_udp_write env now active (write_tcp_message env m)) sreturn)"

definition client_send_close_best_effort ::
    "('io, 'k) client_env \<Rightarrow> nat \<Rightarrow> close_code \<Rightarrow> ('io, 'k, unit) client_comp" where
  "client_send_close_best_effort env now code =
     client_external (ce_in_time env) (\<lambda>in_time.
       if in_time then smatch (client_send_close env now code) (\<lambda>_. sreturn ()) sreturn
       else sreturn ())"

definition client_handle_tun_packet ::
    "('io, 'k) client_env \<Rightarrow> nat \<Rightarrow> bytes \<Rightarrow> ('io, 'k, client_control) client_comp" where
  "client_handle_tun_packet env now packet =
     swith (\<lambda>s. (max_data_len (cs_limits s), cs_active_transport s)) (\<lambda>(max_len, active).
       if packet = [] then sreturn ClientContinue
       else if length packet > max_len then
         sseq (smodify (client_count CmTunDroppedOversized)) (sreturn ClientContinue)
       else
         sseq (smatch (write_active_message env (Data packet))
                 (recover_udp_write env now active (write_tcp_message env (Data packet))) sreturn)
           (sreturn ClientContinue))"

definition send_to_tun_or_shutdown :: "('io, 'k) client_env \<Rightarrow> bytes \<Rightarrow> ('io, 'k, client_control) client_comp" where
  "send_to_tun_or_shutdown env packet =
     client_external (ce_tun_send env) (\<lambda>out.
       case out of
         TunSendCancelled \<Rightarrow>
           sseq (smodify (client_count CmDisconnectShutdown)) (sreturn (ClientClose ExitShutdown))
       | TunQueueClosed \<Rightarrow> sreturn (ClientClose (ExitTunClosed TunWriter))
       | TunQueued \<Rightarrow>
           sseq (smodify (\<lambda>s. s\<lparr>cs_tun_out := cs_tun_out s @ [packet]\<rparr>)) (sreturn ClientContinue))"

section \<open>Registration\<close>

definition u64_from_u32 :: "u64 \<Rightarrow> u64" where
  "u64_from_u32 r = ucast (ucast r :: u32)"

definition select_udp_qsp_cipher :: "('io, 'k) client_env \<Rightarrow> client_udp_qsp_cipher \<Rightarrow> cipher_suite" where
  "select_udp_qsp_cipher env policy = cipher_select policy (ce_aes_accelerated env)"

fun other_explicit_policy :: "cipher_suite \<Rightarrow> client_udp_qsp_cipher" where
  "other_explicit_policy Aes128Gcm = CipherChaCha20Poly1305"
| "other_explicit_policy ChaCha20Poly1305 = CipherAes128Gcm"

definition auto_fallback_policy :: "('io, 'k) client_env \<Rightarrow> client_udp_qsp_cipher" where
  "auto_fallback_policy env = other_explicit_policy (select_udp_qsp_cipher env CipherAuto)"

definition random_secret ::
    "('io, 'k) client_env \<Rightarrow> (bytes \<Rightarrow> ('io, 'k, 'a) client_comp) \<Rightarrow> ('io, 'k, 'a) client_comp" where
  "random_secret env k =
     client_external (ce_random_secret env) (\<lambda>r. case r of None \<Rightarrow> sfail CeCrypto | Some b \<Rightarrow> k b)"

text \<open>The payload is in the server's terms, the session in the client's.\<close>

definition registration_payload ::
    "'k quic_ids \<Rightarrow> cipher_suite \<Rightarrow> bytes \<Rightarrow> bytes \<Rightarrow> u64 \<Rightarrow> u64 \<Rightarrow> register_cid_payload" where
  "registration_payload ids cipher secret_c2s secret_s2c pn_start_s2c pn_start_c2s =
     \<lparr>rc_client_to_server_cid = qi_dcid ids, rc_server_to_client_cid = qi_scid ids,
      rc_cipher = cipher, rc_secret_tx = secret_s2c, rc_secret_rx = secret_c2s,
      rc_pn_start = pn_start_s2c, rc_pn_start_rx = pn_start_c2s, rc_key_phase = False\<rparr>"

definition prepare_udp_qsp_registration ::
    "('io, 'k) client_env \<Rightarrow> 'k quic_ids \<Rightarrow> cipher_suite \<Rightarrow> ('io, 'k, 'io prepared_registration) client_comp" where
  "prepare_udp_qsp_registration env ids cipher =
     random_secret env (\<lambda>secret_c2s.
     random_secret env (\<lambda>secret_s2c.
     client_external (ce_random env) (\<lambda>s2c.
     client_external (ce_random env) (\<lambda>c2s.
       let payload = registration_payload ids cipher secret_c2s secret_s2c (u64_from_u32 s2c) (u64_from_u32 c2s) in
       sbind (slift (map_err CePayload (register_cid_encode payload []))) (\<lambda>payload_buf.
       sbind (slift (map_err CeUdpQspKeys
                (udp_qsp_keys_new (ce_crypto env) cipher (rc_secret_rx payload) (rc_secret_tx payload)))) (\<lambda>keys.
       client_external (\<lambda>n. ce_io_create env n (qi_socket ids) (qi_peer ids)) (\<lambda>created.
       sbind (slift (map_err CeIo created)) (\<lambda>io.
         sreturn \<lparr>pr_payload_buf = payload_buf,
                  pr_session = Some (quic_qsp_session_new io (qi_scid ids) (qi_dcid ids) keys
                    (rc_pn_start_rx payload) (rc_pn_start payload) False),
                  pr_cipher = cipher\<rparr>)))))))) "

definition handle_registration_setup_failure ::
    "('io, 'k) client_env \<Rightarrow> nat \<Rightarrow> ('io, 'k, client_control) client_comp" where
  "handle_registration_setup_failure env now =
     swith (\<lambda>s. cc_require_udp (cs_config s)) (\<lambda>require_udp.
       if require_udp then sreturn (ClientClose ExitUdpUpgradeRequired)
       else
         sseq (smodify (emit UdpRegisterFailed))
         (sseq (schedule_registration_retry env now) (sreturn ClientContinue)))"

definition attempt_udp_registration ::
    "('io, 'k) client_env \<Rightarrow> nat \<Rightarrow> ('io, 'k, client_control) client_comp" where
  "attempt_udp_registration env now =
     swith cs_udp_state (\<lambda>udp.
       case udp of
         UdpPending ids backoff reconnect_at None \<Rightarrow>
           swith (\<lambda>s. (cs_udp_cipher_policy s, cc_register_timeout (cs_config s))) (\<lambda>(policy, register_timeout).
           smatch (prepare_udp_qsp_registration env ids (select_udp_qsp_cipher env policy))
             (\<lambda>_. handle_registration_setup_failure env now)
             (\<lambda>prepared.
               sseq (write_tcp_message env (RegisterCid (pr_payload_buf prepared)))
               (sseq (smodify (\<lambda>s. s\<lparr>cs_udp_state := UdpPending ids backoff reconnect_at
                        (Some \<lparr>pg_prepared = prepared, pg_deadline = now + register_timeout\<rparr>)\<rparr>))
               (sseq (smodify (emit UdpRegisterStarted)) (sreturn ClientContinue)))))
       | _ \<Rightarrow> sreturn ClientContinue)"

section \<open>Upgrade\<close>

definition MAX_UPGRADE_PROBES :: u32 where
  "MAX_UPGRADE_PROBES = 8"

definition start_udp_upgrade_attempt :: "('io, 'k) client_env \<Rightarrow> nat \<Rightarrow> ('io, 'k, unit) client_comp" where
  "start_udp_upgrade_attempt env now =
     swith (\<lambda>s. (cs_udp_upgrade s, udp_as_active (cs_udp_state s), cs_active_transport s, cs_config s))
       (\<lambda>(upgrade, udp, active, config).
         if upgrade = UpgradeDisabled then sreturn ()
         else if udp = None then smodify (\<lambda>s. s\<lparr>cs_udp_upgrade := UpgradeIdle\<rparr>)
         else if active \<noteq> ClientTcp then sreturn ()
         else
           client_external (ce_random env) (\<lambda>upgrade_id.
           client_external (ce_random env) (\<lambda>probe_nonce.
             sseq (smodify (\<lambda>s. s\<lparr>cs_udp_upgrade := Upgrading
                     \<lparr>ug_upgrade_id = upgrade_id, ug_deadline = now + cc_register_timeout config,
                      ug_attempts = 0, ug_next_probe_at = now, ug_probe_nonce = probe_nonce,
                      ug_probe_acked = False, ug_ready_sent = False,
                      ug_probe_backoff = fresh_backoff config\<rparr>\<rparr>))
               (smodify (emit (UdpUpgradeStarted upgrade_id))))))"

definition handle_register_ok ::
    "('io, 'k) client_env \<Rightarrow> nat \<Rightarrow> bytes \<Rightarrow> ('io, 'k, client_control) client_comp" where
  "handle_register_ok env now payload =
     swith cs_udp_state (\<lambda>udp.
       case udp of
         UdpPending ids backoff reconnect_at (Some in_flight) \<Rightarrow>
           sbind (slift (map_err CePayload (register_ok_decode payload))) (\<lambda>client_to_server_cid.
           if client_to_server_cid \<noteq> qi_dcid ids then sfail (CeProtocolViolation RegisterOkMismatch)
           else
             (case pr_session (pg_prepared in_flight) of
                None \<Rightarrow> sfail (CeProtocolViolation UdpSessionMissing)
              | Some session \<Rightarrow>
                  sseq (smodify (\<lambda>s. s\<lparr>cs_udp_state := UdpActive session, cs_retained_udp_transport := None,
                                       cs_last_authenticated_udp_activity := None\<rparr>))
                  (sseq (smodify (emit UdpRegistered))
                  (sseq (start_udp_upgrade_attempt env now) (sreturn ClientContinue)))))
       | _ \<Rightarrow> sreturn ClientContinue)"

definition handle_register_fail ::
    "('io, 'k) client_env \<Rightarrow> nat \<Rightarrow> bytes \<Rightarrow> ('io, 'k, client_control) client_comp" where
  "handle_register_fail env now payload =
     swith (\<lambda>s. udp_register_deadline (cs_udp_state s) \<noteq> None) (\<lambda>has_in_flight_registration.
       if \<not> has_in_flight_registration then sreturn ClientContinue
       else
         sbind (slift (map_err CePayload (register_fail_decode payload))) (\<lambda>code.
         sseq (smodify (client_count CmUdpRegisterFailure))
         (swith (\<lambda>s. (cs_config s, cs_udp_cipher_policy s)) (\<lambda>(config, policy).
           let retry = sseq (smodify (emit UdpRegisterFailed))
                         (sseq (schedule_registration_retry env now) (sreturn ClientContinue)) in
           if code = RegisterInvalidCipher \<and> cc_cipher config = CipherAuto \<and> policy = CipherAuto then
             sseq (smodify (\<lambda>s. s\<lparr>cs_udp_cipher_policy := auto_fallback_policy env\<rparr>)) retry
           else if cc_require_udp config then sreturn (ClientClose ExitUdpUpgradeRequired)
           else retry))))"

definition handle_registration_timeout ::
    "('io, 'k) client_env \<Rightarrow> nat \<Rightarrow> ('io, 'k, client_control) client_comp" where
  "handle_registration_timeout env now =
     swith (\<lambda>s. (udp_register_deadline (cs_udp_state s) \<noteq> None, cc_require_udp (cs_config s)))
       (\<lambda>(in_flight, require_udp).
         if \<not> in_flight then sreturn ClientContinue
         else if require_udp then sreturn (ClientClose ExitUdpUpgradeRequired)
         else
           sseq (smodify (emit UdpRegisterFailed))
           (sseq (schedule_registration_retry env now) (sreturn ClientContinue)))"

definition handle_discovery_result ::
    "('io, 'k) client_env \<Rightarrow> nat \<Rightarrow> 'k quic_ids option \<Rightarrow> ('io, 'k, client_control) client_comp" where
  "handle_discovery_result env now maybe_ids =
     (case maybe_ids of
        Some ids \<Rightarrow>
          sseq (smodify (\<lambda>s. s\<lparr>cs_udp_state := UdpPending ids (fresh_backoff (cs_config s)) now None\<rparr>))
            (sreturn ClientContinue)
      | None \<Rightarrow>
          sseq (smodify (client_count CmUdpDiscoveryFailure))
          (sseq (smodify (emit UdpDiscoveryFailed))
          (swith (\<lambda>s. cc_require_udp (cs_config s)) (\<lambda>require_udp.
            if require_udp then sreturn (ClientClose ExitUdpUpgradeRequired)
            else sseq (schedule_discovery_retry env now) (sreturn ClientContinue)))))"

definition handle_udp_upgrade_timeout ::
    "('io, 'k) client_env \<Rightarrow> nat \<Rightarrow> ('io, 'k, client_control) client_comp" where
  "handle_udp_upgrade_timeout env now =
     swith (\<lambda>s. (cc_require_udp (cs_config s), cs_udp_upgrade_backoff s)) (\<lambda>(require_udp, backoff).
       if require_udp then sreturn (ClientClose ExitUdpUpgradeRequired)
       else
         draw_delay env backoff (\<lambda>(backoff, delay).
           sseq (smodify (\<lambda>s. s\<lparr>cs_udp_upgrade_backoff := backoff,
                                cs_udp_upgrade := TcpOnlyBlockedUdp (now + delay)\<rparr>))
             (sreturn ClientContinue)))"

definition send_upgrade_probe :: "('io, 'k) client_env \<Rightarrow> nat \<Rightarrow> ('io, 'k, unit) client_comp" where
  "send_upgrade_probe env now =
     swith cs_udp_upgrade (\<lambda>upgrade.
       case upgrade of
         Upgrading g \<Rightarrow>
           if ug_probe_acked g \<or> ug_attempts g \<ge> MAX_UPGRADE_PROBES then sreturn ()
           else
             draw_delay env (ug_probe_backoff g) (\<lambda>(backoff, delay).
             sseq (smodify (\<lambda>s. s\<lparr>cs_udp_upgrade := Upgrading
                     (g\<lparr>ug_attempts := saturating_add_u32 (ug_attempts g) 1,
                        ug_next_probe_at := now + delay, ug_probe_backoff := backoff\<rparr>)\<rparr>))
             (smatch (write_udp_message_and_flush env (UpgradeProbe (upgrade_probe_encode
                        \<lparr>probe_upgrade_id = ug_upgrade_id g, probe_nonce = ug_probe_nonce g\<rparr> [])))
               (\<lambda>err.
                 if is_udp_path_transport_error err then
                   sbind (handle_udp_error env now err) (\<lambda>alive.
                     if \<not> alive then sfail (CeConnection KNotConnected) else sreturn ())
                 else sfail err)
               sreturn))
       | _ \<Rightarrow> sreturn ())"

definition handle_udp_upgrade_tick ::
    "('io, 'k) client_env \<Rightarrow> nat \<Rightarrow> ('io, 'k, client_control) client_comp" where
  "handle_udp_upgrade_tick env now =
     swith (\<lambda>s. (cs_udp_upgrade s, cc_require_udp (cs_config s))) (\<lambda>(upgrade, require_udp).
       case upgrade of
         UpgradeDisabled \<Rightarrow> sreturn ClientContinue
       | UpgradeIdle \<Rightarrow> sreturn ClientContinue
       | AwaitingSwitchOk _ deadline \<Rightarrow>
           if now < deadline then sreturn ClientContinue
           else
             sseq (if require_udp then sreturn () else request_tcp_fallback env ReasonUdpError)
               (handle_udp_upgrade_timeout env now)
       | TcpOnlyBlockedUdp retry_at \<Rightarrow>
           if now < retry_at then sreturn ClientContinue
           else sseq (start_udp_upgrade_attempt env now) (sreturn ClientContinue)
       | Upgrading g \<Rightarrow>
           if now \<ge> ug_deadline g then handle_udp_upgrade_timeout env now
           else if ug_probe_acked g \<or> now < ug_next_probe_at g then sreturn ClientContinue
           else if ug_attempts g \<ge> MAX_UPGRADE_PROBES then handle_udp_upgrade_timeout env now
           else sseq (send_upgrade_probe env now) (sreturn ClientContinue))"

definition handle_upgrade_probe_ack :: "('io, 'k) client_env \<Rightarrow> bytes \<Rightarrow> ('io, 'k, client_control) client_comp" where
  "handle_upgrade_probe_ack env payload =
     sbind (slift (map_err CePayload (upgrade_probe_ack_decode payload))) (\<lambda>ack.
     swith cs_udp_upgrade (\<lambda>upgrade.
       case upgrade of
         Upgrading g \<Rightarrow>
           if ack_upgrade_id ack \<noteq> ug_upgrade_id g \<or> ack_nonce ack \<noteq> ug_probe_nonce g
           then sreturn ClientContinue
           else
             sseq (smodify (\<lambda>s. s\<lparr>cs_udp_upgrade := Upgrading (g\<lparr>ug_probe_acked := True\<rparr>)\<rparr>))
             (if ug_ready_sent g then sreturn ClientContinue
              else
                sseq (write_tcp_message env (UdpReady (udp_ready_encode \<lparr>ready_upgrade_id = ack_upgrade_id ack\<rparr> [])))
                (sseq (smodify (\<lambda>s. s\<lparr>cs_udp_upgrade := Upgrading (g\<lparr>ug_probe_acked := True, ug_ready_sent := True\<rparr>)\<rparr>))
                (sseq (smodify (emit (UdpPathValidated (ack_upgrade_id ack)))) (sreturn ClientContinue))))
       | _ \<Rightarrow> sreturn ClientContinue))"

definition handle_switch_to_udp ::
    "('io, 'k) client_env \<Rightarrow> nat \<Rightarrow> bytes \<Rightarrow> ('io, 'k, client_control) client_comp" where
  "handle_switch_to_udp env now payload =
     sbind (slift (map_err CePayload (switch_to_udp_decode payload))) (\<lambda>switch.
     swith (\<lambda>s. (cs_udp_upgrade s, cc_register_timeout (cs_config s))) (\<lambda>(upgrade, register_timeout).
       case upgrade of
         Upgrading g \<Rightarrow>
           if switch_upgrade_id switch \<noteq> ug_upgrade_id g \<or> \<not> ug_probe_acked g \<or> \<not> ug_ready_sent g
           then sreturn ClientContinue
           else
             sseq (write_tcp_message env
                     (SwitchAck (switch_ack_encode \<lparr>sack_upgrade_id = switch_upgrade_id switch\<rparr> [])))
             (sseq (smodify (\<lambda>s. s\<lparr>cs_udp_upgrade :=
                      AwaitingSwitchOk (switch_upgrade_id switch) (now + register_timeout)\<rparr>))
               (sreturn ClientContinue))
       | _ \<Rightarrow> sreturn ClientContinue))"

definition handle_switch_ok :: "bytes \<Rightarrow> ('io, 'k, client_control) client_comp" where
  "handle_switch_ok payload =
     sbind (slift (map_err CePayload (switch_ok_decode payload))) (\<lambda>ok.
     swith cs_udp_upgrade (\<lambda>upgrade.
       case upgrade of
         AwaitingSwitchOk upgrade_id _ \<Rightarrow>
           if sok_upgrade_id ok \<noteq> upgrade_id then sreturn ClientContinue
           else
             sseq (smodify (\<lambda>s. if cs_active_transport s \<noteq> ClientUdpQsp then
                      note_transport_change ClientTcp ClientUdpQsp ReasonUpgradeCommitted
                        ((client_count CmTransportTcpToUdp s)\<lparr>cs_active_transport := ClientUdpQsp\<rparr>)
                    else s))
             (sseq (smodify (\<lambda>s. s\<lparr>cs_udp_upgrade := UpgradeIdle,
                      cs_udp_upgrade_backoff := backoff_reset (cs_udp_upgrade_backoff s),
                      cs_pending_tcp_fallback := None\<rparr>))
             (sseq (smodify (emit (UdpSwitchCommitted (sok_upgrade_id ok)))) (sreturn ClientContinue)))
       | _ \<Rightarrow> sreturn ClientContinue))"

section \<open>Messages\<close>

definition client_context :: "message_transport \<Rightarrow> message_context" where
  "client_context transport =
     \<lparr>ctx_sender = FromServer, ctx_phase = Established, ctx_transport = transport\<rparr>"

definition validate_server_message :: "message_transport \<Rightarrow> message \<Rightarrow> (unit, client_error) result" where
  "validate_server_message transport m =
     map_err client_error_from_validation (validate_message m (client_context transport))"

definition remote_close :: "bytes \<Rightarrow> ('io, 'k, client_control) client_comp" where
  "remote_close payload =
     sbind (slift (map_err CePayload (close_decode payload))) (\<lambda>code.
       sseq (smodify (client_count CmDisconnectClose)) (sreturn (ClientClose (ExitRemoteClose code))))"

definition client_dispatch_tcp_message ::
    "('io, 'k) client_env \<Rightarrow> nat \<Rightarrow> message \<Rightarrow> ('io, 'k, client_control) client_comp" where
  "client_dispatch_tcp_message env now m =
     (case m of
        Data packet \<Rightarrow> send_to_tun_or_shutdown env packet
      | RegisterOk payload \<Rightarrow> handle_register_ok env now payload
      | RegisterFail payload \<Rightarrow> handle_register_fail env now payload
      | Ping payload \<Rightarrow>
          sbind (slift (map_err CePayload (ping_decode payload))) (\<lambda>ping.
            sseq (write_tcp_message env (Pong (pong_encode \<lparr>pong_nonce = ping_nonce ping\<rparr> [])))
              (sreturn ClientContinue))
      | Pong payload \<Rightarrow>
          sbind (slift (map_err CePayload (pong_decode payload))) (\<lambda>_. sreturn ClientContinue)
      | Close payload \<Rightarrow> remote_close payload
      | SwitchToUdp payload \<Rightarrow> handle_switch_to_udp env now payload
      | SwitchOk payload \<Rightarrow> handle_switch_ok payload
      | FallbackToTcp payload \<Rightarrow> client_handle_fallback_to_tcp env now payload
      | FallbackOk payload \<Rightarrow> client_handle_fallback_ok payload
      | _ \<Rightarrow> sfail CePanic)"

definition client_handle_tcp_message ::
    "('io, 'k) client_env \<Rightarrow> nat \<Rightarrow> message \<Rightarrow> ('io, 'k, client_control) client_comp" where
  "client_handle_tcp_message env now m =
     sseq (slift (validate_server_message Tcp m)) (client_dispatch_tcp_message env now m)"

definition client_dispatch_udp_message ::
    "('io, 'k) client_env \<Rightarrow> message \<Rightarrow> ('io, 'k, client_control) client_comp" where
  "client_dispatch_udp_message env m =
     (case m of
        Data packet \<Rightarrow> send_to_tun_or_shutdown env packet
      | Ping payload \<Rightarrow>
          sbind (slift (map_err CePayload (ping_decode payload))) (\<lambda>ping.
            sseq (write_udp_message_and_flush env (Pong (u64_to_be_bytes (ping_nonce ping))))
              (sreturn ClientContinue))
      | Pong payload \<Rightarrow>
          sbind (slift (map_err CePayload (pong_decode payload))) (\<lambda>_. sreturn ClientContinue)
      | Close payload \<Rightarrow> remote_close payload
      | UpgradeProbeAck payload \<Rightarrow> handle_upgrade_probe_ack env payload
      | _ \<Rightarrow> sfail CePanic)"

definition client_handle_udp_message ::
    "('io, 'k) client_env \<Rightarrow> message \<Rightarrow> ('io, 'k, client_control) client_comp" where
  "client_handle_udp_message env m =
     sseq (slift (validate_server_message UdpQsp m)) (client_dispatch_udp_message env m)"

text \<open>\<open>UdpQspTransport::read_next_message\<close> on a datagram or socket error: the session afterwards,
  the counters, and the message.\<close>

fun recv_error_metric :: "io_kind qsp_session_error \<Rightarrow> client_metric list" where
  "recv_error_metric QsReplay = [CmDecryptFailReplay]"
| "recv_error_metric QsTooOld = [CmDecryptFailTooOld]"
| "recv_error_metric (QsCrypto _) = [CmDecryptFailCrypto]"
| "recv_error_metric (QsIo _) = []"
| "recv_error_metric QsPacketNumberOverflow = [CmDecryptFailOther]"

definition read_next_message ::
    "('io, 'k) client_env \<Rightarrow> message_limits \<Rightarrow> (bytes, io_kind) result \<Rightarrow> 'io quic_qsp_session \<Rightarrow>
     'io quic_qsp_session \<times> client_metric list \<times> (message, client_udp_error) result" where
  "read_next_message env limits datagram q =
     (case datagram of
        Inl source \<Rightarrow> (q, recv_error_metric (QsIo source), Err (CuQsp (QsIo source)))
      | Inr packet \<Rightarrow>
          (case open_packet (ce_crypto env) q packet of
             (q', Inl err) \<Rightarrow> (q', recv_error_metric err, Err (CuQsp err))
           | (q', Inr opened) \<Rightarrow>
               (q', if qs_rx_key_phase q' \<noteq> qs_rx_key_phase q then [CmRxKeyPhaseTransition] else [],
                case decode_padded_message (op_payload opened) limits of
                  Inl err \<Rightarrow> Err (CuMessage err)
                | Inr None \<Rightarrow> Err CuIncompleteMessage
                | Inr (Some (m, _)) \<Rightarrow> Ok m)))"

definition read_on_transport ::
    "('io, 'k) client_env \<Rightarrow> (bytes, io_kind) result \<Rightarrow> 'io quic_qsp_session \<Rightarrow>
     (('io, 'k) client_session, message, client_udp_error) comp" where
  "read_on_transport env datagram q =
     swith cs_limits (\<lambda>limits.
       let (q', metrics, r) = read_next_message env limits datagram q in
       sseq (smodify (set_receive_transport q'))
       (sseq (smodify (\<lambda>s. s\<lparr>cs_metrics := cs_metrics s @ metrics\<rparr>)) (slift r)))"

section \<open>Network changes\<close>

definition is_matching_pong :: "message \<Rightarrow> u64 \<Rightarrow> (bool, client_error) result" where
  "is_matching_pong m nonce =
     (case m of
        Pong payload \<Rightarrow> map_result (\<lambda>pong. pong_nonce pong = nonce) (map_err CePayload (pong_decode payload))
      | _ \<Rightarrow> Ok False)"

text \<open>The receive loop of \<open>refresh_udp_path\<close> over what arrives before its deadline.\<close>

fun refresh_loop ::
    "('io, 'k) client_env \<Rightarrow> nat \<Rightarrow> u64 \<Rightarrow> refresh_input list \<Rightarrow> ('io, 'k, client_control) client_comp" where
  "refresh_loop env now nonce [] =
     swith (\<lambda>s. udp_as_active (cs_udp_state s)) (\<lambda>udp.
       case udp of
         None \<Rightarrow> sfail (CeProtocolViolation UdpTransportMissing)
       | Some _ \<Rightarrow> sfail (CeIo KTimedOut))"
| "refresh_loop env now nonce (input # rest) =
     swith (\<lambda>s. udp_as_active (cs_udp_state s)) (\<lambda>udp.
       case udp of
         None \<Rightarrow> sfail (CeProtocolViolation UdpTransportMissing)
       | Some q \<Rightarrow>
           (case input of
              RefreshCancelled \<Rightarrow> sreturn (ClientClose ExitShutdown)
            | RefreshRecv datagram \<Rightarrow>
                smatch (read_on_transport env datagram q)
                  (\<lambda>err. if is_udp_qsp_recoverable (client_error_from_udp err)
                         then refresh_loop env now nonce rest
                         else sfail (client_error_from_udp err))
                  (\<lambda>m. case is_matching_pong m nonce of
                         Inl err \<Rightarrow> if is_udp_qsp_recoverable err then refresh_loop env now nonce rest
                                   else sfail err
                       | Inr matches \<Rightarrow>
                           if matches then
                             sseq (smodify (client_note_udp_activity now)) (sreturn ClientContinue)
                           else
                             smatch (client_handle_udp_message env m)
                               (\<lambda>err. if is_udp_qsp_recoverable err then refresh_loop env now nonce rest
                                      else sfail err)
                               (\<lambda>control.
                                 sseq (smodify (client_note_udp_activity now))
                                   (if control \<noteq> ClientContinue then sreturn control
                                    else refresh_loop env now nonce rest)))))"

definition refresh_udp_path :: "('io, 'k) client_env \<Rightarrow> nat \<Rightarrow> ('io, 'k, client_control) client_comp" where
  "refresh_udp_path env now =
     client_external (ce_random env) (\<lambda>nonce.
     sseq (write_udp_message_and_flush env (Ping (ping_encode \<lparr>ping_nonce = nonce\<rparr> [])))
       (client_external (ce_refresh env) (refresh_loop env now nonce)))"

text \<open>\<open>replace_io\<close> flushes what it can on the old socket.\<close>

definition recreate_udp_io :: "('io, 'k) client_env \<Rightarrow> ('io, 'k, unit) client_comp" where
  "recreate_udp_io env =
     swith (\<lambda>s. udp_as_active (cs_udp_state s)) (\<lambda>udp.
       case udp of
         None \<Rightarrow> sfail (CeProtocolViolation UdpTransportMissing)
       | Some q \<Rightarrow>
           client_external (\<lambda>n. ce_bind_socket env n (ce_io_peer env (qs_io q))) (\<lambda>bound.
           sbind (slift (map_err CeIo bound)) (\<lambda>socket.
           client_external (\<lambda>n. ce_io_create env n socket (ce_io_peer env (qs_io q))) (\<lambda>created.
           sbind (slift (map_err CeIo created)) (\<lambda>new_io.
             smodify (set_receive_transport (fst (session_replace_io
               (if ce_io_has_pending env (qs_io q)
                then q\<lparr>qs_io := fst (ce_io_flush env (qs_io q))\<rparr> else q) new_io)))))))) "

definition refresh_udp_path_with_replacement_fallback ::
    "('io, 'k) client_env \<Rightarrow> nat \<Rightarrow> ('io, 'k, client_control) client_comp" where
  "refresh_udp_path_with_replacement_fallback env now =
     smatch (refresh_udp_path env now)
       (\<lambda>err. if is_udp_path_transport_error err
              then sseq (recreate_udp_io env) (refresh_udp_path env now)
              else sfail err)
       sreturn"

definition handle_network_changed :: "('io, 'k) client_env \<Rightarrow> nat \<Rightarrow> ('io, 'k, client_control) client_comp" where
  "handle_network_changed env now =
     swith (\<lambda>s. cs_active_transport s \<noteq> ClientUdpQsp \<or> udp_as_active (cs_udp_state s) = None) (\<lambda>no_path.
       if no_path then
         sseq (smodify (emit NetworkChangedEvent)) (sreturn (ClientClose ExitNetworkChanged))
       else
         sseq (smodify (emit UdpPathRefreshStarted))
         (smatch (refresh_udp_path_with_replacement_fallback env now)
           (\<lambda>err.
             sseq (smodify (emit UdpPathRefreshFailed))
             (if \<not> is_udp_path_transport_error err then sfail err
              else
                swith cs_tcp_alive (\<lambda>alive.
                  if \<not> alive then
                    sseq (smodify (emit NetworkChangedEvent)) (sreturn (ClientClose ExitNetworkChanged))
                  else
                    sseq (request_tcp_fallback env ReasonUdpError)
                    (sseq (smodify (schedule_discovery_now now)) (sreturn ClientContinue)))))
           (\<lambda>control.
             if control = ClientContinue
             then sseq (smodify (emit UdpPathRefreshSucceeded)) (sreturn ClientContinue)
             else sreturn control)))"

section \<open>What no handler changes\<close>

text \<open>The configuration, the limits, the bytes read from TCP, and whether TCP is alive.\<close>

definition client_frame :: "('io, 'k) client_session \<Rightarrow> ('io, 'k) client_session \<Rightarrow> bool" where
  "client_frame s0 s \<longleftrightarrow>
     cs_config s = cs_config s0 \<and> cs_limits s = cs_limits s0 \<and> cs_tcp_alive s = cs_tcp_alive s0 \<and>
     tc_read_buf (cs_tcp s) = tc_read_buf (cs_tcp s0)"

definition any_error :: "'e \<Rightarrow> bool" where
  "any_error e \<longleftrightarrow> True"

lemma any_errorI [keep]: "any_error e"
  by (simp add: any_error_def)

lemma client_frame_refl [simp]: "client_frame s s"
  by (simp add: client_frame_def)

lemma client_frame_updates [simp]:
  "client_frame s0 (s\<lparr>cs_calls := n\<rparr>) = client_frame s0 s"
  "client_frame s0 (s\<lparr>cs_metrics := ms\<rparr>) = client_frame s0 s"
  "client_frame s0 (s\<lparr>cs_events := es\<rparr>) = client_frame s0 s"
  "client_frame s0 (s\<lparr>cs_udp_state := u\<rparr>) = client_frame s0 s"
  "client_frame s0 (s\<lparr>cs_udp_upgrade := g\<rparr>) = client_frame s0 s"
  "client_frame s0 (s\<lparr>cs_udp_upgrade_backoff := b\<rparr>) = client_frame s0 s"
  "client_frame s0 (s\<lparr>cs_retained_udp_transport := t\<rparr>) = client_frame s0 s"
  "client_frame s0 (s\<lparr>cs_active_transport := a\<rparr>) = client_frame s0 s"
  "client_frame s0 (s\<lparr>cs_pending_tcp_fallback := f\<rparr>) = client_frame s0 s"
  "client_frame s0 (s\<lparr>cs_last_peer_fallback_id := f\<rparr>) = client_frame s0 s"
  "client_frame s0 (s\<lparr>cs_last_authenticated_udp_activity := l\<rparr>) = client_frame s0 s"
  "client_frame s0 (s\<lparr>cs_udp_cipher_policy := p\<rparr>) = client_frame s0 s"
  "client_frame s0 (s\<lparr>cs_tcp_out := out\<rparr>) = client_frame s0 s"
  "client_frame s0 (s\<lparr>cs_tun_out := tun\<rparr>) = client_frame s0 s"
  "client_frame s0 (s\<lparr>cs_discovery_task := d\<rparr>) = client_frame s0 s"
  "client_frame s0 (s\<lparr>cs_last_activity := t'\<rparr>) = client_frame s0 s"
  by (simp_all add: client_frame_def)

lemma client_frame_helpers [simp]:
  "client_frame s0 (client_count m s) = client_frame s0 s"
  "client_frame s0 (emit e s) = client_frame s0 s"
  "client_frame s0 (note_transport_change a b r s) = client_frame s0 s"
  "client_frame s0 (set_receive_transport q s) = client_frame s0 s"
  "client_frame s0 (discard_pending_udp_send_for_fallback env s) = client_frame s0 s"
  "client_frame s0 (disable_udp s) = client_frame s0 s"
  "client_frame s0 (retain_receive_path p s) = client_frame s0 s"
  "client_frame s0 (schedule_discovery_now now s) = client_frame s0 s"
  "client_frame s0 (client_note_activity now s) = client_frame s0 s"
  "client_frame s0 (client_note_udp_activity now s) = client_frame s0 s"
  by (simp_all add: client_count_def emit_def note_transport_change_def set_receive_transport_def
      discard_pending_udp_send_for_fallback_def disable_udp_def retain_receive_path_def
      schedule_discovery_now_def client_note_activity_def client_note_udp_activity_def
      split: udp_state.split option.split)

lemma keeps_client_external:
  assumes "\<And>s n. I s \<Longrightarrow> I (s\<lparr>cs_calls := n\<rparr>)" "\<And>out. keeps I F (k out)"
  shows "keeps I F (client_external f k)"
  unfolding client_external_def by (intro keep keeps_modify assms)

lemma keeps_client_external_frame [keep]:
  "(\<And>out. keeps (client_frame s0) F (k out)) \<Longrightarrow> keeps (client_frame s0) F (client_external f k)"
  by (rule keeps_client_external) simp_all

lemma write_tcp_message_frame [keep]: "keeps (client_frame s0) any_error (write_tcp_message env m)"
proof -
  have "client_frame s0 (s\<lparr>cs_tcp := tcp\<rparr>)"
    if "client_frame s0 s" "tcp_write_message ku wa m (cs_tcp s) = (r, tcp)" for s tcp ku wa r
    using that tcp_write_message_read_buf by (fastforce simp: client_frame_def)
  then show ?thesis
    unfolding write_tcp_message_def
    by (intro keeps_client_external_frame)
      (auto simp: hoare_def any_error_def split: prod.splits sum.splits)
qed

lemma keeps_prod [keep]: "(\<And>a b. keeps I F (k a b)) \<Longrightarrow> keeps I F (case p of (a, b) \<Rightarrow> k a b)"
  by (cases p) simp

lemma keeps_udp_state [keep]:
  "keeps I F a \<Longrightarrow> (\<And>x y. keeps I F (b x y)) \<Longrightarrow> (\<And>x y z w. keeps I F (c x y z w)) \<Longrightarrow> (\<And>x. keeps I F (d x)) \<Longrightarrow>
   keeps I F (case u of UdpDisabled \<Rightarrow> a | NeedDiscovery x y \<Rightarrow> b x y | UdpPending x y z w \<Rightarrow> c x y z w
     | UdpActive x \<Rightarrow> d x)"
  by (cases u) simp_all

lemma keeps_upgrade_state [keep]:
  "keeps I F a \<Longrightarrow> keeps I F b \<Longrightarrow> (\<And>g. keeps I F (c g)) \<Longrightarrow> (\<And>x y. keeps I F (d x y)) \<Longrightarrow> (\<And>x. keeps I F (e x)) \<Longrightarrow>
   keeps I F (case u of UpgradeDisabled \<Rightarrow> a | UpgradeIdle \<Rightarrow> b | Upgrading g \<Rightarrow> c g | AwaitingSwitchOk x y \<Rightarrow> d x y
     | TcpOnlyBlockedUdp x \<Rightarrow> e x)"
  by (cases u) simp_all

lemma keeps_client_transport [keep]:
  "keeps I F a \<Longrightarrow> keeps I F b \<Longrightarrow> keeps I F (case t of ClientTcp \<Rightarrow> a | ClientUdpQsp \<Rightarrow> b)"
  by (cases t) simp_all

lemma write_on_transport_frame [keep]: "keeps (client_frame s0) any_error (write_on_transport env m q)"
  unfolding write_on_transport_def Let_def by (intro keep keeps_modify) simp_all

lemma flush_transport_frame [keep]: "keeps (client_frame s0) any_error (flush_transport env q)"
  unfolding flush_transport_def Let_def by (intro keep keeps_modify) simp_all

lemma write_active_message_frame [keep]: "keeps (client_frame s0) any_error (write_active_message env m)"
  unfolding write_active_message_def by (intro keep)

lemma write_udp_message_and_flush_frame [keep]:
  "keeps (client_frame s0) any_error (write_udp_message_and_flush env m)"
  unfolding write_udp_message_and_flush_def by (intro keep)

lemma flush_udp_transport_frame [keep]: "keeps (client_frame s0) any_error (flush_udp_transport env)"
  unfolding flush_udp_transport_def by (intro keep)

lemma draw_delay_frame [keep]:
  "(\<And>x. keeps (client_frame s0) any_error (k x)) \<Longrightarrow> keeps (client_frame s0) any_error (draw_delay env b k)"
  unfolding draw_delay_def by (intro keep) simp

lemma schedule_discovery_frame [keep]:
  "keeps (client_frame s0) any_error (schedule_discovery_retry_with_receive_path env now b)"
  "keeps (client_frame s0) any_error (schedule_discovery_retry env now)"
  "keeps (client_frame s0) any_error (schedule_discovery_retry_after_udp_failure env now)"
  unfolding schedule_discovery_retry_def schedule_discovery_retry_after_udp_failure_def
    schedule_discovery_retry_with_receive_path_def
  by (intro keep keeps_modify; simp)+

lemma schedule_registration_retry_frame [keep]:
  "keeps (client_frame s0) any_error (schedule_registration_retry env now)"
  unfolding schedule_registration_retry_def by (intro keep keeps_modify) simp

lemma request_tcp_fallback_frame [keep]: "keeps (client_frame s0) any_error (request_tcp_fallback env r)"
  unfolding request_tcp_fallback_def by (intro keep keeps_modify) simp_all

lemma client_handle_fallback_frame [keep]:
  "keeps (client_frame s0) any_error (client_handle_fallback_to_tcp env now p)"
  "keeps (client_frame s0) any_error (client_handle_fallback_ok p)"
  unfolding client_handle_fallback_to_tcp_def client_handle_fallback_ok_def Let_def
  by (intro keep keeps_modify; simp)+

lemma handle_udp_error_frame [keep]:
  "keeps (client_frame s0) any_error (handle_udp_error env now e)"
  unfolding handle_udp_error_def by (intro keep keeps_modify) simp

lemma handle_udp_event_error_frame [keep]:
  "keeps (client_frame s0) any_error (handle_udp_event_error env now e)"
  unfolding handle_udp_event_error_def by (intro keep keeps_modify) simp

lemma recover_udp_write_frame [keep]:
  "keeps (client_frame s0) any_error m \<Longrightarrow> keeps (client_frame s0) any_error (recover_udp_write env now a m e)"
  unfolding recover_udp_write_def by (intro keep)

lemmas client_match = keeps_match [where G = any_error]

lemma client_sends_frame [keep]:
  "keeps (client_frame s0) any_error (client_handle_ping_tick env now)"
  "keeps (client_frame s0) any_error (client_send_close env now c)"
  "keeps (client_frame s0) any_error (client_send_close_best_effort env now c)"
  "keeps (client_frame s0) any_error (client_handle_tun_packet env now p)"
  unfolding client_handle_ping_tick_def client_send_close_best_effort_def client_send_close_def
    client_handle_tun_packet_def Let_def
  by (intro keep keeps_modify client_match; simp)+

lemma send_to_tun_frame [keep]: "keeps (client_frame s0) any_error (send_to_tun_or_shutdown env p)"
proof -
  have "keeps (client_frame s0) any_error (case out of
      TunQueued \<Rightarrow> sseq (smodify (\<lambda>s. s\<lparr>cs_tun_out := cs_tun_out s @ [p]\<rparr>)) (sreturn ClientContinue)
    | TunQueueClosed \<Rightarrow> sreturn (ClientClose (ExitTunClosed TunWriter))
    | TunSendCancelled \<Rightarrow>
        sseq (smodify (client_count CmDisconnectShutdown)) (sreturn (ClientClose ExitShutdown)))" for out
    by (cases out; simp only: tun_send_outcome.case; intro keep keeps_modify) simp_all
  then show ?thesis unfolding send_to_tun_or_shutdown_def by (intro keep)
qed

lemma random_secret_frame [keep]:
  "(\<And>b. keeps (client_frame s0) any_error (k b)) \<Longrightarrow> keeps (client_frame s0) any_error (random_secret env k)"
  unfolding random_secret_def by (intro keep)

lemma prepare_registration_frame [keep]:
  "keeps (client_frame s0) any_error (prepare_udp_qsp_registration env ids cipher)"
  unfolding prepare_udp_qsp_registration_def Let_def by (intro keep)

lemma registration_frame [keep]:
  "keeps (client_frame s0) any_error (handle_registration_setup_failure env now)"
  "keeps (client_frame s0) any_error (attempt_udp_registration env now)"
  "keeps (client_frame s0) any_error (start_udp_upgrade_attempt env now)"
  "keeps (client_frame s0) any_error (handle_register_ok env now p)"
  "keeps (client_frame s0) any_error (handle_register_fail env now p)"
  "keeps (client_frame s0) any_error (handle_registration_timeout env now)"
  "keeps (client_frame s0) any_error (handle_discovery_result env now ids)"
  unfolding handle_registration_setup_failure_def attempt_udp_registration_def start_udp_upgrade_attempt_def
    handle_register_ok_def handle_register_fail_def handle_registration_timeout_def
    handle_discovery_result_def Let_def
  by (intro keep keeps_modify client_match; simp)+

lemma upgrade_frame [keep]:
  "keeps (client_frame s0) any_error (handle_udp_upgrade_timeout env now)"
  "keeps (client_frame s0) any_error (send_upgrade_probe env now)"
  "keeps (client_frame s0) any_error (handle_upgrade_probe_ack env p)"
  "keeps (client_frame s0) any_error (handle_switch_to_udp env now p)"
  "keeps (client_frame s0) any_error (handle_switch_ok p)"
  unfolding handle_udp_upgrade_timeout_def send_upgrade_probe_def handle_upgrade_probe_ack_def
    handle_switch_to_udp_def handle_switch_ok_def
  by (intro keep keeps_modify client_match; simp)+

lemma handle_udp_upgrade_tick_frame [keep]:
  "keeps (client_frame s0) any_error (handle_udp_upgrade_tick env now)"
  unfolding handle_udp_upgrade_tick_def by (intro keep)

lemma remote_close_frame [keep]: "keeps (client_frame s0) any_error (remote_close p)"
  unfolding remote_close_def by (intro keep keeps_modify) simp

lemma client_dispatch_frame [keep]:
  "keeps (client_frame s0) any_error (client_dispatch_tcp_message env now m)"
  "keeps (client_frame s0) any_error (client_dispatch_udp_message env m)"
  unfolding client_dispatch_tcp_message_def client_dispatch_udp_message_def
  by (cases m; simp only: message.case; intro keep)+

lemma client_handle_message_frame [keep]:
  "keeps (client_frame s0) any_error (client_handle_tcp_message env now m)"
  "keeps (client_frame s0) any_error (client_handle_udp_message env m)"
  unfolding client_handle_tcp_message_def client_handle_udp_message_def by (intro keep)+

section \<open>The TCP read loop\<close>

function client_handle_tcp_read :: "('io, 'k) client_env \<Rightarrow> nat \<Rightarrow> ('io, 'k, client_control) client_comp" where
  "client_handle_tcp_read env now s =
     (case try_pop_message (cs_limits s) (cs_tcp s) of
        (Inl e, tcp) \<Rightarrow> (s\<lparr>cs_tcp := tcp\<rparr>, Err (CeMessage e))
      | (Inr None, tcp) \<Rightarrow> (s\<lparr>cs_tcp := tcp\<rparr>, Ok ClientContinue)
      | (Inr (Some (ty, buf)), tcp) \<Rightarrow>
          (case client_handle_tcp_message env now (owned_message ty buf) (s\<lparr>cs_tcp := tcp\<rparr>) of
             (s', Inl e) \<Rightarrow> (s', Err e)
           | (s', Inr control) \<Rightarrow>
               let s'' = client_note_activity now s' in
               if control \<noteq> ClientContinue then (s'', Ok control)
               else client_handle_tcp_read env now s''))"
  by pat_completeness auto

termination client_handle_tcp_read
proof (relation "measure (\<lambda>(env, now, s). length (tc_read_buf (cs_tcp s)))", goal_cases)
  case 1
  then show ?case by simp
next
  case (2 env now s popped tcp x2 y ty buf s' r control s'')
  have "client_handle_tcp_message env now (owned_message ty buf) (s\<lparr>cs_tcp := tcp\<rparr>) = (s', r)"
    using 2 by simp
  then have "client_frame (s\<lparr>cs_tcp := tcp\<rparr>) s'"
    by (rule keeps_state [OF client_handle_message_frame(1) client_frame_refl])
  moreover have "length (tc_read_buf tcp) < length (tc_read_buf (cs_tcp s))"
    using 2 by (intro try_pop_message_decreases [where limits = "cs_limits s" and r = "(ty, buf)"]) simp
  ultimately show ?case using 2 by (simp add: client_frame_def client_note_activity_def)
qed

end
