(* ===== verification/Client_Loop.thy ===== *)
theory Client_Loop
  imports Client_Session
begin

text \<open>
  The client's event loop (\<open>slt-client/src/runtime/session/driver.rs\<close>): choosing the next event,
  dispatching it, scheduling of TUN packets against UDP flushes, and the end of a session.

  One turn receives the time and what the \<open>select!\<close> would deliver; an input whose branch is off is
  left for a later turn, and a due timer goes before packets as in the code.  \<open>run\<close> may be cut short
  by the shutdown token or a TUN fault between turns.
\<close>

section \<open>Events\<close>

datatype client_command = CommandStop | CommandNetworkChanged

datatype 'k client_session_event =
    CsShutdown | CsTcpRead nat | CsTunPacket "bytes option"
  | CsUdpResult "(message, client_udp_error) result" | CsUdpFlushReady | CsPingTick | CsIdleTimeout
  | CsUdpLivenessTimeout | CsUdpReconnectTick | CsRegisterTimeout
  | CsDiscoveryResult "'k quic_ids option" | CsUdpUpgradeTick | CsControl client_command

datatype client_timer =
    CtPing | CtIdle | CtUdpLiveness | CtUdpReconnect | CtRegister | CtUdpUpgrade

fun timer_into_event :: "client_timer \<Rightarrow> 'k client_session_event" where
  "timer_into_event CtPing = CsPingTick"
| "timer_into_event CtIdle = CsIdleTimeout"
| "timer_into_event CtUdpLiveness = CsUdpLivenessTimeout"
| "timer_into_event CtUdpReconnect = CsUdpReconnectTick"
| "timer_into_event CtRegister = CsRegisterTimeout"
| "timer_into_event CtUdpUpgrade = CsUdpUpgradeTick"

datatype tun_scheduling = UdpFlush | BatchablePacket | NonBatchingTun | Unchanged

fun defer_tun :: "tun_scheduling \<Rightarrow> bool \<Rightarrow> bool \<Rightarrow> bool \<Rightarrow> bool" where
  "defer_tun UdpFlush was_deferred flush_was_pending flush_is_pending = False"
| "defer_tun BatchablePacket was_deferred flush_was_pending flush_is_pending = False"
| "defer_tun NonBatchingTun was_deferred flush_was_pending flush_is_pending =
     (flush_was_pending \<and> flush_is_pending)"
| "defer_tun Unchanged was_deferred flush_was_pending flush_is_pending =
     (was_deferred \<and> flush_is_pending)"

definition update_earliest_timer ::
    "nat option \<Rightarrow> client_timer \<Rightarrow> nat \<times> client_timer \<Rightarrow> nat \<times> client_timer" where
  "update_earliest_timer candidate_at candidate earliest =
     (case candidate_at of
        None \<Rightarrow> earliest
      | Some at \<Rightarrow> if at < fst earliest then (at, candidate) else earliest)"

definition client_has_pending_udp_flush :: "('io, 'k) client_env \<Rightarrow> ('io, 'k) client_session \<Rightarrow> bool" where
  "client_has_pending_udp_flush env s \<longleftrightarrow>
     cs_active_transport s = ClientUdpQsp \<and>
     (case udp_as_active (cs_udp_state s) of None \<Rightarrow> False | Some q \<Rightarrow> ce_io_has_pending env (qs_io q))"

definition tun_scheduling_of :: "'k client_session_event \<Rightarrow> ('io, 'k) client_session \<Rightarrow> tun_scheduling" where
  "tun_scheduling_of event s =
     (case event of
        CsUdpFlushReady \<Rightarrow> UdpFlush
      | CsTunPacket packet \<Rightarrow>
          (case packet of
             None \<Rightarrow> NonBatchingTun
           | Some p \<Rightarrow>
               if cs_active_transport s = ClientUdpQsp \<and> p \<noteq> [] \<and> length p \<le> max_data_len (cs_limits s)
               then BatchablePacket else NonBatchingTun)
      | _ \<Rightarrow> Unchanged)"

definition client_schedule_next_ping :: "('io, 'k) client_env \<Rightarrow> nat \<Rightarrow> ('io, 'k, nat) client_comp" where
  "client_schedule_next_ping env now =
     swith cs_config (\<lambda>c.
       let min_ms = min (cc_ping_min c div 1000000) (2 ^ 64 - 1);
           max_ms = min (cc_ping_max c div 1000000) (2 ^ 64 - 1) in
       if max_ms > min_ms then
         client_external (ce_random env) (\<lambda>r.
           sreturn (now + (min_ms + unat r mod (max_ms - min_ms + 1)) * 1000000))
       else sreturn (now + min_ms * 1000000))"

definition client_next_timer :: "nat \<Rightarrow> ('io, 'k) client_session \<Rightarrow> nat \<times> client_timer" where
  "client_next_timer next_ping_at s =
     (let t = (cs_last_activity s + cc_idle_timeout (cs_config s), CtIdle);
          t = update_earliest_timer (Some next_ping_at) CtPing t;
          t = (if cs_active_transport s = ClientUdpQsp \<and> cs_tcp_alive s
               then update_earliest_timer
                      (map_option (\<lambda>last. last + cc_udp_liveness_timeout (cs_config s))
                        (cs_last_authenticated_udp_activity s)) CtUdpLiveness t
               else t);
          t = (if udp_is_waiting (cs_udp_state s) \<and> \<not> cs_discovery_task s
               then update_earliest_timer (udp_reconnect_at (cs_udp_state s)) CtUdpReconnect t else t);
          t = update_earliest_timer (udp_register_deadline (cs_udp_state s)) CtRegister t
      in update_earliest_timer (upgrade_timer_at (cs_udp_upgrade s)) CtUdpUpgrade t)"

section \<open>Polling\<close>

datatype 'k client_input =
    InShutdown | InCommand client_command | InTimer | InDiscovery "'k quic_ids option"
  | InTcpRead "(bytes, io_kind) result" | InTun "bytes option" | InFlush
  | InUdp "(bytes, io_kind) result"

text \<open>The event an input gives, if its branch is on.\<close>

definition poll_packet_work ::
    "('io, 'k) client_env \<Rightarrow> bool \<Rightarrow> 'k client_input \<Rightarrow> ('io, 'k, 'k client_session_event option) client_comp" where
  "poll_packet_work env can_receive_tun input =
     swith (\<lambda>s. (cs_tcp_alive s, client_has_pending_udp_flush env s, udp_receive_transport s))
       (\<lambda>(tcp_alive, udp_pending_flush, udp).
         case input of
           InTcpRead res \<Rightarrow>
             if \<not> tcp_alive then sreturn None
             else
               sbind (slift (map_err CeIo res)) (\<lambda>chunk.
                 sseq (smodify (\<lambda>s. s\<lparr>cs_tcp := tcp_read_more chunk (cs_tcp s)\<rparr>))
                   (sreturn (Some (CsTcpRead (length chunk)))))
         | InTun packet \<Rightarrow> sreturn (if can_receive_tun then Some (CsTunPacket packet) else None)
         | InFlush \<Rightarrow> sreturn (if udp_pending_flush then Some CsUdpFlushReady else None)
         | InUdp datagram \<Rightarrow>
             (case udp of
                None \<Rightarrow> sreturn None
              | Some q \<Rightarrow>
                  smatch (read_on_transport env datagram q)
                    (\<lambda>err. sreturn (Some (CsUdpResult (Err err))))
                    (\<lambda>m. sreturn (Some (CsUdpResult (Ok m)))))
         | _ \<Rightarrow> sreturn None)"

definition poll_event ::
    "('io, 'k) client_env \<Rightarrow> nat \<Rightarrow> nat \<Rightarrow> bool \<Rightarrow> 'k client_input \<Rightarrow>
     ('io, 'k, 'k client_session_event option) client_comp" where
  "poll_event env now next_ping_at can_receive_tun input =
     swith (\<lambda>s. (client_next_timer next_ping_at s, cs_discovery_task s)) (\<lambda>((timer_at, timer), has_discovery_task).
       case input of
         InShutdown \<Rightarrow> sreturn (Some CsShutdown)
       | InCommand command \<Rightarrow> sreturn (Some (CsControl command))
       | _ \<Rightarrow>
           if timer_at \<le> now then sreturn (Some (timer_into_event timer))
           else
             (case input of
                InTimer \<Rightarrow> sreturn (Some (timer_into_event timer))
              | InDiscovery result \<Rightarrow>
                  sreturn (if has_discovery_task then Some (CsDiscoveryResult result) else None)
              | _ \<Rightarrow> poll_packet_work env can_receive_tun input))"

section \<open>Dispatch\<close>

text \<open>The result carries the time of the next ping when it was rescheduled.\<close>

definition client_handle_udp_result ::
    "('io, 'k) client_env \<Rightarrow> nat \<Rightarrow> (message, client_udp_error) result \<Rightarrow> ('io, 'k, client_control) client_comp" where
  "client_handle_udp_result env now udp_res =
     (case udp_res of
        Inr m \<Rightarrow>
          smatch (client_handle_udp_message env m)
            (\<lambda>err. if is_udp_path_transport_error err then handle_udp_event_error env now err else sfail err)
            (\<lambda>control. sseq (smodify (client_note_udp_activity now)) (sreturn control))
      | Inl err \<Rightarrow>
          let err = client_error_from_udp err in
          if is_udp_path_transport_error err then handle_udp_event_error env now err else sfail err)"

definition handle_udp_reconnect_tick :: "('io, 'k) client_env \<Rightarrow> nat \<Rightarrow> ('io, 'k, client_control) client_comp" where
  "handle_udp_reconnect_tick env now =
     swith cs_udp_state (\<lambda>udp.
       case udp of
         NeedDiscovery _ _ \<Rightarrow>
           sseq (smodify (emit UdpDiscoveryStarted))
           (sseq (smodify (\<lambda>s. s\<lparr>cs_discovery_task := True\<rparr>)) (sreturn ClientContinue))
       | UdpPending _ _ _ _ \<Rightarrow> attempt_udp_registration env now
       | _ \<Rightarrow> sreturn ClientContinue)"

definition handle_client_liveness :: "('io, 'k) client_env \<Rightarrow> nat \<Rightarrow> ('io, 'k, client_control) client_comp" where
  "handle_client_liveness env now =
     swith (\<lambda>s. cs_active_transport s \<noteq> ClientUdpQsp \<or> \<not> cs_tcp_alive s) (\<lambda>skip.
       if skip then sreturn ClientContinue
       else
         sseq (request_tcp_fallback env ReasonUdpLivenessTimeout)
         (sseq (schedule_discovery_retry env now) (sreturn ClientContinue)))"

definition handle_tcp_read_event ::
    "('io, 'k) client_env \<Rightarrow> nat \<Rightarrow> nat \<Rightarrow> ('io, 'k, client_control) client_comp" where
  "handle_tcp_read_event env now n =
     (if n = 0 then
        swith cs_active_transport (\<lambda>active.
          if active = ClientUdpQsp then
            sseq (smodify (\<lambda>s. s\<lparr>cs_tcp_alive := False\<rparr>)) (sreturn ClientContinue)
          else sseq (smodify (client_count CmDisconnectClose)) (sreturn (ClientClose ExitTcpClosed)))
      else client_handle_tcp_read env now)"

definition client_handle_event ::
    "('io, 'k) client_env \<Rightarrow> nat \<Rightarrow> 'k client_session_event \<Rightarrow> ('io, 'k, client_control \<times> nat option) client_comp" where
  "client_handle_event env now event =
     (case event of
        CsPingTick \<Rightarrow>
          sseq (client_handle_ping_tick env now)
            (sbind (client_schedule_next_ping env now) (\<lambda>at. sreturn (ClientContinue, Some at)))
      | _ \<Rightarrow>
          sbind (case event of
              CsShutdown \<Rightarrow>
                sseq (smodify (client_count CmDisconnectShutdown)) (sreturn (ClientClose ExitShutdown))
            | CsControl CommandStop \<Rightarrow>
                sseq (smodify (\<lambda>s. s\<lparr>cs_cancelled := True\<rparr>))
                (sseq (smodify (client_count CmDisconnectShutdown)) (sreturn (ClientClose ExitShutdown)))
            | CsControl CommandNetworkChanged \<Rightarrow> handle_network_changed env now
            | CsTcpRead n \<Rightarrow> handle_tcp_read_event env now n
            | CsTunPacket None \<Rightarrow> sreturn (ClientClose (ExitTunClosed TunReader))
            | CsTunPacket (Some packet) \<Rightarrow> client_handle_tun_packet env now packet
            | CsUdpResult udp_res \<Rightarrow> client_handle_udp_result env now udp_res
            | CsIdleTimeout \<Rightarrow>
                sseq (smodify (client_count CmDisconnectIdleTimeout))
                (sseq (client_send_close_best_effort env now CloseIdleTimeout) (sreturn (ClientClose ExitIdleTimeout)))
            | CsUdpLivenessTimeout \<Rightarrow> handle_client_liveness env now
            | CsUdpReconnectTick \<Rightarrow> handle_udp_reconnect_tick env now
            | CsRegisterTimeout \<Rightarrow> handle_registration_timeout env now
            | CsDiscoveryResult maybe_ids \<Rightarrow>
                sseq (smodify (\<lambda>s. s\<lparr>cs_discovery_task := False\<rparr>)) (handle_discovery_result env now maybe_ids)
            | CsUdpUpgradeTick \<Rightarrow> handle_udp_upgrade_tick env now
            | _ \<Rightarrow>
                smatch (flush_udp_transport env)
                  (\<lambda>err. if is_udp_path_transport_error err then handle_udp_event_error env now err
                         else sreturn ClientContinue)
                  (\<lambda>_. sreturn ClientContinue))
            (\<lambda>control. sreturn (control, None)))"

section \<open>One turn\<close>

record ('io, 'k) client_loop =
  cl_session :: "('io, 'k) client_session"
  cl_next_ping_at :: nat
  cl_defer_tun_until_flush :: bool

definition on_client ::
    "(('io, 'k) client_session, 'a, 'e) comp \<Rightarrow> (('io, 'k) client_loop, 'a, 'e) comp" where
  "on_client m st = (case m (cl_session st) of (s, r) \<Rightarrow> (st\<lparr>cl_session := s\<rparr>, r))"

definition client_loop_start ::
    "('io, 'k) client_env \<Rightarrow> nat \<Rightarrow> ('io, 'k) client_session \<Rightarrow> ('io, 'k) client_loop" where
  "client_loop_start env now s =
     (case client_schedule_next_ping env now s of
        (s', Inl _) \<Rightarrow> \<lparr>cl_session = s', cl_next_ping_at = now, cl_defer_tun_until_flush = False\<rparr>
      | (s', Inr at) \<Rightarrow> \<lparr>cl_session = s', cl_next_ping_at = at, cl_defer_tun_until_flush = False\<rparr>)"

definition client_buffered_input :: "('io, 'k) client_env \<Rightarrow> nat \<Rightarrow> ('io, 'k, client_control) client_comp" where
  "client_buffered_input env now =
     swith (\<lambda>s. cs_tcp_alive s \<and> has_buffered_input (cs_tcp s)) (\<lambda>buffered.
       if buffered then client_handle_tcp_read env now else sreturn ClientContinue)"

definition client_turn ::
    "('io, 'k) client_env \<Rightarrow> nat \<Rightarrow> 'k client_input \<Rightarrow> (('io, 'k) client_loop, client_control, client_error) comp" where
  "client_turn env now input =
     sbind (on_client (client_buffered_input env now)) (\<lambda>control.
     if control \<noteq> ClientContinue then sreturn control
     else
       swith (\<lambda>st. client_has_pending_udp_flush env (cl_session st)) (\<lambda>flush_was_pending.
       sseq (smodify (\<lambda>st. st\<lparr>cl_defer_tun_until_flush := cl_defer_tun_until_flush st \<and> flush_was_pending\<rparr>))
       (swith (\<lambda>st. (cl_next_ping_at st, cl_defer_tun_until_flush st)) (\<lambda>(next_ping_at, deferred).
        sbind (on_client (poll_event env now next_ping_at (\<not> deferred) input)) (\<lambda>polled.
        case polled of
          None \<Rightarrow> sreturn ClientContinue
        | Some event \<Rightarrow>
            swith (\<lambda>st. tun_scheduling_of event (cl_session st)) (\<lambda>scheduling.
            sbind (on_client (client_handle_event env now event)) (\<lambda>(control, at).
            sseq (smodify (\<lambda>st. case at of None \<Rightarrow> st | Some t \<Rightarrow> st\<lparr>cl_next_ping_at := t\<rparr>))
            (if control \<noteq> ClientContinue then sreturn control
             else
               sseq (smodify (\<lambda>st. st\<lparr>cl_defer_tun_until_flush :=
                       defer_tun scheduling deferred flush_was_pending
                         (client_has_pending_udp_flush env (cl_session st))\<rparr>))
                 (sreturn ClientContinue)))))))))"

section \<open>The end of a session\<close>

record session_outcome =
  so_exit :: session_exit
  so_error :: "client_error option"

definition outcome_from_error :: "client_error \<Rightarrow> session_outcome" where
  "outcome_from_error err = \<lparr>so_exit = client_error_exit err, so_error = Some err\<rparr>"

definition outcome_from_exit :: "session_exit \<Rightarrow> session_outcome" where
  "outcome_from_exit exit = \<lparr>so_exit = exit, so_error = None\<rparr>"

definition flush_pending_udp_transport_best_effort :: "('io, 'k) client_env \<Rightarrow> ('io, 'k, unit) client_comp" where
  "flush_pending_udp_transport_best_effort env =
     swith (client_has_pending_udp_flush env) (\<lambda>pending.
       if \<not> pending then sreturn ()
       else
         client_external (ce_in_time env) (\<lambda>in_time.
           if in_time then smatch (flush_udp_transport env) (\<lambda>_. sreturn ()) sreturn
           else sreturn ()))"

fun exit_close_code :: "session_exit \<Rightarrow> close_code option" where
  "exit_close_code ExitShutdown = Some CloseNormal"
| "exit_close_code (ExitTunClosed _) = Some CloseNormal"
| "exit_close_code ExitTunFault = Some CloseNormal"
| "exit_close_code ExitProtocolError = Some CloseProtocolError"
| "exit_close_code _ = None"

definition client_finish ::
    "('io, 'k) client_env \<Rightarrow> nat \<Rightarrow> session_outcome \<Rightarrow> ('io, 'k) client_session \<Rightarrow>
     ('io, 'k) client_session \<times> session_outcome" where
  "client_finish env now outcome s =
     (let s = (case exit_close_code (so_exit outcome) of
                 None \<Rightarrow> s
               | Some code \<Rightarrow> fst (client_send_close_best_effort env now code s));
          s = fst (flush_pending_udp_transport_best_effort env s)
      in (s\<lparr>cs_discovery_task := False\<rparr>, outcome))"

datatype 'k client_run_input = RunInput nat "'k client_input" | RunTunFault nat | RunCancelled nat

fun client_run ::
    "('io, 'k) client_env \<Rightarrow> ('io, 'k) client_loop \<Rightarrow> 'k client_run_input list \<Rightarrow>
     (('io, 'k) client_session \<times> session_outcome) option" where
  "client_run env st [] = None"
| "client_run env st (RunTunFault now # rest) =
     Some (client_finish env now (outcome_from_exit ExitTunFault) (cl_session st))"
| "client_run env st (RunCancelled now # rest) =
     Some (client_finish env now (outcome_from_exit ExitShutdown)
             (client_count CmDisconnectShutdown (cl_session st)))"
| "client_run env st (RunInput now input # rest) =
     (case client_turn env now input st of
        (st', Inl e) \<Rightarrow>
          Some (client_finish env now (outcome_from_error e) (client_count CmDisconnectError (cl_session st')))
      | (st', Inr (ClientClose exit)) \<Rightarrow>
          Some (client_finish env now (outcome_from_exit exit) (cl_session st'))
      | (st', Inr ClientContinue) \<Rightarrow> client_run env st' rest)"

end
