(* ===== verification/Client_Safety.thy ===== *)
theory Client_Safety
  imports Client_Loop
begin

text \<open>
  What holds of every reachable client session (\<open>slt-client/src/runtime/session\<close>).  The invariant
  depends on a view of the session that transports, counters and logs are not part of; sends and
  receives keep the view, and each handler's effect on it is a triple.
\<close>

section \<open>The view and the invariant\<close>

text \<open>The UDP state without the transport of an active path.\<close>

definition forget :: "('io, 'k) udp_state \<Rightarrow> ('io, 'k) udp_state option" where
  "forget u = (case u of UdpActive _ \<Rightarrow> None | _ \<Rightarrow> Some u)"

record ('io, 'k) client_view =
  vw_config :: client_session_config
  vw_active :: client_active_transport
  vw_tcp_alive :: bool
  vw_udp :: "('io, 'k) udp_state option"
  vw_upgrade :: client_upgrade_state
  vw_discovery :: bool
  vw_retained :: bool

definition view :: "('io, 'k) client_session \<Rightarrow> ('io, 'k) client_view" where
  "view s =
     \<lparr>vw_config = cs_config s, vw_active = cs_active_transport s, vw_tcp_alive = cs_tcp_alive s,
      vw_udp = forget (cs_udp_state s), vw_upgrade = cs_udp_upgrade s,
      vw_discovery = cs_discovery_task s, vw_retained = (cs_retained_udp_transport s \<noteq> None)\<rparr>"

definition vw_enabled :: "('io, 'k) client_view \<Rightarrow> bool" where
  "vw_enabled v \<longleftrightarrow> cc_enable_upgrade (vw_config v) \<or> cc_require_udp (vw_config v)"

definition vw_upgrading :: "('io, 'k) client_view \<Rightarrow> bool" where
  "vw_upgrading v \<longleftrightarrow> vw_upgrade v \<noteq> UpgradeDisabled \<and> vw_upgrade v \<noteq> UpgradeIdle"

text \<open>UDP is preferred only on an active path, and always when TCP is dead.  An upgrade runs on an
  active path while TCP is preferred; its probes are bounded and it is ready only after an answer.
  A path is retained only while no other is active.  Discovery runs only when it is needed, a
  registration in flight has its session, and all of it only if upgrades are enabled.\<close>

definition view_inv :: "('io, 'k) client_view \<Rightarrow> bool" where
  "view_inv v \<longleftrightarrow>
     (vw_active v = ClientUdpQsp \<longrightarrow> vw_udp v = None) \<and>
     (\<not> vw_tcp_alive v \<longrightarrow> vw_active v = ClientUdpQsp) \<and>
     (vw_upgrading v \<longrightarrow> vw_udp v = None \<and> vw_active v = ClientTcp) \<and>
     (\<forall>g. vw_upgrade v = Upgrading g \<longrightarrow>
        ug_attempts g \<le> MAX_UPGRADE_PROBES \<and> (ug_ready_sent g \<longrightarrow> ug_probe_acked g)) \<and>
     (vw_udp v = None \<longrightarrow> \<not> vw_retained v) \<and>
     (vw_discovery v \<longrightarrow> (\<exists>b t. vw_udp v = Some (NeedDiscovery b t))) \<and>
     (\<forall>ids b t p. vw_udp v = Some (UdpPending ids b t (Some p)) \<longrightarrow> pr_session (pg_prepared p) \<noteq> None) \<and>
     (vw_enabled v \<longleftrightarrow> vw_udp v \<noteq> Some UdpDisabled) \<and>
     (vw_enabled v \<longleftrightarrow> vw_upgrade v \<noteq> UpgradeDisabled) \<and>
     (vw_retained v \<longrightarrow> vw_enabled v)"

definition client_inv :: "('io, 'k) client_session \<Rightarrow> bool" where
  "client_inv s \<longleftrightarrow> view_inv (view s)"

text \<open>The errors that the code means to be impossible.\<close>

definition clean :: "client_error \<Rightarrow> bool" where
  "clean e \<longleftrightarrow> e \<notin> {CePanic, CeProtocolViolation UdpTransportMissing, CeProtocolViolation UdpSessionMissing}"

definition vw_path :: "('io, 'k) client_view \<Rightarrow> bool" where
  "vw_path v \<longleftrightarrow> vw_udp v = None \<or> vw_retained v"

lemma has_path: "udp_receive_transport s \<noteq> None \<longleftrightarrow> vw_path (view s)"
  by (auto simp: udp_receive_transport_def vw_path_def view_def forget_def udp_as_active_def
      split: udp_state.splits option.splits)

lemma as_active: "udp_as_active (cs_udp_state s) \<noteq> None \<longleftrightarrow> vw_udp (view s) = None"
  by (simp add: view_def forget_def udp_as_active_def split: udp_state.splits)

section \<open>Updates of the view\<close>

lemma view_updates [simp]:
  "view (s\<lparr>cs_calls := n\<rparr>) = view s"
  "view (s\<lparr>cs_metrics := ms\<rparr>) = view s"
  "view (s\<lparr>cs_events := es\<rparr>) = view s"
  "view (s\<lparr>cs_tcp := c\<rparr>) = view s"
  "view (s\<lparr>cs_tcp_out := out\<rparr>) = view s"
  "view (s\<lparr>cs_tun_out := tun\<rparr>) = view s"
  "view (s\<lparr>cs_last_activity := l\<rparr>) = view s"
  "view (s\<lparr>cs_last_authenticated_udp_activity := l'\<rparr>) = view s"
  "view (s\<lparr>cs_pending_tcp_fallback := f\<rparr>) = view s"
  "view (s\<lparr>cs_last_peer_fallback_id := f\<rparr>) = view s"
  "view (s\<lparr>cs_udp_upgrade_backoff := b\<rparr>) = view s"
  "view (s\<lparr>cs_udp_cipher_policy := p\<rparr>) = view s"
  "view (s\<lparr>cs_cancelled := k\<rparr>) = view s"
  "view (s\<lparr>cs_active_transport := a\<rparr>) = (view s)\<lparr>vw_active := a\<rparr>"
  "view (s\<lparr>cs_tcp_alive := t\<rparr>) = (view s)\<lparr>vw_tcp_alive := t\<rparr>"
  "view (s\<lparr>cs_udp_state := u\<rparr>) = (view s)\<lparr>vw_udp := forget u\<rparr>"
  "view (s\<lparr>cs_udp_upgrade := g\<rparr>) = (view s)\<lparr>vw_upgrade := g\<rparr>"
  "view (s\<lparr>cs_discovery_task := d\<rparr>) = (view s)\<lparr>vw_discovery := d\<rparr>"
  "view (s\<lparr>cs_retained_udp_transport := r\<rparr>) = (view s)\<lparr>vw_retained := (r \<noteq> None)\<rparr>"
  by (simp_all add: view_def)

lemma view_helpers [simp]:
  "view (client_count m s) = view s"
  "view (emit e s) = view s"
  "view (note_transport_change a b r s) = view s"
  "view (client_note_activity now s) = view s"
  "view (client_note_udp_activity now s) = view s"
  by (simp_all add: client_count_def emit_def note_transport_change_def client_note_activity_def
      client_note_udp_activity_def)

lemma view_set_receive_transport [simp]:
  "vw_path (view s) \<Longrightarrow> view (set_receive_transport q s) = view s"
  by (auto simp: set_receive_transport_def view_def forget_def vw_path_def split: udp_state.split)

lemma view_discard [simp]: "view (discard_pending_udp_send_for_fallback env s) = view s"
  using has_path [of s]
  by (auto simp: discard_pending_udp_send_for_fallback_def split: option.split)

lemma view_keeps:
  assumes "\<And>v. keeps (\<lambda>s. view s = v) F m"
  shows "hoare (\<lambda>s. P (view s)) m (\<lambda>_ s. P (view s)) (\<lambda>e s. P (view s) \<and> F e)"
  using hoareD_Ok [OF assms refl] hoareD_Err [OF assms refl] by (intro hoareI) (metis | blast)+

section \<open>Sends and receives\<close>

lemma clean_errors [simp]:
  "clean (client_error_from_tcp_write out e)"
  "clean (CeConnection k)" "clean (CeIo k)" "clean (CePayload p)" "clean CeCrypto" "clean (CeMessage me)"
  "clean (CeUdpQspKeys ke)" "clean (CeProtocolViolation RegisterOkMismatch)"
  "clean (client_error_from_udp ue)" "clean (client_error_from_validation ve)"
  by (auto simp: clean_def client_error_from_tcp_write_def split: tcp_write_error.split io_error.split)
    (cases ue; simp; fail | cases ve; simp; fail)+

lemma keeps_client_external_view [keep]:
  "(\<And>out. keeps (\<lambda>s. view s = v) F (k out)) \<Longrightarrow> keeps (\<lambda>s. view s = v) F (client_external f k)"
  by (rule keeps_client_external) simp_all

lemma clean_lift [keep]:
  "keeps I clean (slift (map_err CePayload r))" "keeps I clean (slift (map_err CeIo r'))"
  "keeps I clean (slift (map_err client_error_from_udp r''))" "keeps I clean (slift (map_err CeUdpQspKeys r3))"
  "keeps I clean (slift (map_err client_error_from_validation r4))"
  by (rule keeps_lift; cases r; cases r'; cases r''; cases r3; cases r4; auto)+

lemma write_tcp_message_view [keep]: "keeps (\<lambda>s. view s = v) clean (write_tcp_message env m)"
  unfolding write_tcp_message_def
  by (rule keeps_client_external_view) (auto simp: hoare_def split: prod.splits sum.splits)

lemma write_on_transport_view: "vw_path v \<Longrightarrow> keeps (\<lambda>s. view s = v) clean (write_on_transport env m q)"
  unfolding write_on_transport_def Let_def by (intro keep keeps_modify) auto

lemma flush_transport_view: "vw_path v \<Longrightarrow> keeps (\<lambda>s. view s = v) clean (flush_transport env q)"
  unfolding flush_transport_def Let_def by (intro keep keeps_modify) auto

lemma keeps_some:
  assumes "\<And>s. I s \<Longrightarrow> f s \<noteq> None" "\<And>q. keeps I F (k q)"
  shows "keeps I F (swith f (\<lambda>r. case r of None \<Rightarrow> m | Some q \<Rightarrow> k q))"
proof (rule reads)
  fix r
  show "hoare (\<lambda>s. I s \<and> f s = r) (case r of None \<Rightarrow> m | Some q \<Rightarrow> k q) (\<lambda>_. I) (\<lambda>e s. I s \<and> F e)"
    using assms by (cases r) (auto simp: hoare_def, fastforce)
qed

lemma write_udp_message_and_flush_view:
  "vw_path v \<Longrightarrow> keeps (\<lambda>s. view s = v) clean (write_udp_message_and_flush env m)"
  unfolding write_udp_message_and_flush_def
  using has_path
  by (intro keeps_some keep write_on_transport_view flush_transport_view) blast+

lemma flush_udp_transport_view:
  "vw_udp v = None \<Longrightarrow> keeps (\<lambda>s. view s = v) clean (flush_udp_transport env)"
  unfolding flush_udp_transport_def
  using as_active
  by (intro keeps_some keep flush_transport_view) (blast, simp add: vw_path_def)

lemma write_active_message_view:
  assumes "view_inv v"
  shows "keeps (\<lambda>s. view s = v) clean (write_active_message env m)"
proof (cases "vw_active v")
  case ClientTcp
  then have "hoare (\<lambda>s. view s = v) (write_active_message env m) (\<lambda>_ s. view s = v) (\<lambda>e s. view s = v \<and> clean e)
    = hoare (\<lambda>s. view s = v) (write_tcp_message env m) (\<lambda>_ s. view s = v) (\<lambda>e s. view s = v \<and> clean e)"
    by (auto simp: hoare_def write_active_message_def swith_def view_def)
  then show ?thesis using write_tcp_message_view by simp
next
  case ClientUdpQsp
  then have udp: "vw_udp v = None" using assms by (simp add: view_inv_def)
  have "hoare (\<lambda>s. view s = v) (write_active_message env m) (\<lambda>_ s. view s = v) (\<lambda>e s. view s = v \<and> clean e)
    = hoare (\<lambda>s. view s = v) (swith (\<lambda>s. udp_as_active (cs_udp_state s)) (\<lambda>udp.
        case udp of None \<Rightarrow> sfail (CeProtocolViolation UdpTransportMissing) | Some q \<Rightarrow> write_on_transport env m q))
      (\<lambda>_ s. view s = v) (\<lambda>e s. view s = v \<and> clean e)"
    using ClientUdpQsp by (auto simp: hoare_def write_active_message_def swith_def view_def)
  moreover have "keeps (\<lambda>s. view s = v) clean (swith (\<lambda>s. udp_as_active (cs_udp_state s)) (\<lambda>udp.
      case udp of None \<Rightarrow> sfail (CeProtocolViolation UdpTransportMissing) | Some q \<Rightarrow> write_on_transport env m q))"
    using udp as_active by (intro keeps_some write_on_transport_view) (blast, simp add: vw_path_def)
  ultimately show ?thesis by simp
qed

lemma read_on_transport_view:
  "vw_path v \<Longrightarrow> keeps (\<lambda>s. view s = v) any_error (read_on_transport env d q)"
  unfolding read_on_transport_def Let_def by (intro keep keeps_modify) auto

section \<open>Triples at a view\<close>

text \<open>What a handler does from a given view: the rules keep the view as a constant, so that what a
  handler reads becomes a fact about it.\<close>

abbreviation at :: "('io, 'k) client_view \<Rightarrow> (('io, 'k) client_session, 'a, 'e) comp \<Rightarrow>
    ('a \<Rightarrow> ('io, 'k) client_view \<Rightarrow> bool) \<Rightarrow> ('e \<Rightarrow> ('io, 'k) client_view \<Rightarrow> bool) \<Rightarrow> bool" where
  "at v m Q E \<equiv> hoare (\<lambda>s. view s = v) m (\<lambda>a s. Q a (view s)) (\<lambda>e s. E e (view s))"

abbreviation good :: "client_error \<Rightarrow> ('io, 'k) client_view \<Rightarrow> bool" where
  "good e v \<equiv> view_inv v \<and> clean e"

abbreviation safe :: "('io, 'k) client_view \<Rightarrow> ('io, 'k, 'a) client_comp \<Rightarrow> bool" where
  "safe v m \<equiv> at v m (\<lambda>_. view_inv) good"

lemma at_of: "(\<And>v. P v \<Longrightarrow> at v m Q E) \<Longrightarrow> hoare (\<lambda>s. P (view s)) m (\<lambda>a s. Q a (view s)) (\<lambda>e s. E e (view s))"
  by (simp add: hoare_def)

lemma at_reads:
  "(\<And>s0. view s0 = v \<Longrightarrow> at v (k (f s0)) Q E) \<Longrightarrow> at v (swith f k) Q E"
  by (simp add: hoare_def swith_def)

lemma at_external: "(\<And>out. at v (k out) Q E) \<Longrightarrow> at v (client_external f k) Q E"
  by (simp add: hoare_def client_external_def swith_def sseq_def sbind_def smodify_def)

lemma at_draw: "(\<And>x. at v (k x) Q E) \<Longrightarrow> at v (draw_delay env b k) Q E"
  unfolding draw_delay_def by (rule at_external)

lemma at_return: "Q a v \<Longrightarrow> at v (sreturn a) Q E"
  by (simp add: hoare_def sreturn_def)

lemma at_fail: "E e v \<Longrightarrow> at v (sfail e) Q E"
  by (simp add: hoare_def sfail_def)

lemma at_modify: "(\<And>s. view s = v \<Longrightarrow> Q () (view (f s))) \<Longrightarrow> at v (smodify f) Q E"
  by (simp add: hoare_def smodify_def)

lemma at_bind: "at v m R E \<Longrightarrow> (\<And>a w. R a w \<Longrightarrow> at w (k a) Q E) \<Longrightarrow> at v (sbind m k) Q E"
  by (erule binds, rule at_of)

lemma at_seq: "at v m (\<lambda>_. R) E \<Longrightarrow> (\<And>w. R w \<Longrightarrow> at w k Q E) \<Longrightarrow> at v (sseq m k) Q E"
  unfolding sseq_def by (rule at_bind)

text \<open>A first step with a known effect on the view.\<close>

lemma at_modify_seq: "(\<And>s. view s = v \<Longrightarrow> view (f s) = w) \<Longrightarrow> at w k Q E \<Longrightarrow> at v (sseq (smodify f) k) Q E"
  by (auto simp: hoare_def sseq_def sbind_def smodify_def)

lemma at_keeps_seq:
  "keeps (\<lambda>s. view s = v) F m \<Longrightarrow> (\<And>e. F e \<Longrightarrow> E e v) \<Longrightarrow> at v k Q E \<Longrightarrow> at v (sseq m k) Q E"
  by (rule seqs [where R = "\<lambda>s. view s = v"]) (auto elim!: hoare_weaken)

lemma at_lift_bind:
  "(\<And>e. r = Inl e \<Longrightarrow> E e v) \<Longrightarrow> (\<And>a. r = Inr a \<Longrightarrow> at v (k a) Q E) \<Longrightarrow> at v (sbind (slift r) k) Q E"
  by (rule lift_binds) auto

lemma at_match:
  "at v m R F \<Longrightarrow> (\<And>e w. F e w \<Longrightarrow> at w (err e) Q E) \<Longrightarrow> (\<And>a w. R a w \<Longrightarrow> at w (ok a) Q E) \<Longrightarrow>
   at v (smatch m err ok) Q E"
  by (rule hoare_match [where R = "\<lambda>a s. R a (view s)" and F = "\<lambda>e s. F e (view s)"]) (rule at_of; blast)+

lemma at_keeps:
  "keeps (\<lambda>s. view s = v) F m \<Longrightarrow> (\<And>a. Q a v) \<Longrightarrow> (\<And>e. F e \<Longrightarrow> E e v) \<Longrightarrow> at v m Q E"
  by (erule hoare_weaken) auto

lemma at_weaken:
  "at v m Q' E' \<Longrightarrow> (\<And>a w. Q' a w \<Longrightarrow> Q a w) \<Longrightarrow> (\<And>e w. E' e w \<Longrightarrow> E e w) \<Longrightarrow> at v m Q E"
  by (erule hoare_weaken) auto

lemma at_state: "at v m Q E \<Longrightarrow> view s = v \<Longrightarrow> m s = (s', Ok a) \<Longrightarrow> Q a (view s')"
  by (auto dest: hoareD_Ok)

lemma at_prod: "(\<And>a b. p = (a, b) \<Longrightarrow> at v (k a b) Q E) \<Longrightarrow> at v (case p of (a, b) \<Rightarrow> k a b) Q E"
  by (cases p) simp

lemma view_of:
  "view s = v \<Longrightarrow> upgrade_enabled s = vw_enabled v"
  "view s = v \<Longrightarrow> cs_active_transport s = vw_active v"
  "view s = v \<Longrightarrow> cs_tcp_alive s = vw_tcp_alive v"
  "view s = v \<Longrightarrow> cs_udp_upgrade s = vw_upgrade v"
  "view s = v \<Longrightarrow> cs_config s = vw_config v"
  "view s = v \<Longrightarrow> cs_discovery_task s = vw_discovery v"
  "view s = v \<Longrightarrow> (udp_as_active (cs_udp_state s) \<noteq> None) = (vw_udp v = None)"
  "view s = v \<Longrightarrow> forget (cs_udp_state s) = vw_udp v"
  by (auto simp: upgrade_enabled_def vw_enabled_def view_def forget_def udp_as_active_def split: udp_state.splits)

section \<open>Schedules and fallback\<close>

lemma schedule_discovery_retry_with_receive_path_view:
  assumes "view_inv v" "vw_active v = ClientTcp"
  shows "at v (schedule_discovery_retry_with_receive_path env now b)
    (\<lambda>_ w. view_inv w \<and> vw_active w = ClientTcp \<and> vw_tcp_alive w = vw_tcp_alive v) E"
proof -
  show ?thesis
    unfolding schedule_discovery_retry_with_receive_path_def
  proof (rule at_reads, rule chooses, goal_cases)
    case (1 s0)
    then show ?case using assms
      by (intro at_modify) (auto simp: disable_udp_def view_of forget_def view_inv_def vw_upgrading_def vw_enabled_def)
  next
    case (2 s0)
    then have on: "vw_enabled v" by (simp add: view_of)
    show ?case
    proof (rule at_modify_seq [where w = "v\<lparr>vw_upgrade := UpgradeIdle\<rparr>"], goal_cases)
      case 1 then show ?case by simp
    next
      case 2
      let ?R = "\<lambda>w. vw_config w = vw_config v \<and> vw_active w = vw_active v \<and> vw_upgrade w = UpgradeIdle \<and>
        vw_tcp_alive w = vw_tcp_alive v"
      show ?case
      proof (rule at_seq [where R = ?R], goal_cases)
        case 1
        show ?case
          by (rule at_modify) (simp add: retain_receive_path_def split: udp_state.split)
      next
        case (2 w)
        then have "view_inv (w\<lparr>vw_udp := Some (NeedDiscovery b t)\<rparr>)" for b t
          using assms on by (simp add: view_inv_def vw_upgrading_def vw_enabled_def)
        with 2 show ?case
          by (intro at_reads at_prod at_draw at_modify) (simp add: forget_def assms)
      qed
    qed
  qed
qed

lemmas schedule_discovery_view =
  schedule_discovery_retry_with_receive_path_view [where b = True, folded schedule_discovery_retry_def]
  schedule_discovery_retry_with_receive_path_view [where b = False, folded schedule_discovery_retry_after_udp_failure_def]

lemma schedule_discovery_now_view:
  "view_inv v \<Longrightarrow> vw_active v = ClientTcp \<Longrightarrow> view s = v \<Longrightarrow> view_inv (view (schedule_discovery_now now s))"
  by (auto simp: schedule_discovery_now_def disable_udp_def view_of forget_def view_inv_def vw_upgrading_def
      vw_enabled_def)

lemma schedule_registration_retry_view:
  assumes "view_inv v"
  shows "at v (schedule_registration_retry env now) (\<lambda>_. view_inv) E"
  unfolding schedule_registration_retry_def
proof (rule at_reads, goal_cases)
  case (1 s0)
  show ?case
  proof (cases "cs_udp_state s0")
    case (UdpPending ids backoff t r)
    then have "vw_udp v = Some (UdpPending ids backoff t r)" using view_of(8) [OF 1] by (simp add: forget_def)
    then have "view_inv (v\<lparr>vw_udp := Some (UdpPending ids b t' None)\<rparr>)" for b t'
      using assms by (auto simp: view_inv_def vw_upgrading_def vw_enabled_def)
    with UdpPending show ?thesis by (auto intro!: at_draw at_modify simp: forget_def)
  qed (use assms in \<open>auto intro: at_return\<close>)
qed

lemma view_to_tcp [simp]:
  "view (if cs_active_transport s = ClientUdpQsp
     then note_transport_change a b r ((client_count m s)\<lparr>cs_active_transport := ClientTcp\<rparr>) else s) =
   (view s)\<lparr>vw_active := ClientTcp\<rparr>"
  by (cases "cs_active_transport s") (simp_all, simp add: view_def)

lemma request_tcp_fallback_view:
  "at v (request_tcp_fallback env reason)
     (\<lambda>_ w. w = v\<lparr>vw_active := ClientTcp\<rparr> \<and> vw_tcp_alive v) (\<lambda>e w. w = v \<and> clean e)"
  unfolding request_tcp_fallback_def
proof (rule at_reads, rule at_prod, rule chooses, goal_cases)
  case 1 then show ?case by (auto intro: at_fail)
next
  case (2 s0 alive pending)
  then have alive: "vw_tcp_alive v" by (auto simp: view_of)
  show ?case
  proof (rule at_keeps_seq [where F = clean], goal_cases)
    case 1 show ?case by (intro keep keeps_modify) simp
  next
    case 3
    show ?case
      by (rule at_modify_seq [where w = v], simp, rule at_modify) (simp only: view_to_tcp, simp add: alive)
  qed simp
qed

lemma to_tcp_inv:
  "view_inv v \<Longrightarrow> vw_tcp_alive v \<Longrightarrow> view_inv (v\<lparr>vw_active := ClientTcp\<rparr>)"
  by (auto simp: view_inv_def vw_upgrading_def vw_enabled_def)

lemma client_handle_fallback_to_tcp_safe:
  assumes "view_inv v" "vw_tcp_alive v"
  shows "at v (client_handle_fallback_to_tcp env now p) (\<lambda>_ w. view_inv w \<and> vw_tcp_alive w) good"
  unfolding client_handle_fallback_to_tcp_def Let_def
proof (rule at_lift_bind, goal_cases)
  case 1 then show ?case using assms by (auto simp: map_err_Inl)
next
  case (2 request)
  show ?case
  proof (rule at_reads, rule at_seq [where R = "\<lambda>w. view_inv w \<and> vw_tcp_alive w"], rule chooses, goal_cases)
    case 1 then show ?case using assms by (auto intro: at_return)
  next
    case 2
    let ?w = "v\<lparr>vw_active := ClientTcp\<rparr>"
    show ?case
      apply (rule at_modify_seq [where w = v], simp)
      apply (rule at_modify_seq [where w = ?w], simp only: view_to_tcp)
      apply (rule at_seq [OF schedule_discovery_view(1)])
      using to_tcp_inv [OF assms] assms
      by (auto intro: at_modify)
  next
    case (3 s0 w)
    then show ?case
      by (intro at_keeps_seq [OF write_tcp_message_view] at_return) auto
  qed
qed

section \<open>Recovery from UDP errors\<close>

lemma safe_return [simp]: "view_inv v \<Longrightarrow> safe v (sreturn a)"
  by (rule at_return)

lemma safe_fail: "view_inv v \<Longrightarrow> clean e \<Longrightarrow> safe v (sfail e)"
  by (rule at_fail) simp

lemma drop_retained_inv: "view_inv v \<Longrightarrow> view_inv (v\<lparr>vw_retained := False\<rparr>)"
  by (auto simp: view_inv_def vw_upgrading_def vw_enabled_def)

lemma fallback_and_retry_safe:
  assumes "view_inv v"
  shows "safe v (sseq (request_tcp_fallback env reason)
      (sseq (schedule_discovery_retry_after_udp_failure env now) (sreturn a)))"
    "safe v (sseq (request_tcp_fallback env reason) (sseq (schedule_discovery_retry env now) (sreturn a)))"
proof -
  have first: "at v (request_tcp_fallback env reason) (\<lambda>_ w. view_inv w \<and> vw_active w = ClientTcp) good"
    by (rule at_weaken [OF request_tcp_fallback_view]) (auto simp: assms to_tcp_inv)
  have retry: "safe w (sseq (schedule_discovery_retry_after_udp_failure env now) (sreturn a))"
    "safe w (sseq (schedule_discovery_retry env now) (sreturn a))"
    if "view_inv w \<and> vw_active w = ClientTcp" for w
    using that by (intro at_seq [OF schedule_discovery_view(2)] at_seq [OF schedule_discovery_view(1)]; simp)+
  show "safe v (sseq (request_tcp_fallback env reason)
      (sseq (schedule_discovery_retry_after_udp_failure env now) (sreturn a)))"
    "safe v (sseq (request_tcp_fallback env reason) (sseq (schedule_discovery_retry env now) (sreturn a)))"
    by (rule at_seq [OF first retry(1)] at_seq [OF first retry(2)], assumption)+
qed

lemma handle_udp_error_safe:
  assumes "view_inv v"
  shows "safe v (handle_udp_error env now err)"
  unfolding handle_udp_error_def
proof (rule chooses, goal_cases)
  case 1 show ?case using assms by (intro at_return)
next
  case 2
  show ?case
  proof (rule at_reads, rule chooses, goal_cases)
    case 1
    show ?case using drop_retained_inv [OF assms]
      by (intro at_modify_seq [where w = "v\<lparr>vw_retained := False\<rparr>"] at_return) simp_all
  next
    case 2
    show ?case using assms by (intro at_reads chooses at_return fallback_and_retry_safe)
  qed
qed

lemma handle_udp_event_error_safe:
  assumes "view_inv v"
  shows "safe v (handle_udp_event_error env now err)"
  unfolding handle_udp_event_error_def
proof (rule at_bind [OF handle_udp_error_safe [OF assms]], rule chooses, goal_cases)
  case (1 alive w)
  then show ?case by (intro at_modify_seq [where w = w] at_return) simp_all
next
  case 2
  then show ?case by (intro at_return)
qed

lemma recover_udp_write_safe:
  assumes "view_inv v" "clean err" "\<And>w. view_inv w \<Longrightarrow> safe w retry"
  shows "safe v (recover_udp_write env now active retry err)"
  unfolding recover_udp_write_def
proof (rule chooses, goal_cases)
  case 1 show ?case by (rule at_fail) (simp add: assms)
next
  case 2
  show ?case
  proof (rule chooses, rule at_bind [OF handle_udp_error_safe [OF assms(1)]], rule chooses, goal_cases)
    case 1 then show ?case by (intro at_fail) simp
  next
    case 2 then show ?case by (intro assms(3))
  next
    case 3 show ?case by (rule at_fail) (simp add: assms)
  qed
qed

lemma write_tcp_message_safe: "view_inv v \<Longrightarrow> safe v (write_tcp_message env m)"
  by (rule at_keeps [OF write_tcp_message_view]) auto

lemma write_preferred_safe:
  assumes "view_inv v" "active = vw_active v"
  shows "safe v (if active = ClientUdpQsp then write_udp_message_and_flush env m else write_tcp_message env m)"
proof (rule chooses)
  assume "active = ClientUdpQsp"
  then have "vw_path v" using assms by (simp add: view_inv_def vw_path_def)
  then show "safe v (write_udp_message_and_flush env m)"
    using assms(1) by (intro at_keeps [OF write_udp_message_and_flush_view]) auto
qed (rule write_tcp_message_safe [OF assms(1)])

lemma client_sends_safe:
  assumes "view_inv v"
  shows "safe v (client_handle_ping_tick env now)" "safe v (client_send_close env now c)"
    "safe v (client_handle_tun_packet env now p)"
proof -
  have "safe v (swith cs_active_transport (\<lambda>active.
      smatch (if active = ClientUdpQsp then write_udp_message_and_flush env m else write_tcp_message env m)
        (recover_udp_write env now active (write_tcp_message env m)) sreturn))" for m
    by (rule at_reads, rule at_match [OF write_preferred_safe], rule assms, simp add: view_of,
        rule recover_udp_write_safe) (simp_all add: write_tcp_message_safe)
  then show "safe v (client_handle_ping_tick env now)" "safe v (client_send_close env now c)"
    unfolding client_handle_ping_tick_def client_send_close_def Let_def by (auto intro: at_external)
  have active: "safe v (write_active_message env (Data p))"
    using assms by (intro at_keeps [OF write_active_message_view]) auto
  show "safe v (client_handle_tun_packet env now p)"
    unfolding client_handle_tun_packet_def
    apply (rule at_reads, rule at_prod, rule chooses, rule at_return, rule assms, rule chooses)
     apply (rule at_modify_seq [where w = v], simp, rule at_return, rule assms)
    apply (rule at_seq [where R = view_inv], rule at_match [OF active])
      apply (rule recover_udp_write_safe, simp, simp, erule write_tcp_message_safe)
    by simp_all
qed

lemma client_send_close_best_effort_safe: "view_inv v \<Longrightarrow> safe v (client_send_close_best_effort env now c)"
  unfolding client_send_close_best_effort_def
  by (intro at_external chooses at_match [OF client_sends_safe(2)]) simp_all

lemma send_to_tun_view [keep]: "keeps (\<lambda>s. view s = v) clean (send_to_tun_or_shutdown env p)"
proof -
  have "keeps (\<lambda>s. view s = v) clean (case out of
      TunQueued \<Rightarrow> sseq (smodify (\<lambda>s. s\<lparr>cs_tun_out := cs_tun_out s @ [p]\<rparr>)) (sreturn ClientContinue)
    | TunQueueClosed \<Rightarrow> sreturn (ClientClose (ExitTunClosed TunWriter))
    | TunSendCancelled \<Rightarrow>
        sseq (smodify (client_count CmDisconnectShutdown)) (sreturn (ClientClose ExitShutdown)))" for out
    by (cases out; simp only: tun_send_outcome.case; intro keep keeps_modify) simp_all
  then show ?thesis unfolding send_to_tun_or_shutdown_def by (intro keep)
qed

lemma client_handle_fallback_ok_view [keep]: "keeps (\<lambda>s. view s = v) clean (client_handle_fallback_ok p)"
  unfolding client_handle_fallback_ok_def by (intro keep keeps_modify) simp_all

lemma remote_close_view [keep]: "keeps (\<lambda>s. view s = v) clean (remote_close p)"
  unfolding remote_close_def by (intro keep keeps_modify) simp

section \<open>Registration and upgrade\<close>

lemma at_udp_state:
  assumes "view s0 = v"
    "cs_udp_state s0 = UdpDisabled \<Longrightarrow> vw_udp v = Some UdpDisabled \<Longrightarrow> at v a Q E"
    "\<And>x y. cs_udp_state s0 = NeedDiscovery x y \<Longrightarrow> vw_udp v = Some (NeedDiscovery x y) \<Longrightarrow> at v (b x y) Q E"
    "\<And>x y z w. cs_udp_state s0 = UdpPending x y z w \<Longrightarrow> vw_udp v = Some (UdpPending x y z w) \<Longrightarrow> at v (c x y z w) Q E"
    "\<And>x. cs_udp_state s0 = UdpActive x \<Longrightarrow> vw_udp v = None \<Longrightarrow> at v (d x) Q E"
  shows "at v (case cs_udp_state s0 of UdpDisabled \<Rightarrow> a | NeedDiscovery x y \<Rightarrow> b x y | UdpPending x y z w \<Rightarrow> c x y z w
     | UdpActive x \<Rightarrow> d x) Q E"
  using assms(2-) view_of(8) [OF assms(1)] by (cases "cs_udp_state s0") (simp_all add: forget_def)

lemma at_random_secret:
  "(\<And>b. at v (k b) Q E) \<Longrightarrow> E CeCrypto v \<Longrightarrow> at v (random_secret env k) Q E"
  unfolding random_secret_def by (intro at_external option_cases at_fail) simp_all

lemma prepare_registration_view:
  "at v (prepare_udp_qsp_registration env ids cipher) (\<lambda>prepared w. w = v \<and> pr_session prepared \<noteq> None)
     (\<lambda>e w. w = v)"
  unfolding prepare_udp_qsp_registration_def Let_def
  by (intro at_random_secret at_external at_lift_bind at_return) simp_all

lemma handle_registration_setup_failure_safe:
  "view_inv v \<Longrightarrow> safe v (handle_registration_setup_failure env now)"
  unfolding handle_registration_setup_failure_def
  by (intro at_reads chooses safe_return at_modify_seq [where w = v]
      at_seq [OF schedule_registration_retry_view]) simp_all

lemma pending_inv:
  assumes "view_inv v" "vw_udp v = Some (UdpPending ids b t r)" "pr_session (pg_prepared p) \<noteq> None"
  shows "view_inv (v\<lparr>vw_udp := Some (UdpPending ids b t (Some p))\<rparr>)"
  using assms by (auto simp: view_inv_def vw_upgrading_def vw_enabled_def)

lemma attempt_udp_registration_safe:
  assumes "view_inv v"
  shows "safe v (attempt_udp_registration env now)"
  unfolding attempt_udp_registration_def
proof (rule at_reads, erule at_udp_state, goal_cases)
  case (3 s0 ids backoff t r)
  show ?case
  proof (rule option_cases, goal_cases)
    case 1
    show ?case
    proof (rule at_reads, rule at_prod, rule at_match [OF prepare_registration_view], goal_cases)
      case 1 then show ?case using handle_registration_setup_failure_safe [OF assms] by simp
    next
      case (2 s1 policy timeout prepared w)
      then have inv: "view_inv (v\<lparr>vw_udp := Some (UdpPending ids backoff t (Some \<lparr>pg_prepared = prepared, pg_deadline = d\<rparr>))\<rparr>)" for d
        using 3 by (intro pending_inv [OF assms]) simp_all
      show ?case using 2 assms inv
        by (intro at_keeps_seq [OF write_tcp_message_view] at_return
            at_modify_seq [where w = "v\<lparr>vw_udp := Some (UdpPending ids backoff t
              (Some \<lparr>pg_prepared = prepared, pg_deadline = now + timeout\<rparr>))\<rparr>"]) (simp_all add: forget_def)
    qed
  qed (simp add: assms)
qed (simp_all add: assms)

lemma start_udp_upgrade_attempt_safe:
  assumes "view_inv v"
  shows "safe v (start_udp_upgrade_attempt env now)"
  unfolding start_udp_upgrade_attempt_def
proof (rule at_reads, simp only: prod.case, rule chooses, goal_cases)
  case 1 show ?case using assms by simp
next
  case (2 s0)
  then have on: "vw_upgrade v \<noteq> UpgradeDisabled" by (simp add: view_of)
  show ?case
  proof (rule chooses, goal_cases)
    case 1
    then have "view_inv (v\<lparr>vw_upgrade := UpgradeIdle\<rparr>)"
      using assms on by (auto simp: view_inv_def vw_upgrading_def vw_enabled_def)
    then show ?case by (intro at_modify) simp
  next
    case 2
    then have udp: "vw_udp v = None" using view_of(7) [OF \<open>view s0 = v\<close>] by simp
    show ?case
    proof (rule chooses, goal_cases)
      case 1 show ?case using assms by simp
    next
      case 2
      then have "vw_active v = ClientTcp" using view_of(2) [OF \<open>view s0 = v\<close>] by simp
      then have "view_inv (v\<lparr>vw_upgrade := Upgrading \<lparr>ug_upgrade_id = i, ug_deadline = d, ug_attempts = 0,
          ug_next_probe_at = t, ug_probe_nonce = n, ug_probe_acked = False, ug_ready_sent = False,
          ug_probe_backoff = b\<rparr>\<rparr>)" for i d t n b
        using assms on udp by (auto simp: view_inv_def vw_upgrading_def vw_enabled_def)
      then show ?case by (intro at_external at_seq [OF at_modify] at_modify) auto
    qed
  qed
qed

lemma handle_register_ok_safe:
  assumes "view_inv v"
  shows "safe v (handle_register_ok env now p)"
  unfolding handle_register_ok_def
proof (rule at_reads, erule at_udp_state, goal_cases)
  case (3 s0 ids backoff t r)
  let ?w = "v\<lparr>vw_udp := None, vw_retained := False\<rparr>"
  have inv: "view_inv ?w" using 3 assms by (auto simp: view_inv_def vw_upgrading_def vw_enabled_def)
  have activate: "safe v (sseq (smodify (\<lambda>s. s\<lparr>cs_udp_state := UdpActive session, cs_retained_udp_transport := None,
      cs_last_authenticated_udp_activity := None\<rparr>))
      (sseq (smodify (emit UdpRegistered)) (sseq (start_udp_upgrade_attempt env now) (sreturn ClientContinue))))" for session
    by (intro at_modify_seq [where w = ?w] at_seq [OF start_udp_upgrade_attempt_safe [OF inv]])
      (simp_all add: forget_def)
  show ?case
  proof (rule option_cases, goal_cases)
    case (2 in_flight)
    then have session: "pr_session (pg_prepared in_flight) \<noteq> None"
      using 3 assms by (auto simp: view_inv_def)
    then show ?case
      by (intro at_lift_bind chooses safe_fail option_cases activate) (auto simp: assms)
  qed (simp add: assms)
qed (simp_all add: assms)

lemma registration_retry_safe:
  "view_inv v \<Longrightarrow> safe v (sseq (smodify (emit e)) (sseq (schedule_registration_retry env now) (sreturn c)))"
  by (intro at_modify_seq [where w = v] at_seq [OF schedule_registration_retry_view]) simp_all

lemma handle_register_fail_safe:
  assumes "view_inv v"
  shows "safe v (handle_register_fail env now p)"
proof -
  have retry: "safe v (sseq (smodify (\<lambda>s. s\<lparr>cs_udp_cipher_policy := x\<rparr>))
      (sseq (smodify (emit UdpRegisterFailed)) (sseq (schedule_registration_retry env now) (sreturn ClientContinue))))" for x
    by (rule at_modify_seq [where w = v], simp, rule registration_retry_safe [OF assms])
  show ?thesis
    unfolding handle_register_fail_def Let_def
    by (intro at_reads chooses safe_return at_lift_bind at_modify_seq [where w = v and f = "client_count m" for m]
        at_prod retry registration_retry_safe) (auto simp: assms)
qed

lemma handle_registration_timeout_safe: "view_inv v \<Longrightarrow> safe v (handle_registration_timeout env now)"
  unfolding handle_registration_timeout_def
  by (intro at_reads at_prod chooses safe_return registration_retry_safe)

lemma handle_discovery_result_safe:
  assumes "view_inv v" "vw_udp v = Some (NeedDiscovery b t)" "\<not> vw_discovery v"
  shows "safe v (handle_discovery_result env now ids)"
proof -
  have tcp: "vw_active v = ClientTcp"
    using assms(1,2) by (cases "vw_active v") (auto simp: view_inv_def)
  have inv: "view_inv (v\<lparr>vw_udp := Some (UdpPending i b' t' None)\<rparr>)" for i b' t'
    using assms by (auto simp: view_inv_def vw_upgrading_def vw_enabled_def)
  have retry: "safe v (sseq (schedule_discovery_retry env now) (sreturn ClientContinue))"
    by (rule at_seq [OF schedule_discovery_view(1) [OF assms(1) tcp]]) simp
  have fail: "safe v (sseq (smodify (client_count CmUdpDiscoveryFailure)) (sseq (smodify (emit UdpDiscoveryFailed))
      (swith (\<lambda>s. cc_require_udp (cs_config s)) (\<lambda>require_udp.
        if require_udp then sreturn (ClientClose ExitUdpUpgradeRequired)
        else sseq (schedule_discovery_retry env now) (sreturn ClientContinue)))))"
    by (intro at_modify_seq [where w = v] at_reads chooses safe_return retry) (simp_all add: assms)
  show ?thesis
    unfolding handle_discovery_result_def
  proof (rule option_cases, rule fail, goal_cases)
    case (1 i)
    show ?case
      by (rule at_seq [where R = view_inv], rule at_modify) (auto simp: forget_def inv)
  qed
qed

lemma handle_udp_upgrade_timeout_safe:
  assumes "view_inv v" "vw_udp v = None" "vw_active v = ClientTcp" "vw_upgrade v \<noteq> UpgradeDisabled"
  shows "safe v (handle_udp_upgrade_timeout env now)"
proof -
  have "view_inv (v\<lparr>vw_upgrade := TcpOnlyBlockedUdp t\<rparr>)" for t
    using assms by (auto simp: view_inv_def vw_upgrading_def vw_enabled_def)
  then show ?thesis
    unfolding handle_udp_upgrade_timeout_def
    by (intro at_reads at_prod chooses safe_return at_draw assms at_seq [where R = view_inv] at_modify) auto
qed

lemma probes_bounded:
  "\<not> ug_attempts g \<ge> MAX_UPGRADE_PROBES \<Longrightarrow> saturating_add_u32 (ug_attempts g) 1 \<le> MAX_UPGRADE_PROBES"
  unfolding saturating_add_u32_def MAX_UPGRADE_PROBES_def by (auto, unat_arith+)

lemma send_upgrade_probe_safe:
  assumes "view_inv v"
  shows "safe v (send_upgrade_probe env now)"
  unfolding send_upgrade_probe_def
proof (rule at_reads, goal_cases)
  case (1 s0)
  show ?case
  proof (cases "cs_udp_upgrade s0")
    case (Upgrading g)
    then have g: "vw_upgrade v = Upgrading g" using view_of(4) [OF 1] by simp
    then have udp: "vw_udp v = None" using assms by (simp add: view_inv_def vw_upgrading_def)
    have inv: "view_inv (v\<lparr>vw_upgrade := Upgrading (g\<lparr>ug_attempts := a, ug_next_probe_at := t, ug_probe_backoff := b\<rparr>)\<rparr>)"
      if "a \<le> MAX_UPGRADE_PROBES" for a t b
      using assms g that by (auto simp: view_inv_def vw_upgrading_def vw_enabled_def)
    have probe: "safe w (smatch (write_udp_message_and_flush env m)
        (\<lambda>err. if is_udp_path_transport_error err then
             sbind (handle_udp_error env now err) (\<lambda>alive. if \<not> alive then sfail (CeConnection KNotConnected) else sreturn ())
           else sfail err) sreturn)" if "view_inv w" "vw_udp w = None" for m w
    proof (rule at_match [where R = "\<lambda>_. view_inv" and F = good], goal_cases)
      case 1
      show ?case using that by (intro at_keeps [OF write_udp_message_and_flush_view]) (auto simp: vw_path_def)
    next
      case (2 e w')
      then show ?case
        by (intro chooses at_bind [OF handle_udp_error_safe] safe_fail safe_return) auto
    qed simp
    show ?thesis
      unfolding Upgrading client_upgrade_state.case
      using inv [OF probes_bounded [of g]] udp assms
      by (intro chooses safe_return at_draw at_prod at_seq [where R = "\<lambda>w. view_inv w \<and> vw_udp w = None"]
          at_modify) (auto intro: probe)
  qed (simp_all add: assms)
qed

lemma handle_udp_upgrade_tick_safe:
  assumes "view_inv v"
  shows "safe v (handle_udp_upgrade_tick env now)"
proof -
  have timeout: "safe w (handle_udp_upgrade_timeout env now)" if "view_inv w" "vw_upgrading w" for w
    using that by (intro handle_udp_upgrade_timeout_safe) (auto simp: view_inv_def vw_upgrading_def)
  have fallback: "safe v (sseq (if r then sreturn () else request_tcp_fallback env reason) (handle_udp_upgrade_timeout env now))"
    if "vw_upgrading v" for r reason
  proof (rule at_seq [where R = "\<lambda>w. view_inv w \<and> vw_upgrading w"], rule chooses, goal_cases)
    case 1 show ?case using that assms by (intro at_return) simp
  next
    case 2
    show ?case
      by (rule at_weaken [OF request_tcp_fallback_view]) (use that assms to_tcp_inv [OF assms] in \<open>auto simp: vw_upgrading_def\<close>)
  qed (simp add: timeout)
  show ?thesis
    unfolding handle_udp_upgrade_tick_def
  proof (rule at_reads, simp only: prod.case, goal_cases)
    case (1 s0)
    then have up: "vw_upgrade v = cs_udp_upgrade s0" by (simp add: view_of)
    show ?case
    proof (cases "cs_udp_upgrade s0")
      case (Upgrading g)
      then have "vw_upgrading v" using up by (simp add: vw_upgrading_def)
      then show ?thesis
        unfolding Upgrading client_upgrade_state.case
        by (intro chooses timeout assms safe_return at_seq [OF send_upgrade_probe_safe])
    next
      case (AwaitingSwitchOk i d)
      then have "vw_upgrading v" using up by (simp add: vw_upgrading_def)
      then show ?thesis
        unfolding AwaitingSwitchOk client_upgrade_state.case by (intro chooses safe_return fallback assms)
    next
      case (TcpOnlyBlockedUdp t)
      then show ?thesis
        unfolding TcpOnlyBlockedUdp client_upgrade_state.case
        by (intro chooses safe_return assms at_seq [OF start_udp_upgrade_attempt_safe])
    qed (simp_all add: assms)
  qed
qed

lemma handle_switch_to_udp_safe:
  assumes "view_inv v"
  shows "safe v (handle_switch_to_udp env now p)"
  unfolding handle_switch_to_udp_def
proof (rule at_lift_bind, goal_cases)
  case 1 then show ?case using assms by auto
next
  case (2 switch)
  show ?case
  proof (rule at_reads, simp only: prod.case, goal_cases)
    case (1 s0)
    show ?case
    proof (cases "cs_udp_upgrade s0")
      case (Upgrading g)
      then have "vw_upgrade v = Upgrading g" using view_of(4) [OF 1] by simp
      then have inv: "view_inv (v\<lparr>vw_upgrade := AwaitingSwitchOk i d\<rparr>)" for i d
        using assms by (auto simp: view_inv_def vw_upgrading_def vw_enabled_def)
      show ?thesis
        unfolding Upgrading client_upgrade_state.case using assms inv
        by (intro chooses safe_return at_keeps_seq [OF write_tcp_message_view] at_seq [where R = view_inv] at_modify) auto
    qed (simp_all add: assms)
  qed
qed

lemma handle_switch_ok_safe:
  assumes "view_inv v"
  shows "safe v (handle_switch_ok p)"
  unfolding handle_switch_ok_def
proof (rule at_lift_bind, goal_cases)
  case 1 then show ?case using assms by auto
next
  case (2 ok)
  show ?case
  proof (rule at_reads, goal_cases)
    case (1 s0)
    show ?case
    proof (cases "cs_udp_upgrade s0")
      case (AwaitingSwitchOk i d)
      then have up: "vw_upgrade v = AwaitingSwitchOk i d" using view_of(4) [OF 1] by simp
      then have tcp: "vw_active v = ClientTcp" using assms by (simp add: view_inv_def vw_upgrading_def)
      have inv: "view_inv (v\<lparr>vw_active := ClientUdpQsp, vw_upgrade := UpgradeIdle\<rparr>)"
        using assms up by (auto simp: view_inv_def vw_upgrading_def vw_enabled_def)
      have to_udp: "view (if cs_active_transport s \<noteq> ClientUdpQsp
          then note_transport_change a b r ((client_count m s)\<lparr>cs_active_transport := ClientUdpQsp\<rparr>) else s) =
          v\<lparr>vw_active := ClientUdpQsp\<rparr>" if "view s = v" for s a b r m
        using that view_of(2) [OF that] tcp by simp
      show ?thesis
        unfolding AwaitingSwitchOk client_upgrade_state.case
        apply (rule chooses, rule safe_return [OF assms])
        apply (rule at_modify_seq [where w = "v\<lparr>vw_active := ClientUdpQsp\<rparr>"], erule to_udp)
        apply (rule at_modify_seq [where w = "v\<lparr>vw_active := ClientUdpQsp, vw_upgrade := UpgradeIdle\<rparr>"], simp)
        by (rule at_modify_seq [where w = "v\<lparr>vw_active := ClientUdpQsp, vw_upgrade := UpgradeIdle\<rparr>"], simp)
          (rule safe_return [OF inv])
    qed (simp_all add: assms)
  qed
qed

section \<open>Messages\<close>

text \<open>The messages that validation lets through on either transport.\<close>

lemma validated_tcp:
  "validate_server_message Tcp m = Ok () \<Longrightarrow>
   message_ty m \<in> {TyData, TyRegisterOk, TyRegisterFail, TyPing, TyPong, TyClose, TySwitchToUdp, TySwitchOk,
     TyFallbackToTcp, TyFallbackOk}"
  by (cases m) (simp_all add: validate_server_message_def client_context_def validate_message_Ok validate_message_type_Ok)

lemma validated_udp:
  "validate_server_message UdpQsp m = Ok () \<Longrightarrow> message_ty m \<in> {TyData, TyPing, TyPong, TyClose, TyUpgradeProbeAck}"
  by (cases m) (simp_all add: validate_server_message_def client_context_def validate_message_Ok validate_message_type_Ok)

lemma safe_keeps: "keeps (\<lambda>s. view s = v) clean m \<Longrightarrow> view_inv v \<Longrightarrow> safe v m"
  by (rule at_keeps) auto

lemma client_handle_tcp_message_safe:
  assumes "view_inv v" "vw_tcp_alive v"
  shows "safe v (client_handle_tcp_message env now m)"
  unfolding client_handle_tcp_message_def
proof (rule lift_seqs, goal_cases)
  case 1 then show ?case using assms by (auto simp: validate_server_message_def)
next
  case 2
  have pong: "safe v (sbind (slift (map_err CePayload (pong_decode p))) (\<lambda>_. sreturn ClientContinue))" for p
    by (rule safe_keeps) (auto intro!: keep simp: assms)
  have ping: "safe v (sbind (slift (map_err CePayload (ping_decode p))) (\<lambda>ping.
      sseq (write_tcp_message env (Pong (pong_encode \<lparr>pong_nonce = ping_nonce ping\<rparr> []))) (sreturn ClientContinue)))" for p
    by (rule safe_keeps) (auto intro!: keep simp: assms)
  have fallback: "safe v (client_handle_fallback_to_tcp env now p)" for p
    by (rule at_weaken [OF client_handle_fallback_to_tcp_safe]) (auto simp: assms)
  note handlers = ping pong fallback handle_register_ok_safe handle_register_fail_safe handle_switch_to_udp_safe
    handle_switch_ok_safe safe_keeps [OF send_to_tun_view] safe_keeps [OF remote_close_view]
    safe_keeps [OF client_handle_fallback_ok_view]
  show ?case
    using validated_tcp [OF 2] unfolding client_dispatch_tcp_message_def
    by (cases m) (simp_all add: handlers assms)
qed

lemma client_handle_tcp_read_safe:
  "view_inv (view s) \<Longrightarrow> cs_tcp_alive s \<Longrightarrow> client_handle_tcp_read env now s = (s', r) \<Longrightarrow>
   view_inv (view s') \<and> (\<forall>e. r = Err e \<longrightarrow> clean e)"
proof (induction env now s rule: client_handle_tcp_read.induct)
  case (1 env now s)
  obtain popped tcp where pop: "try_pop_message (cs_limits s) (cs_tcp s) = (popped, tcp)" by fastforce
  show ?case
  proof (cases popped)
    case (Inl e)
    then show ?thesis using 1(2-) pop by auto
  next
    case (Inr found)
    show ?thesis
    proof (cases found)
      case None
      then show ?thesis using 1(2-) pop Inr by auto
    next
      case (Some f)
      obtain ty buf where f: "f = (ty, buf)" by fastforce
      let ?m = "client_handle_tcp_message env now (owned_message ty buf)"
      obtain s1 r1 where run: "?m (s\<lparr>cs_tcp := tcp\<rparr>) = (s1, r1)" by fastforce
      have safe: "safe (view s) ?m" using 1(2,3) by (intro client_handle_tcp_message_safe) (simp_all add: view_def)
      have alive: "cs_tcp_alive s1"
        using keeps_state [OF client_handle_message_frame(1) client_frame_refl run] 1(3) by (simp add: client_frame_def)
      show ?thesis
      proof (cases r1)
        case (Inl e)
        then show ?thesis
          using hoareD_Err [OF safe _ run [unfolded Inl]] 1(4) pop Inr Some f run by auto
      next
        case r1: (Inr control)
        have inv: "view_inv (view s1)" using hoareD_Ok [OF safe _ run [unfolded r1]] by simp
        show ?thesis
        proof (cases "control = ClientContinue")
          case True
          then have "client_handle_tcp_read env now (client_note_activity now s1) = (s', r)"
            using 1(4) pop Inr Some f run r1 by (subst (asm) client_handle_tcp_read.simps) (simp add: Let_def)
          then show ?thesis
            using 1(1) [OF pop [symmetric] Inr Some f [symmetric] run [symmetric] r1 refl] True inv alive
            by (simp add: client_note_activity_def view_of)
        next
          case False
          then show ?thesis using 1(4) pop Inr Some f run r1 inv by (auto simp: Let_def)
        qed
      qed
    qed
  qed
qed

text \<open>UDP messages keep the path they came on.\<close>

abbreviation keeps_udp :: "('io, 'k) client_view \<Rightarrow> ('io, 'k, 'a) client_comp \<Rightarrow> bool" where
  "keeps_udp v m \<equiv> at v m (\<lambda>_ w. view_inv w \<and> vw_udp w = vw_udp v) (\<lambda>e w. view_inv w \<and> clean e \<and> vw_udp w = vw_udp v)"

lemma udp_keeps: "keeps (\<lambda>s. view s = v) clean m \<Longrightarrow> view_inv v \<Longrightarrow> keeps_udp v m"
  by (rule at_keeps) auto

lemma handle_upgrade_probe_ack_safe:
  assumes "view_inv v"
  shows "keeps_udp v (handle_upgrade_probe_ack env p)"
  unfolding handle_upgrade_probe_ack_def
proof (rule at_lift_bind, goal_cases)
  case 1 then show ?case using assms by auto
next
  case (2 ack)
  show ?case
  proof (rule at_reads, goal_cases)
    case (1 s0)
    show ?case
    proof (cases "cs_udp_upgrade s0")
      case (Upgrading g)
      let ?v = "\<lambda>ready. v\<lparr>vw_upgrade := Upgrading (g\<lparr>ug_probe_acked := True, ug_ready_sent := ready\<rparr>)\<rparr>"
      let ?w = "v\<lparr>vw_upgrade := Upgrading (g\<lparr>ug_probe_acked := True\<rparr>)\<rparr>"
      have up: "vw_upgrade v = Upgrading g" using Upgrading view_of(4) [OF 1] by simp
      then have inv: "view_inv (?v ready)" "view_inv ?w" for ready
        using assms by (auto simp: view_inv_def vw_upgrading_def vw_enabled_def)
      show ?thesis
        unfolding Upgrading client_upgrade_state.case
        apply (rule chooses, rule at_return, simp add: assms)
        apply (rule at_modify_seq [where w = ?w], simp, rule chooses, rule at_return, simp add: inv)
        apply (rule at_keeps_seq [OF write_tcp_message_view], simp add: inv)
        apply (rule at_modify_seq [where w = "?v True"], simp)
        by (rule at_modify_seq [where w = "?v True"], simp, rule at_return) (simp add: inv)
    qed (auto intro!: at_return simp: assms)
  qed
qed

lemma client_handle_udp_message_safe:
  assumes "view_inv v" "vw_path v"
  shows "keeps_udp v (client_handle_udp_message env m)"
  unfolding client_handle_udp_message_def
proof (rule lift_seqs, goal_cases)
  case 1 then show ?case using assms by (auto simp: validate_server_message_def)
next
  case 2
  have pong: "keeps_udp v (sbind (slift (map_err CePayload (pong_decode p))) (\<lambda>_. sreturn ClientContinue))" for p
    by (rule udp_keeps) (auto intro!: keep simp: assms)
  have ping: "keeps_udp v (sbind (slift (map_err CePayload (ping_decode p))) (\<lambda>ping.
      sseq (write_udp_message_and_flush env (Pong (u64_to_be_bytes (ping_nonce ping)))) (sreturn ClientContinue)))" for p
    by (rule udp_keeps) (auto intro!: keep write_udp_message_and_flush_view simp: assms)
  show ?case
    using validated_udp [OF 2] unfolding client_dispatch_udp_message_def
    by (cases m) (simp_all add: ping pong handle_upgrade_probe_ack_safe udp_keeps [OF send_to_tun_view]
        udp_keeps [OF remote_close_view] assms)
qed

section \<open>Network changes\<close>

lemma at_active:
  assumes "vw_udp v = None" "\<And>q. at v (k q) Q E"
  shows "at v (swith (\<lambda>s. udp_as_active (cs_udp_state s)) (\<lambda>udp. case udp of None \<Rightarrow> m | Some q \<Rightarrow> k q)) Q E"
proof (rule at_reads, rule option_cases, goal_cases)
  case (1 s0)
  then show ?case using as_active [of s0] assms by simp
qed (rule assms)

abbreviation on_path :: "('io, 'k) client_view \<Rightarrow> bool" where
  "on_path v \<equiv> view_inv v \<and> vw_udp v = None"

abbreviation stays :: "('io, 'k) client_view \<Rightarrow> ('io, 'k, 'a) client_comp \<Rightarrow> bool" where
  "stays v m \<equiv> at v m (\<lambda>_. on_path) (\<lambda>e w. view_inv w \<and> vw_udp w = None \<and> clean e)"

lemma stays_return [simp]: "on_path v \<Longrightarrow> stays v (sreturn a)"
  by (rule at_return)

lemma stays_fail: "on_path v \<Longrightarrow> clean e \<Longrightarrow> stays v (sfail e)"
  by (rule at_fail) simp

lemma stays_keeps: "keeps (\<lambda>s. view s = v) clean m \<Longrightarrow> on_path v \<Longrightarrow> stays v m"
  by (rule at_keeps) auto

lemma is_matching_pong_clean: "is_matching_pong m nonce = Err e \<Longrightarrow> clean e"
  by (cases m) (auto simp: is_matching_pong_def)

lemma refresh_loop_safe: "on_path v \<Longrightarrow> stays v (refresh_loop env now nonce inputs)"
proof (induction inputs arbitrary: v)
  case Nil
  then show ?case unfolding refresh_loop.simps by (intro at_active stays_fail) simp_all
next
  case (Cons input rest)
  have next_input: "stays w (if is_udp_qsp_recoverable err then refresh_loop env now nonce rest else sfail err)"
    if "on_path w" "clean err" for w err
    using that by (intro chooses Cons.IH stays_fail)
  have activity: "stays w (sseq (smodify (client_note_udp_activity now)) k)" if "stays w k" for w k
    using that by (rule at_modify_seq [rotated]) simp
  have handle: "stays w (smatch (client_handle_udp_message env m)
      (\<lambda>err. if is_udp_qsp_recoverable err then refresh_loop env now nonce rest else sfail err)
      (\<lambda>control. sseq (smodify (client_note_udp_activity now))
        (if control \<noteq> ClientContinue then sreturn control else refresh_loop env now nonce rest)))"
    if "on_path w" for w m
    by (rule at_match [OF client_handle_udp_message_safe])
      (use that in \<open>auto simp: vw_path_def intro!: activity next_input chooses Cons.IH stays_return stays_fail\<close>)
  have message: "stays w (case is_matching_pong m nonce of
      Inl err \<Rightarrow> if is_udp_qsp_recoverable err then refresh_loop env now nonce rest else sfail err
    | Inr matches \<Rightarrow> if matches then sseq (smodify (client_note_udp_activity now)) (sreturn ClientContinue)
        else smatch (client_handle_udp_message env m)
          (\<lambda>err. if is_udp_qsp_recoverable err then refresh_loop env now nonce rest else sfail err)
          (\<lambda>control. sseq (smodify (client_note_udp_activity now))
            (if control \<noteq> ClientContinue then sreturn control else refresh_loop env now nonce rest)))"
    if "on_path w" for w m
    by (rule result_cases, rule next_input [OF that], erule is_matching_pong_clean)
      (intro chooses activity stays_return handle that)
  show ?case
    unfolding refresh_loop.simps
  proof (rule at_active)
    show "vw_udp v = None" using Cons.prems by simp
    show "stays v (case input of RefreshCancelled \<Rightarrow> sreturn (ClientClose ExitShutdown)
      | RefreshRecv datagram \<Rightarrow> smatch (read_on_transport env datagram q)
          (\<lambda>err. if is_udp_qsp_recoverable (client_error_from_udp err) then refresh_loop env now nonce rest
             else sfail (client_error_from_udp err))
          (\<lambda>m. case is_matching_pong m nonce of
            Inl err \<Rightarrow> if is_udp_qsp_recoverable err then refresh_loop env now nonce rest else sfail err
          | Inr matches \<Rightarrow> if matches then sseq (smodify (client_note_udp_activity now)) (sreturn ClientContinue)
              else smatch (client_handle_udp_message env m)
                (\<lambda>err. if is_udp_qsp_recoverable err then refresh_loop env now nonce rest else sfail err)
                (\<lambda>control. sseq (smodify (client_note_udp_activity now))
                  (if control \<noteq> ClientContinue then sreturn control else refresh_loop env now nonce rest))))" for q
    proof (cases input)
      case (RefreshRecv datagram)
      have read: "at v (read_on_transport env datagram q) (\<lambda>_. on_path) (\<lambda>_. on_path)"
        by (rule at_keeps [OF read_on_transport_view]) (use Cons.prems in \<open>auto simp: vw_path_def\<close>)
      show ?thesis
        unfolding RefreshRecv refresh_input.case
        by (rule at_match [OF read]) (rule next_input, simp, simp, erule message)
    qed (use Cons.prems in simp)
  qed
qed

lemma refresh_udp_path_safe:
  assumes "on_path v"
  shows "stays v (refresh_udp_path env now)"
  unfolding refresh_udp_path_def
proof (rule at_external, rule at_keeps_seq [where F = clean], goal_cases)
  case 1 then show ?case using assms by (intro write_udp_message_and_flush_view) (simp add: vw_path_def)
next
  case 2 then show ?case using assms by simp
next
  case 3 show ?case by (rule at_external, rule refresh_loop_safe [OF assms])
qed

lemma recreate_udp_io_safe:
  assumes "on_path v"
  shows "stays v (recreate_udp_io env)"
  unfolding recreate_udp_io_def using assms
  by (intro at_active at_external at_lift_bind at_modify) (auto simp: vw_path_def)

lemma refresh_with_replacement_safe:
  assumes "on_path v"
  shows "stays v (refresh_udp_path_with_replacement_fallback env now)"
  unfolding refresh_udp_path_with_replacement_fallback_def
proof (rule at_match [OF refresh_udp_path_safe [OF assms]], goal_cases)
  case (1 err w)
  then have w: "on_path w" by simp
  show ?case
    by (rule chooses, rule at_seq [OF recreate_udp_io_safe [OF w]], erule refresh_udp_path_safe)
      (use 1 in \<open>auto intro: stays_fail\<close>)
qed simp

lemma handle_network_changed_safe:
  assumes "view_inv v"
  shows "safe v (handle_network_changed env now)"
proof -
  have closes: "safe w (sseq (smodify (emit e)) (sreturn c))" if "view_inv w" for w e and c :: client_control
    using that by (intro at_modify_seq [where w = w] safe_return) simp_all
  have fallback: "safe w (sseq (request_tcp_fallback env ReasonUdpError)
      (sseq (smodify (schedule_discovery_now now)) (sreturn ClientContinue)))" if "view_inv w" for w
  proof (rule at_seq [OF at_weaken [OF request_tcp_fallback_view, where Q = "\<lambda>_ w'. view_inv w' \<and> vw_active w' = ClientTcp"]], goal_cases)
    case 1 then show ?case using to_tcp_inv that by auto
  next
    case 2 then show ?case using that by simp
  next
    case (3 w')
    then show ?case
      by (intro at_seq [where R = view_inv] at_modify schedule_discovery_now_view safe_return) auto
  qed
  have failed: "safe w (sseq (smodify (emit UdpPathRefreshFailed))
      (if \<not> is_udp_path_transport_error err then sfail err
       else swith cs_tcp_alive (\<lambda>alive. if \<not> alive
         then sseq (smodify (emit NetworkChangedEvent)) (sreturn (ClientClose ExitNetworkChanged))
         else sseq (request_tcp_fallback env ReasonUdpError)
           (sseq (smodify (schedule_discovery_now now)) (sreturn ClientContinue)))))"
    if "view_inv w" "clean err" for w err
    by (rule at_modify_seq [where w = w], simp) (intro chooses safe_fail at_reads closes fallback that)
  show ?thesis
    unfolding handle_network_changed_def
  proof (rule at_reads, rule chooses, goal_cases)
    case 1 show ?case by (rule closes [OF assms])
  next
    case (2 s0)
    then have "on_path v" using assms as_active [of s0] by auto
    then show ?case
      by (intro at_modify_seq [where w = v] at_match [OF refresh_with_replacement_safe] chooses failed closes
          safe_return) simp_all
  qed
qed

section \<open>The event loop\<close>

text \<open>What the poll guarantees of the event it gives.\<close>

definition event_ok :: "'k client_session_event \<Rightarrow> ('io, 'k) client_view \<Rightarrow> bool" where
  "event_ok event v \<longleftrightarrow>
     (case event of
        CsTcpRead n \<Rightarrow> vw_tcp_alive v
      | CsUdpResult _ \<Rightarrow> vw_path v
      | CsDiscoveryResult _ \<Rightarrow> vw_discovery v
      | CsUdpFlushReady \<Rightarrow> vw_udp v = None
      | _ \<Rightarrow> True)"

lemma event_ok_simps [simp]:
  "event_ok CsShutdown v" "event_ok (CsControl c) v" "event_ok (timer_into_event t) v"
  "event_ok (CsDiscoveryResult r) v \<longleftrightarrow> vw_discovery v"
  by (simp_all add: event_ok_def) (cases t; simp)

lemma poll_packet_work_at:
  assumes "view_inv v"
  shows "at v (poll_packet_work env b input) (\<lambda>event w. w = v \<and> (\<forall>e. event = Some e \<longrightarrow> event_ok e v)) good"
  unfolding poll_packet_work_def
proof (rule at_reads, simp only: prod.case, goal_cases)
  case (1 s0)
  note s0 = view_of [OF 1]
  show ?case
  proof (cases input)
    case (InTcpRead res)
    show ?thesis
      unfolding InTcpRead client_input.case
      by (intro chooses at_return at_lift_bind at_modify_seq [where w = v]) (use assms s0 in \<open>auto simp: event_ok_def\<close>)
  next
    case InFlush
    then show ?thesis using s0(2) s0(7)
      by (auto intro!: at_return simp: event_ok_def client_has_pending_udp_flush_def split: option.splits)
  next
    case (InUdp datagram)
    show ?thesis
      unfolding InUdp client_input.case
    proof (rule option_cases, goal_cases)
      case 1 show ?case by (rule at_return) simp
    next
      case (2 q)
      then have path: "vw_path v" using has_path [of s0] \<open>view s0 = v\<close> by simp
      show ?case
        by (rule at_match [OF at_keeps [OF read_on_transport_view [OF path], where Q = "\<lambda>_ w. w = v" and E = "\<lambda>_ w. w = v"]])
          (auto intro!: at_return simp: event_ok_def path)
    qed
  qed (auto intro!: at_return simp: event_ok_def)
qed

lemma poll_event_at:
  assumes "view_inv v"
  shows "at v (poll_event env now ping b input) (\<lambda>event w. w = v \<and> (\<forall>e. event = Some e \<longrightarrow> event_ok e v)) good"
  unfolding poll_event_def
proof (rule at_reads, simp only: prod.case, goal_cases)
  case (1 s0)
  note s0 = view_of(6) [OF 1]
  obtain timer_at timer where t: "client_next_timer ping s0 = (timer_at, timer)" by fastforce
  have timer: "at v (sreturn (Some (timer_into_event timer)))
      (\<lambda>event w. w = v \<and> (\<forall>e. event = Some e \<longrightarrow> event_ok e v)) good"
    by (rule at_return) simp
  note work = poll_packet_work_at [OF assms]
  show ?case
    unfolding t prod.case
    by (cases input; simp only: client_input.case)
      (auto intro!: at_return timer work chooses simp: s0)
qed

lemma client_handle_udp_result_safe:
  assumes "view_inv v" "vw_path v"
  shows "safe v (client_handle_udp_result env now r)"
  unfolding client_handle_udp_result_def Let_def
proof (rule result_cases, goal_cases)
  case (1 e)
  show ?case using assms by (intro chooses handle_udp_event_error_safe safe_fail) simp_all
next
  case (2 m)
  show ?case
  proof (rule at_match [OF client_handle_udp_message_safe [OF assms]], goal_cases)
    case (1 e w)
    then show ?case by (intro chooses handle_udp_event_error_safe safe_fail) simp_all
  next
    case (2 control w)
    then show ?case by (intro at_modify_seq [where w = w] safe_return) simp_all
  qed
qed

lemma handle_udp_reconnect_tick_safe:
  assumes "view_inv v"
  shows "safe v (handle_udp_reconnect_tick env now)"
  unfolding handle_udp_reconnect_tick_def
proof (rule at_reads, erule at_udp_state, goal_cases)
  case (2 s0 b t)
  then have "view_inv (v\<lparr>vw_discovery := True\<rparr>)"
    using assms by (auto simp: view_inv_def vw_upgrading_def vw_enabled_def)
  then show ?case
    by (intro at_modify_seq [where w = v and f = "emit e" for e] at_modify_seq [where w = "v\<lparr>vw_discovery := True\<rparr>"] safe_return)
      simp_all
qed (simp_all add: assms attempt_udp_registration_safe)

lemma handle_client_liveness_safe: "view_inv v \<Longrightarrow> safe v (handle_client_liveness env now)"
  unfolding handle_client_liveness_def by (intro at_reads chooses safe_return fallback_and_retry_safe)

lemma client_handle_tcp_read_at:
  assumes "view_inv v" "vw_tcp_alive v"
  shows "safe v (client_handle_tcp_read env now)"
proof (rule hoareI, goal_cases)
  case (1 s s' a)
  then show ?case using client_handle_tcp_read_safe [of s env now] assms by (auto simp: view_of)
next
  case (2 s s' e)
  then show ?case using client_handle_tcp_read_safe [of s env now s' "Err e"] assms by (auto simp: view_of)
qed

lemma handle_tcp_read_event_safe:
  assumes "view_inv v" "vw_tcp_alive v"
  shows "safe v (handle_tcp_read_event env now n)"
  unfolding handle_tcp_read_event_def
proof (rule chooses, rule at_reads, rule chooses, goal_cases)
  case (1 s0)
  then have "vw_active v = ClientUdpQsp" by (simp add: view_of)
  then have "view_inv (v\<lparr>vw_tcp_alive := False\<rparr>)"
    using assms by (auto simp: view_inv_def vw_upgrading_def vw_enabled_def)
  then show ?case by (intro at_modify_seq [where w = "v\<lparr>vw_tcp_alive := False\<rparr>"] safe_return) simp_all
next
  case 2
  show ?case using assms by (intro at_modify_seq [where w = v] safe_return) simp_all
next
  case 3
  show ?case by (rule client_handle_tcp_read_at [OF assms])
qed

lemma client_schedule_next_ping_view: "keeps (\<lambda>s. view s = v) clean (client_schedule_next_ping env now)"
  unfolding client_schedule_next_ping_def Let_def by (intro keep)

lemma client_handle_event_safe:
  assumes "view_inv v" "event_ok event v"
  shows "safe v (client_handle_event env now event)"
proof (cases "event = CsPingTick")
  case True
  show ?thesis
    unfolding True client_handle_event_def client_session_event.case
    by (rule at_seq [OF client_sends_safe(1) [OF assms(1)]],
        rule at_bind [OF at_keeps [OF client_schedule_next_ping_view, where Q = "\<lambda>_. view_inv"]]) simp_all
next
  case False
  have flush: "safe v (smatch (flush_udp_transport env)
      (\<lambda>err. if is_udp_path_transport_error err then handle_udp_event_error env now err else sreturn ClientContinue)
      (\<lambda>_. sreturn ClientContinue))" if "vw_udp v = None"
  proof (rule at_match [OF at_keeps [OF flush_udp_transport_view [OF that], where Q = "\<lambda>_. view_inv" and E = good]], goal_cases)
    case (3 e w) then show ?case by (intro chooses handle_udp_event_error_safe safe_return) simp_all
  qed (simp_all add: assms)
  have discovery: "safe v (sseq (smodify (\<lambda>s. s\<lparr>cs_discovery_task := False\<rparr>)) (handle_discovery_result env now ids))"
    if "vw_discovery v" for ids
  proof -
    obtain b t where need: "vw_udp v = Some (NeedDiscovery b t)" using assms(1) \<open>vw_discovery v\<close> by (auto simp: view_inv_def)
    have "view_inv (v\<lparr>vw_discovery := False\<rparr>)"
      using assms(1) by (auto simp: view_inv_def vw_upgrading_def vw_enabled_def)
    then show ?thesis
      by (intro at_modify_seq [where w = "v\<lparr>vw_discovery := False\<rparr>"] handle_discovery_result_safe) (simp_all add: need)
  qed
  have shutdown: "safe v (sseq (smodify (client_count m)) (sreturn c))" for m and c :: client_control
    using assms(1) by (intro at_modify_seq [where w = v] safe_return) simp_all
  have stop: "safe v (sseq (smodify (\<lambda>s. s\<lparr>cs_cancelled := True\<rparr>)) (sseq (smodify (client_count m)) (sreturn c)))"
    for m and c :: client_control
    by (rule at_modify_seq [where w = v], simp, rule shutdown)
  have idle: "safe v (sseq (smodify (client_count m)) (sseq (client_send_close_best_effort env now code) (sreturn c)))"
    for m code and c :: client_control
    by (rule at_modify_seq [where w = v], simp, rule at_seq [OF client_send_close_best_effort_safe [OF assms(1)]], erule safe_return)
  note handlers = flush discovery shutdown stop idle handle_network_changed_safe handle_tcp_read_event_safe
    client_sends_safe(3) client_handle_udp_result_safe handle_client_liveness_safe handle_udp_reconnect_tick_safe
    handle_registration_timeout_safe handle_udp_upgrade_tick_safe
  have paired: "safe v m \<Longrightarrow> safe v (sbind m (\<lambda>control. sreturn (control, None)))"
    for m :: "('a, 'b, client_control) client_comp"
    by (erule at_bind, erule safe_return)
  show ?thesis
    using False assms unfolding client_handle_event_def
    by (cases event; simp only: client_session_event.case)
      (auto intro!: paired simp: handlers event_ok_def split: option.split client_command.split)
qed

abbreviation loop_inv :: "('io, 'k) client_loop \<Rightarrow> bool" where
  "loop_inv st \<equiv> view_inv (view (cl_session st))"

lemma on_client_hoare:
  "hoare P m Q E \<Longrightarrow>
   hoare (\<lambda>st. P (cl_session st)) (on_client m) (\<lambda>a st. Q a (cl_session st)) (\<lambda>e st. E e (cl_session st))"
  by (auto simp: hoare_def on_client_def split: prod.splits sum.splits)

lemma safe_on_client:
  "(\<And>v. view_inv v \<Longrightarrow> at v m (\<lambda>a w. view_inv w \<and> Q a w) good) \<Longrightarrow>
   hoare loop_inv (on_client m) (\<lambda>a st. loop_inv st \<and> Q a (view (cl_session st))) (\<lambda>e st. loop_inv st \<and> clean e)"
  by (rule on_client_hoare, rule at_of)

lemma client_buffered_input_safe:
  assumes "view_inv v"
  shows "safe v (client_buffered_input env now)"
  unfolding client_buffered_input_def
proof (rule at_reads, rule chooses, goal_cases)
  case (1 s0)
  then show ?case using assms by (intro client_handle_tcp_read_at) (simp_all add: view_of)
qed (rule safe_return [OF assms])

lemma client_turn_safe: "keeps loop_inv clean (client_turn env now input)"
proof -
  have buffered: "keeps loop_inv clean (on_client (client_buffered_input env now))"
    by (rule on_client_hoare, rule at_of, erule client_buffered_input_safe)
  have polled: "hoare loop_inv (on_client (poll_event env now ping b input))
      (\<lambda>polled st. loop_inv st \<and> (\<forall>e. polled = Some e \<longrightarrow> event_ok e (view (cl_session st))))
      (\<lambda>e st. loop_inv st \<and> clean e)" for ping b
    by (rule safe_on_client) (auto intro: at_weaken [OF poll_event_at])
  have handled: "hoare (\<lambda>st. loop_inv st \<and> event_ok e (view (cl_session st))) (on_client (client_handle_event env now e))
      (\<lambda>_. loop_inv) (\<lambda>e st. loop_inv st \<and> clean e)" for e
    by (rule on_client_hoare, rule at_of) (auto intro: client_handle_event_safe)
  have rest: "keeps loop_inv clean
      (sseq (smodify (\<lambda>st. case t of None \<Rightarrow> st | Some t \<Rightarrow> st\<lparr>cl_next_ping_at := t\<rparr>))
        (if control \<noteq> ClientContinue then sreturn control
         else sseq (smodify (\<lambda>st. st\<lparr>cl_defer_tun_until_flush := defer_tun scheduling deferred was
             (client_has_pending_udp_flush env (cl_session st))\<rparr>)) (sreturn ClientContinue)))"
    for control scheduling deferred was t
    by (intro keep keeps_modify) (auto split: option.split)
  show ?thesis
    unfolding client_turn_def
  proof (rule binds [OF buffered], rule chooses, rule keeps_return, rule keeps_with, rule keeps_seq, goal_cases)
    case 1 show ?case by (rule keeps_modify) simp
  next
    case 2
    show ?case
    proof (rule keeps_with, rule keeps_prod, rule binds [OF polled], rule option_cases, goal_cases)
      case 1 show ?case by (rule returns) simp
    next
      case (2 _ _ _ _ event)
      show ?case
        by (rule reads, rule binds [where R = "\<lambda>_. loop_inv"])
          (rule hoare_pre [OF handled], use 2 in simp, rule keeps_prod, rule rest)
    qed
  qed
qed

section \<open>Reachable sessions\<close>

text \<open>A session starts on an authenticated TCP channel and takes turns with any inputs, until a
  turn ends it.\<close>

inductive client_reach :: "('io, 'k) client_env \<Rightarrow> ('io, 'k) client_loop \<Rightarrow> bool" for env where
  client_reach_start: "client_reach env (client_loop_start env now (client_session_new now' config tcp))"
| client_reach_turn:
    "client_reach env st \<Longrightarrow> client_turn env now input st = (st', Ok ClientContinue) \<Longrightarrow> client_reach env st'"

lemma client_session_new_inv: "view_inv (view (client_session_new now config tcp))"
  by (auto simp: client_session_new_def Let_def view_def view_inv_def vw_upgrading_def vw_enabled_def forget_def)

lemma client_loop_start_inv:
  assumes "view_inv (view s)"
  shows "loop_inv (client_loop_start env now s)"
proof -
  obtain s' r where "client_schedule_next_ping env now s = (s', r)" by fastforce
  moreover from this have "view s' = view s"
    by (rule keeps_state [OF client_schedule_next_ping_view refl])
  ultimately show ?thesis using assms by (simp add: client_loop_start_def split: sum.split)
qed

lemma client_reach_inv: "client_reach env st \<Longrightarrow> loop_inv st"
proof (induction rule: client_reach.induct)
  case (client_reach_start now now' config tcp)
  then show ?case by (rule client_loop_start_inv [OF client_session_new_inv])
next
  case (client_reach_turn st now input st')
  then show ?case by (auto intro: keeps_state [OF client_turn_safe])
qed

lemma view_inv_unfolded:
  assumes "view_inv (view s)"
  shows "cs_active_transport s = ClientUdpQsp \<Longrightarrow> \<exists>q. cs_udp_state s = UdpActive q"
    "\<not> cs_tcp_alive s \<Longrightarrow> cs_active_transport s = ClientUdpQsp"
    "cs_udp_upgrade s = Upgrading g \<Longrightarrow> cs_active_transport s = ClientTcp \<and> (\<exists>q. cs_udp_state s = UdpActive q) \<and>
       ug_attempts g \<le> MAX_UPGRADE_PROBES \<and> (ug_ready_sent g \<longrightarrow> ug_probe_acked g)"
    "cs_udp_upgrade s = AwaitingSwitchOk i d \<Longrightarrow> cs_active_transport s = ClientTcp \<and> (\<exists>q. cs_udp_state s = UdpActive q)"
    "cs_udp_state s = UdpActive q \<Longrightarrow> cs_retained_udp_transport s = None"
    "cs_discovery_task s \<Longrightarrow> \<exists>b t. cs_udp_state s = NeedDiscovery b t"
    "cs_udp_state s = UdpPending ids b t (Some p) \<Longrightarrow> pr_session (pg_prepared p) \<noteq> None"
  using assms
  by (auto simp: view_inv_def view_def forget_def vw_upgrading_def split: udp_state.splits)

end
