(* ===== verification/Client_Run.thy ===== *)
theory Client_Run
  imports Client_Safety
begin

text \<open>
  Runs of the client's session: sample runs that evaluate the model, and the properties that hold in
  every state its event loop reaches.
\<close>

section \<open>Sample runs\<close>

definition sample_client_env :: "(bytes list, unit) client_env" where
  "sample_client_env =
     \<lparr>ce_crypto = plain_crypto, ce_io_send = (\<lambda>io packet. (io @ [packet], Ok ())),
      ce_io_flush = (\<lambda>io. (io, Ok ())), ce_io_has_pending = (\<lambda>_. False), ce_io_discard = (\<lambda>io. (io, 0)),
      ce_io_peer = (\<lambda>_. SocketAddr [127, 0, 0, 1] 443), ce_io_create = (\<lambda>_ _ _. Ok []),
      ce_bind_socket = (\<lambda>_ _. Ok ()), ce_ssl_key_update = (\<lambda>_ _. True), ce_tcp_write = (\<lambda>_. WriteDone),
      ce_tun_send = (\<lambda>_. TunQueued), ce_random = (\<lambda>_. 7), ce_random_secret = (\<lambda>_. Some (replicate 32 1)),
      ce_aes_accelerated = False, ce_in_time = (\<lambda>_. True), ce_refresh = (\<lambda>_. [])\<rparr>"

definition sample_client_config :: client_session_config where
  "sample_client_config =
     \<lparr>cc_enable_upgrade = True, cc_require_udp = False, cc_tun_mtu = 1400, cc_cipher = CipherAuto,
      cc_ping_min = 20000000, cc_ping_max = 20000000, cc_idle_timeout = 900000000,
      cc_udp_liveness_timeout = 60000000, cc_register_timeout = 10000000, cc_reconnect_min = 4000000,
      cc_reconnect_max = 64000000\<rparr>"

abbreviation sample_client_start :: "(bytes list, unit) client_loop" where
  "sample_client_start \<equiv> client_loop_start sample_client_env 0
     (client_session_new 0 sample_client_config (tcp_channel_with_state default_interval_key_updater []))"

lemma sample_client_start_eq:
  "sample_client_start =
     \<lparr>cl_session = client_session_new 0 sample_client_config (tcp_channel_with_state default_interval_key_updater []),
      cl_next_ping_at = 20000000, cl_defer_tun_until_flush = False\<rparr>"
  by (simp add: client_loop_start_def client_schedule_next_ping_def monad_simps client_session_new_def
      sample_client_config_def)

text \<open>A turn without buffered input and without deferred packets.\<close>

lemma client_turn_event:
  assumes "cl_session st = s" "\<not> has_buffered_input (cs_tcp s)" "\<not> cl_defer_tun_until_flush st"
    and "poll_event env now (cl_next_ping_at st) True input s = (s1, Ok (Some e))"
    and "client_handle_event env now e s1 = (s2, Ok (ClientContinue, None))"
  shows "client_turn env now input st =
    (st\<lparr>cl_session := s2, cl_defer_tun_until_flush := defer_tun (tun_scheduling_of e s1) False
       (client_has_pending_udp_flush env s) (client_has_pending_udp_flush env s2)\<rparr>, Ok ClientContinue)"
  using assms by (simp add: client_turn_def client_buffered_input_def on_client_def monad_simps)

lemma client_turn_poll_error:
  assumes "cl_session st = s" "\<not> has_buffered_input (cs_tcp s)" "\<not> cl_defer_tun_until_flush st"
    and "poll_event env now (cl_next_ping_at st) True input s = (s1, Err e)"
  shows "client_turn env now input st = (st\<lparr>cl_session := s1\<rparr>, Err e)"
  using assms by (simp add: client_turn_def client_buffered_input_def on_client_def monad_simps)

abbreviation sample_client_session :: "(bytes list, unit) client_session" where
  "sample_client_session \<equiv> client_session_new 0 sample_client_config (tcp_channel_with_state default_interval_key_updater [])"

lemma sample_client_fields [simp]:
  "\<not> has_buffered_input (cs_tcp sample_client_session)" "cs_tcp_alive sample_client_session"
  "cs_active_transport sample_client_session = ClientTcp" "cs_discovery_task sample_client_session = False"
  "cs_udp_state sample_client_session = NeedDiscovery (reconnect_backoff_new 4000000 64000000) 0"
  "client_next_timer 20000000 sample_client_session = (0, CtUdpReconnect)"
  "client_next_timer 20000000 (sample_client_session\<lparr>cs_discovery_task := True, cs_events := es\<rparr>) = (20000000, CtPing)"
  by (simp_all add: client_session_new_def sample_client_config_def tcp_channel_with_state_def has_buffered_input_def
      client_next_timer_def update_earliest_timer_def udp_is_waiting_def udp_reconnect_at_def udp_register_deadline_def
      upgrade_timer_at_def Let_def)

text \<open>The first timer starts the discovery of a UDP path.\<close>

definition sample_discovering :: "(bytes list, unit) client_loop" where
  "sample_discovering =
     \<lparr>cl_session = (client_session_new 0 sample_client_config (tcp_channel_with_state default_interval_key_updater []))
        \<lparr>cs_discovery_task := True, cs_events := [UdpDiscoveryStarted]\<rparr>,
      cl_next_ping_at = 20000000, cl_defer_tun_until_flush = False\<rparr>"

lemma sample_discovery: "client_turn sample_client_env 1 InTimer sample_client_start = (sample_discovering, Ok ClientContinue)"
proof -
  let ?s = "sample_client_session\<lparr>cs_discovery_task := True, cs_events := [UdpDiscoveryStarted]\<rparr>"
  have "poll_event sample_client_env 1 20000000 True InTimer sample_client_session =
      (sample_client_session, Ok (Some CsUdpReconnectTick))"
    by (simp add: poll_event_def monad_simps)
  moreover have "cs_events sample_client_session = []" by (simp add: client_session_new_def Let_def)
  then have "client_handle_event sample_client_env 1 CsUdpReconnectTick sample_client_session =
      (?s, Ok (ClientContinue, None))"
    by (simp add: client_handle_event_def handle_udp_reconnect_tick_def monad_simps emit_def)
  ultimately show ?thesis
    by (subst client_turn_event [where s = sample_client_session])
      (auto simp: sample_client_start_eq sample_discovering_def tun_scheduling_of_def client_has_pending_udp_flush_def)
qed

text \<open>A reset connection ends a turn with the error.\<close>

lemma sample_read_error:
  "client_turn sample_client_env 2 (InTcpRead (Err KConnectionReset)) sample_discovering =
     (sample_discovering, Err (CeIo KConnectionReset))"
  by (subst client_turn_poll_error [where e = "CeIo KConnectionReset" and s = "cl_session sample_discovering" and
      ?s1.0 = "cl_session sample_discovering"])
    (simp_all add: sample_discovering_def poll_event_def poll_packet_work_def monad_simps)

lemma sample_discovering_reach: "client_reach sample_client_env sample_discovering"
  by (rule client_reach_turn [OF client_reach_start sample_discovery])

section \<open>Properties\<close>

text \<open>C16: In every state the client's session loop reaches, whatever the server sends, whatever the
  transports and timers do and whenever sends fail, UDP is the preferred transport only with an
  active UDP path, and it is preferred whenever TCP is dead; an upgrade attempt runs only while TCP
  is preferred and a path is active, sends at most \<open>MAX_UPGRADE_PROBES\<close> probes and is reported ready
  only after a probe was answered; discovery runs only when a path is needed; and at most one path
  is held.\<close>

theorem reachable_client_transport:
  assumes "client_reach env st" "s = cl_session st"
  shows "(cs_active_transport s = ClientUdpQsp \<longrightarrow> (\<exists>q. cs_udp_state s = UdpActive q)) \<and>
    (\<not> cs_tcp_alive s \<longrightarrow> cs_active_transport s = ClientUdpQsp) \<and>
    (\<forall>g. cs_udp_upgrade s = Upgrading g \<longrightarrow>
       cs_active_transport s = ClientTcp \<and> (\<exists>q. cs_udp_state s = UdpActive q) \<and>
       ug_attempts g \<le> MAX_UPGRADE_PROBES \<and> (ug_ready_sent g \<longrightarrow> ug_probe_acked g)) \<and>
    (\<forall>i d. cs_udp_upgrade s = AwaitingSwitchOk i d \<longrightarrow>
       cs_active_transport s = ClientTcp \<and> (\<exists>q. cs_udp_state s = UdpActive q)) \<and>
    (cs_discovery_task s \<longrightarrow> (\<exists>b t. cs_udp_state s = NeedDiscovery b t)) \<and>
    (\<forall>q. cs_udp_state s = UdpActive q \<longrightarrow> cs_retained_udp_transport s = None)"
proof -
  have "view_inv (view s)" using client_reach_inv [OF assms(1)] assms(2) by simp
  then show ?thesis using view_inv_unfolded [of s] by auto
qed

theorem reachable_client_transport_witness:
  "cs_discovery_task (cl_session sample_discovering) \<and> (\<exists>b t. cs_udp_state (cl_session sample_discovering) = NeedDiscovery b t)"
proof -
  have "cs_discovery_task (cl_session sample_discovering)" by (simp add: sample_discovering_def)
  with reachable_client_transport [OF sample_discovering_reach refl] show ?thesis by simp
qed

text \<open>C17: A turn of a reachable client session never panics: it does not reach an \<open>unreachable!\<close>,
  because validation admits only messages that have a handler, and it never finds the UDP transport
  or the session of a registration missing.\<close>

theorem client_never_panics:
  assumes "client_reach env st" "client_turn env now input st = (st', Err e)"
  shows "e \<noteq> CePanic \<and> e \<noteq> CeProtocolViolation UdpTransportMissing \<and> e \<noteq> CeProtocolViolation UdpSessionMissing"
proof -
  have "clean e" by (rule keeps_error [OF client_turn_safe client_reach_inv [OF assms(1)] assms(2)])
  then show ?thesis by (simp add: clean_def)
qed

theorem client_never_panics_witness:
  "client_turn sample_client_env 2 (InTcpRead (Err KConnectionReset)) sample_discovering =
     (sample_discovering, Err (CeIo KConnectionReset)) \<and> CeIo KConnectionReset \<noteq> CePanic"
  using client_never_panics [OF sample_discovering_reach sample_read_error] sample_read_error by simp

end
