(* ===== verification/Registration.thy ===== *)
theory Registration
  imports Server_Run Client_Run
begin

text \<open>
  The registration of a UDP path across both ends: the client's \<open>REGISTER_CID\<close>
  (\<open>slt-client/src/runtime/session/upgrade.rs\<close>, \<open>runtime/register.rs\<close>), the server's handling
  (\<open>slt-server/src/sessions/register.rs\<close>) and the client's handling of its answer give two UDP-QSP
  sessions that talk to each other.
\<close>

section \<open>The client's side\<close>

text \<open>An environment in which randomness, sockets and TCP writes work.\<close>

definition client_env_works :: "('io, 'k) client_env \<Rightarrow> 'io \<Rightarrow> bool" where
  "client_env_works env io \<longleftrightarrow>
     (\<forall>n. ce_tcp_write env n = WriteDone) \<and> (\<forall>n b. ce_ssl_key_update env n b) \<and>
     (\<forall>n. \<exists>b. ce_random_secret env n = Some b \<and> length b = UDP_QSP_TRAFFIC_SECRET_LEN) \<and>
     (\<forall>n socket peer. ce_io_create env n socket peer = Ok io)"

definition quic_ids_wf :: "'k quic_ids \<Rightarrow> bool" where
  "quic_ids_wf ids \<longleftrightarrow> cid_wf (qi_dcid ids) \<and> cid_len (qi_dcid ids) = MAX_DCID_LEN \<and> cid_wf (qi_scid ids)"

lemma write_tcp_message_works:
  assumes "client_env_works env io" "length (message_payload m) < 2 ^ 32"
  obtains tcp where "write_tcp_message env m c =
    (c\<lparr>cs_calls := Suc (cs_calls c), cs_tcp := tcp, cs_tcp_out := cs_tcp_out c @ [m]\<rparr>, Ok ())"
    "tc_read_buf tcp = tc_read_buf (cs_tcp c)"
proof -
  have "ce_ssl_key_update env (cs_calls c) b" "ce_tcp_write env (cs_calls c) = WriteDone" for b
    using assms(1) by (simp_all add: client_env_works_def)
  with assms(2) obtain tcp where "tcp_write_message (ce_ssl_key_update env (cs_calls c))
      (\<lambda>_. ce_tcp_write env (cs_calls c) = WriteDone) m (cs_tcp c) = (Ok (), tcp)"
      "tc_read_buf tcp = tc_read_buf (cs_tcp c)"
    by (rule_tac tcp_write_message_done [of "ce_ssl_key_update env (cs_calls c)"
        "\<lambda>_. ce_tcp_write env (cs_calls c) = WriteDone" m "cs_tcp c"]) auto
  then show ?thesis
    by (intro that [of tcp]) (simp_all add: write_tcp_message_def client_external_def monad_simps)
qed

lemma u64_from_u32_bound: "unat (u64_from_u32 r) < 2 ^ 32"
proof -
  have "unat (u64_from_u32 r) = take_bit 32 (unat r)"
    by (simp add: u64_from_u32_def unsigned_ucast_eq) (simp add: unsigned_take_bit_eq)
  then show ?thesis using take_bit_nat_less_exp [of 32 "unat r"] by simp
qed

text \<open>What the client prepares: a well-formed registration, and its own session with the same
  secrets and numbers in the opposite roles.\<close>

lemma prepare_registration_works:
  assumes "crypto_ok (ce_crypto env)" "client_env_works env io" "quic_ids_wf ids"
  obtains n reg b keys where
    "prepare_udp_qsp_registration env ids cipher c =
       (c\<lparr>cs_calls := n\<rparr>, Ok \<lparr>pr_payload_buf = b,
          pr_session = Some (quic_qsp_session_new io (qi_scid ids) (qi_dcid ids) keys (rc_pn_start_rx reg) (rc_pn_start reg) False),
          pr_cipher = cipher\<rparr>)"
    "register_cid_wf reg" "register_cid_encode reg [] = Ok b"
    "rc_client_to_server_cid reg = qi_dcid ids" "rc_server_to_client_cid reg = qi_scid ids" "rc_cipher reg = cipher"
    "rc_key_phase reg = False" "unat (rc_pn_start reg) < 2 ^ 32" "unat (rc_pn_start_rx reg) < 2 ^ 32"
    "udp_qsp_keys_new (ce_crypto env) cipher (rc_secret_rx reg) (rc_secret_tx reg) = Ok keys"
proof -
  let ?n = "cs_calls c"
  obtain c2s s2c where secrets: "ce_random_secret env ?n = Some c2s" "ce_random_secret env (Suc ?n) = Some s2c"
    "length c2s = UDP_QSP_TRAFFIC_SECRET_LEN" "length s2c = UDP_QSP_TRAFFIC_SECRET_LEN"
    using assms(2) by (metis client_env_works_def)
  define reg where "reg = registration_payload ids cipher c2s s2c (u64_from_u32 (ce_random env (Suc (Suc ?n))))
    (u64_from_u32 (ce_random env (Suc (Suc (Suc ?n)))))"
  have fields: "rc_client_to_server_cid reg = qi_dcid ids" "rc_server_to_client_cid reg = qi_scid ids"
    "rc_cipher reg = cipher" "rc_key_phase reg = False" "rc_secret_rx reg = c2s" "rc_secret_tx reg = s2c"
    "unat (rc_pn_start reg) < 2 ^ 32" "unat (rc_pn_start_rx reg) < 2 ^ 32"
    by (simp_all add: reg_def registration_payload_def u64_from_u32_bound [simplified])
  have wf: "register_cid_wf reg" using assms(3) secrets by (simp add: register_cid_wf_def fields quic_ids_wf_def)
  obtain b where b: "register_cid_encode reg [] = Ok b" using register_cid_encode_layout [OF wf] by blast
  obtain keys where keys: "udp_qsp_keys_new (ce_crypto env) cipher c2s s2c = Ok keys"
    using udp_qsp_keys_new_Ok [OF assms(1)] secrets(3,4) by blast
  have io: "ce_io_create env k socket peer = Ok io" for k socket peer
    using assms(2) by (simp add: client_env_works_def)
  show ?thesis
    by (rule that [of "Suc (Suc (Suc (Suc (Suc ?n))))" b keys reg])
      (use fields wf b keys io secrets in \<open>simp_all add: prepare_udp_qsp_registration_def random_secret_def
        client_external_def monad_simps Let_def flip: reg_def\<close>)
qed

text \<open>Sending the registration, and taking the answer for it.\<close>

lemma attempt_registration_works:
  assumes "crypto_ok (ce_crypto env)" "client_env_works env io" "quic_ids_wf ids"
    and "cs_udp_state c = UdpPending ids backoff t None"
  obtains reg b keys c' where
    "attempt_udp_registration env now c = (c', Ok ClientContinue)" "cs_tcp_out c' = cs_tcp_out c @ [RegisterCid b]"
    "\<exists>p. cs_udp_state c' = UdpPending ids backoff t (Some p) \<and> pr_session (pg_prepared p) =
       Some (quic_qsp_session_new io (qi_scid ids) (qi_dcid ids) keys (rc_pn_start_rx reg) (rc_pn_start reg) False)"
    "register_cid_wf reg" "register_cid_encode reg [] = Ok b"
    "rc_client_to_server_cid reg = qi_dcid ids" "rc_server_to_client_cid reg = qi_scid ids"
    "rc_cipher reg = select_udp_qsp_cipher env (cs_udp_cipher_policy c)"
    "rc_key_phase reg = False" "unat (rc_pn_start reg) < 2 ^ 32" "unat (rc_pn_start_rx reg) < 2 ^ 32"
    "udp_qsp_keys_new (ce_crypto env) (rc_cipher reg) (rc_secret_rx reg) (rc_secret_tx reg) = Ok keys"
proof -
  let ?cipher = "select_udp_qsp_cipher env (cs_udp_cipher_policy c)"
  obtain n reg b keys where prep: "prepare_udp_qsp_registration env ids ?cipher c =
       (c\<lparr>cs_calls := n\<rparr>, Ok \<lparr>pr_payload_buf = b,
          pr_session = Some (quic_qsp_session_new io (qi_scid ids) (qi_dcid ids) keys (rc_pn_start_rx reg) (rc_pn_start reg) False),
          pr_cipher = ?cipher\<rparr>)"
    and reg: "register_cid_wf reg" "register_cid_encode reg [] = Ok b"
    "rc_client_to_server_cid reg = qi_dcid ids" "rc_server_to_client_cid reg = qi_scid ids" "rc_cipher reg = ?cipher"
    "rc_key_phase reg = False" "unat (rc_pn_start reg) < 2 ^ 32" "unat (rc_pn_start_rx reg) < 2 ^ 32"
    "udp_qsp_keys_new (ce_crypto env) ?cipher (rc_secret_rx reg) (rc_secret_tx reg) = Ok keys"
    by (rule prepare_registration_works [OF assms(1-3), of ?cipher c]) blast
  have "length (message_payload (RegisterCid b)) < 2 ^ 32"
    using register_cid_encoded_len_correct [OF reg(1,2)] by (simp add: MAX_CONTROL_FRAME_LEN_def payload_lens)
  then obtain tcp where "write_tcp_message env (RegisterCid b) (c\<lparr>cs_calls := n\<rparr>) =
      (c\<lparr>cs_calls := Suc n, cs_tcp := tcp, cs_tcp_out := cs_tcp_out c @ [RegisterCid b]\<rparr>, Ok ())"
    using write_tcp_message_works [OF assms(2), of "RegisterCid b" "c\<lparr>cs_calls := n\<rparr>"] by auto
  with prep assms(4) reg show ?thesis
    by (intro that [of _ b keys reg]) (auto simp: attempt_udp_registration_def monad_simps emit_def)
qed

lemma start_udp_upgrade_attempt_works:
  "\<exists>c'. start_udp_upgrade_attempt env now c = (c', Ok ()) \<and> cs_udp_state c' = cs_udp_state c \<and>
     cs_retained_udp_transport c' = cs_retained_udp_transport c"
  by (simp add: start_udp_upgrade_attempt_def monad_simps client_external_def emit_def)

lemma handle_register_ok_works:
  assumes "cs_udp_state c = UdpPending ids backoff t (Some p)" "pr_session (pg_prepared p) = Some q"
    and "register_ok_decode payload = Ok (qi_dcid ids)"
  obtains c' where "client_handle_tcp_message env now (RegisterOk payload) c = (c', Ok ClientContinue)"
    "cs_udp_state c' = UdpActive q" "cs_retained_udp_transport c' = None"
proof -
  have valid: "validate_server_message Tcp (RegisterOk payload) = Ok ()"
    using assms(3) by (simp add: validate_server_message_def client_context_def validate_message_Ok
        validate_message_type_Ok decode_fixed_payload_def)
  let ?c = "emit UdpRegistered (c\<lparr>cs_udp_state := UdpActive q, cs_retained_udp_transport := None,
    cs_last_authenticated_udp_activity := None\<rparr>)"
  obtain c' where "start_udp_upgrade_attempt env now ?c = (c', Ok ())"
    "cs_udp_state c' = cs_udp_state ?c" "cs_retained_udp_transport c' = cs_retained_udp_transport ?c"
    using start_udp_upgrade_attempt_works by blast
  then show ?thesis
    using assms valid
    by (intro that [of c']) (simp_all add: client_handle_tcp_message_def client_dispatch_tcp_message_def
        handle_register_ok_def monad_simps emit_def)
qed

text \<open>A client that found a path to the server of the sample runs.\<close>

definition sample_ids :: "unit quic_ids" where
  "sample_ids =
     \<lparr>qi_dcid = rc_client_to_server_cid sample_register, qi_scid = rc_server_to_client_cid sample_register,
      qi_peer = SocketAddr [127, 0, 0, 1] 443, qi_socket = ()\<rparr>"

definition sample_pending :: "(bytes list, unit) client_session" where
  "sample_pending = sample_client_session\<lparr>cs_udp_state := UdpPending sample_ids (reconnect_backoff_new 4000000 64000000) 0 None\<rparr>"

section \<open>Both sides\<close>

text \<open>The two sessions of a registration.\<close>

lemma registered_sessions_deliver:
  fixes ioc :: 'i and ios :: 'j and ph :: bool
  assumes "crypto_ok cr" "register_cid_wf reg"
    and "unat (rc_pn_start reg) < 2 ^ 32" "unat (rc_pn_start_rx reg) < 2 ^ 32"
    and "udp_qsp_keys_new cr (rc_cipher reg) (rc_secret_rx reg) (rc_secret_tx reg) = Ok kc"
    and "udp_qsp_keys_from_register cr reg = Ok ks"
    and "losses_ok 0 ps" "length ps < 2 ^ 63"
  defines "client \<equiv> quic_qsp_session_new ioc (rc_server_to_client_cid reg) (rc_client_to_server_cid reg) kc
      (rc_pn_start_rx reg) (rc_pn_start reg) ph"
    and "server \<equiv> quic_qsp_session_new ios (rc_client_to_server_cid reg) (rc_server_to_client_cid reg) ks
      (rc_pn_start reg) (rc_pn_start_rx reg) ph"
  shows "run_link cr client server ps = link_deliveries ph (unat (rc_pn_start_rx reg) div 2097152) 2097152 20 (rc_pn_start_rx reg) ps"
    "run_link cr server client ps = link_deliveries ph (unat (rc_pn_start reg) div 2097152) 2097152
       (cid_len (rc_server_to_client_cid reg)) (rc_pn_start reg) ps"
proof -
  have len: "length (rc_secret_rx reg) = UDP_QSP_TRAFFIC_SECRET_LEN" "length (rc_secret_tx reg) = UDP_QSP_TRAFFIC_SECRET_LEN"
    using assms(2) by (simp_all add: register_cid_wf_def)
  obtain k1 where k1: "udp_qsp_keys_new cr (rc_cipher reg) (rc_secret_rx reg) (rc_secret_tx reg) = Ok k1" "udp_qsp_keys_wf k1"
    "direction_keys_from_secret cr (rc_secret_rx reg) (cipher_config_for_suite (rc_cipher reg)) = Ok (ks_tx k1)"
    "direction_keys_from_secret cr (rc_secret_tx reg) (cipher_config_for_suite (rc_cipher reg)) = Ok (ks_rx k1)"
    "ks_cipher k1 = rc_cipher reg" by (rule udp_qsp_keys_new_Ok [OF assms(1) len, of "rc_cipher reg"])
  obtain k2 where k2: "udp_qsp_keys_new cr (rc_cipher reg) (rc_secret_tx reg) (rc_secret_rx reg) = Ok k2" "udp_qsp_keys_wf k2"
    "direction_keys_from_secret cr (rc_secret_tx reg) (cipher_config_for_suite (rc_cipher reg)) = Ok (ks_tx k2)"
    "direction_keys_from_secret cr (rc_secret_rx reg) (cipher_config_for_suite (rc_cipher reg)) = Ok (ks_rx k2)"
    "ks_cipher k2 = rc_cipher reg" by (rule udp_qsp_keys_new_Ok [OF assms(1) len(2,1), of "rc_cipher reg"])
  have "kc = k1" "ks = k2" using assms(5,6) k1(1) k2(1) by (simp_all add: udp_qsp_keys_from_register_def)
  then have keys: "udp_qsp_keys_wf kc" "udp_qsp_keys_wf ks" "ks_cipher ks = ks_cipher kc" "ks_rx ks = ks_tx kc" "ks_rx kc = ks_tx ks"
    using k1 k2 by simp_all
  have cids: "length (cid_as_slice (rc_client_to_server_cid reg)) = cid_len (rc_client_to_server_cid reg)"
    "length (cid_as_slice (rc_server_to_client_cid reg)) = cid_len (rc_server_to_client_cid reg)"
    "cid_len (rc_client_to_server_cid reg) = 20"
    using assms(2) cid_length_as_slice by (simp_all add: register_cid_wf_def MAX_DCID_LEN_def)
  have "run_link cr client server ps = link_deliveries ph (unat (rc_pn_start_rx reg) div 2097152) 2097152
      (cid_len (rc_client_to_server_cid reg)) (rc_pn_start_rx reg) ps"
    unfolding client_def server_def using keys cids assms(4,7,8) by (intro new_sessions_deliver assms(1)) simp_all
  then show "run_link cr client server ps = link_deliveries ph (unat (rc_pn_start_rx reg) div 2097152) 2097152 20 (rc_pn_start_rx reg) ps"
    by (simp only: cids(3))
  show "run_link cr server client ps = link_deliveries ph (unat (rc_pn_start reg) div 2097152) 2097152
      (cid_len (rc_server_to_client_cid reg)) (rc_pn_start reg) ps"
    unfolding client_def server_def using keys cids assms(3,7,8) by (intro new_sessions_deliver assms(1)) simp_all
qed

text \<open>C18: A registration connects the two ends.  When a client whose discovery found a path registers it
  with a server session that allows the cipher and has the route free, and sockets and TCP work, then
  the client's \<open>REGISTER_CID\<close> is accepted, the server answers \<open>REGISTER_OK\<close>, the client activates the
  path, and from then on each end's UDP-QSP session delivers to the other, in both directions, every
  packet that arrives over a link that loses fewer than 128 packets in a row.\<close>

theorem registration_connects:
  assumes "crypto_ok cr" "ce_crypto env = cr" "ev_crypto senv = cr"
    and "client_env_works env io" "quic_ids_wf ids" "cs_udp_state c = UdpPending ids backoff t None"
    and "select_udp_qsp_cipher env (cs_udp_cipher_policy c) \<in> set (ss_allowed_ciphers s)"
    and "cid_prefix (qi_dcid ids) = Ok p"
    and "insert_cid (ss_client_id s) (ss_session_id s) p (ss_tx s) (ss_registry s) = (r, Ok ())"
    and "ev_io_create senv (ss_calls s) placeholder_peer = Ok sio"
    and "ss_active_transport s = ActiveTcp"
    and "\<not> ss_tcp_write_interrupted s" "\<And>n. ev_tcp_write senv n = WriteDone" "\<And>n b. ev_ssl_key_update senv n b"
  shows "\<exists>c1 b s' ok c2 qc qs pnc pns.
    attempt_udp_registration env now c = (c1, Ok ClientContinue) \<and> cs_tcp_out c1 = cs_tcp_out c @ [RegisterCid b] \<and>
    handle_tcp_message senv (RegisterCid b) s = (s', Ok Continue) \<and> ss_tcp_out s' = ss_tcp_out s @ [RegisterOk ok] \<and>
    client_handle_tcp_message env now' (RegisterOk ok) c1 = (c2, Ok ClientContinue) \<and>
    cs_udp_state c2 = UdpActive qc \<and> ss_udp_session s' = Some qs \<and>
    (\<forall>ps. losses_ok 0 ps \<and> length ps < 2 ^ 63 \<longrightarrow>
       run_link cr qc qs ps = link_deliveries False (unat pnc div 2097152) 2097152 20 pnc ps \<and>
       run_link cr qs qc ps = link_deliveries False (unat pns div 2097152) 2097152 (cid_len (qi_scid ids)) pns ps)"
proof -
  obtain reg b keys c1 where c1: "attempt_udp_registration env now c = (c1, Ok ClientContinue)"
    "cs_tcp_out c1 = cs_tcp_out c @ [RegisterCid b]"
    "\<exists>p. cs_udp_state c1 = UdpPending ids backoff t (Some p) \<and> pr_session (pg_prepared p) =
       Some (quic_qsp_session_new io (qi_scid ids) (qi_dcid ids) keys (rc_pn_start_rx reg) (rc_pn_start reg) False)"
    and reg: "register_cid_wf reg" "register_cid_encode reg [] = Ok b"
    "rc_client_to_server_cid reg = qi_dcid ids" "rc_server_to_client_cid reg = qi_scid ids"
    "rc_cipher reg = select_udp_qsp_cipher env (cs_udp_cipher_policy c)"
    "rc_key_phase reg = False" "unat (rc_pn_start reg) < 2 ^ 32" "unat (rc_pn_start_rx reg) < 2 ^ 32"
    and keys: "udp_qsp_keys_new cr (rc_cipher reg) (rc_secret_rx reg) (rc_secret_tx reg) = Ok keys"
    using attempt_registration_works [OF _ assms(4-6), of now] assms(1,2) by (metis (no_types, lifting))
  obtain b' where "register_cid_encode reg [] = Ok b'" "register_cid_decode b' = Ok reg"
    "validate_client_message Tcp (RegisterCid b') = Ok ()" using register_cid_message [OF reg(1)] by blast
  then have b: "register_cid_decode b = Ok reg" "validate_client_message Tcp (RegisterCid b) = Ok ()"
    using reg(2) by simp_all
  obtain ks where ks: "udp_qsp_keys_from_register cr reg = Ok ks"
    using udp_qsp_keys_new_Ok [OF assms(1)] reg(1) by (metis register_cid_wf_def udp_qsp_keys_from_register_def)
  let ?qs = "quic_qsp_session_new sio (rc_client_to_server_cid reg) (rc_server_to_client_cid reg) ks
    (rc_pn_start reg) (rc_pn_start_rx reg) False"
  let ?ok = "20 # cid_as_slice (qi_dcid ids)"
  obtain s' where s': "handle_register_cid senv b s = (s', Ok Continue)" "ss_udp_session s' = Some ?qs"
    "ss_tcp_out s' = ss_tcp_out s @ [RegisterOk ?ok]"
    using handle_register_cid_accepts [of b reg s senv ks p r sio] assms(3,7-14) b(1) reg ks by auto
  then have served: "handle_tcp_message senv (RegisterCid b) s = (s', Ok Continue)"
    using b(2) assms(11) by (simp add: handle_tcp_message_def dispatch_tcp_message_def comp_simps)
  have "register_ok_decode ?ok = Ok (qi_dcid ids)"
    using assms(5) by (simp add: quic_ids_wf_def register_ok_decode_Ok_iff MAX_DCID_LEN_def)
  then obtain c2 where c2: "client_handle_tcp_message env now' (RegisterOk ?ok) c1 = (c2, Ok ClientContinue)"
    "cs_udp_state c2 = UdpActive (quic_qsp_session_new io (qi_scid ids) (qi_dcid ids) keys (rc_pn_start_rx reg) (rc_pn_start reg) False)"
    using c1(3) handle_register_ok_works by (metis (no_types, lifting))
  show ?thesis
    using c1(1,2) served s'(2,3) c2 registered_sessions_deliver [OF assms(1) reg(1,7,8) keys ks] reg(3,4)
    by (intro exI conjI) auto
qed

theorem registration_connects_witness:
  "\<exists>c1 b s' ok c2 qc qs pnc.
    attempt_udp_registration sample_client_env 1 sample_pending = (c1, Ok ClientContinue) \<and>
    handle_tcp_message sample_server_env (RegisterCid b) sample_server_session = (s', Ok Continue) \<and>
    client_handle_tcp_message sample_client_env 2 (RegisterOk ok) c1 = (c2, Ok ClientContinue) \<and>
    cs_udp_state c2 = UdpActive qc \<and> ss_udp_session s' = Some qs \<and>
    run_link plain_crypto qc qs [([7], True)] =
      link_deliveries False (unat pnc div 2097152) 2097152 20 pnc [([7], True)]"
proof -
  have works: "client_env_works sample_client_env []"
    by (simp add: client_env_works_def sample_client_env_def UDP_QSP_TRAFFIC_SECRET_LEN_def)
  have ids: "quic_ids_wf sample_ids"
    using sample_register_wf by (simp add: quic_ids_wf_def sample_ids_def register_cid_wf_def)
  obtain p where p: "cid_prefix (qi_dcid sample_ids) = Ok p" using ids cid_prefix_Ok unfolding quic_ids_wf_def by blast
  obtain r where r: "insert_cid (ClientId [1]) 1 p (ss_tx sample_server_session)
      (snd (register_session (ClientId [1]) (Ipv4Addr 10 0 0 2) 0 registry_new)) = (r, Ok ())"
    by (simp add: insert_cid_def register_session_def registry_new_def Let_def)
  have "select_udp_qsp_cipher sample_client_env (cs_udp_cipher_policy sample_pending) = ChaCha20Poly1305"
    by (simp add: select_udp_qsp_cipher_def sample_client_env_def sample_pending_def client_session_new_def
        sample_client_config_def Let_def)
  then obtain c1 b s' ok c2 qc qs pnc where
    "attempt_udp_registration sample_client_env 1 sample_pending = (c1, Ok ClientContinue)"
    "handle_tcp_message sample_server_env (RegisterCid b) sample_server_session = (s', Ok Continue)"
    "client_handle_tcp_message sample_client_env 2 (RegisterOk ok) c1 = (c2, Ok ClientContinue)"
    "cs_udp_state c2 = UdpActive qc" "ss_udp_session s' = Some qs"
    "\<forall>ps. losses_ok 0 ps \<and> length ps < 2 ^ 63 \<longrightarrow>
       run_link plain_crypto qc qs ps = link_deliveries False (unat pnc div 2097152) 2097152 20 pnc ps"
    using registration_connects [of plain_crypto sample_client_env sample_server_env "[]" sample_ids sample_pending
        "reconnect_backoff_new 4000000 64000000" 0 sample_server_session p r _ 1 2] works ids p r plain_crypto_ok
    by (fastforce simp: sample_pending_def sample_client_env_def)
  moreover have "losses_ok 0 [([7], True)] \<and> length [([7 :: u8], True)] < 2 ^ 63" by simp
  ultimately show ?thesis by blast
qed

end
