(* ===== verification/Authentication.thy ===== *)
theory Authentication
  imports Server_Loop "HOL-Library.AList"
begin

text \<open>
  Authentication on the server (\<open>slt-server/src/auth\<close>): the allowlist, the session manager and the
  auth phase, with what each of them does to the table of sessions.

  The Ed25519 verifier and the challenge exported from TLS are parameters.  The auth phase runs under
  a deadline: a read or write that the deadline cuts short ends it with a timeout.  The clock is read
  when a session is created.
\<close>

section \<open>Errors\<close>

datatype auth_error =
    AeTlsHandshake | AeTlsHandshakeTimeout | AeChallengeExport | AeTimeout | AeConnectionClosed
  | AeConnection io_kind | AeProtocolViolation message_type | AeFrame frame_error
  | AeMessage message_error | AePayload payload_error | AePanic

fun requires_protocol_close :: "auth_error \<Rightarrow> bool" where
  "requires_protocol_close (AeProtocolViolation _) = True"
| "requires_protocol_close (AeMessage _) = True"
| "requires_protocol_close (AePayload _) = True"
| "requires_protocol_close _ = False"

fun auth_error_from_validation :: "message_validation_error \<Rightarrow> auth_error" where
  "auth_error_from_validation (InvalidPayload _ source) = AePayload source"
| "auth_error_from_validation (InvalidDirection t _) = AeProtocolViolation t"
| "auth_error_from_validation (InvalidPhase t _) = AeProtocolViolation t"
| "auth_error_from_validation (InvalidTransport t _) = AeProtocolViolation t"

section \<open>The allowlist\<close>

record server_client =
  sc_client_id :: client_id
  sc_pubkey_ed25519 :: bytes
  sc_assigned_ipv4 :: ipv4_addr
  sc_enabled :: bool

record authenticator =
  au_clients :: "client_id \<rightharpoonup> server_client"
  au_tun_mtu :: u16

text \<open>Later entries of the configuration replace earlier ones.\<close>

definition authenticator_from_config :: "server_client list \<Rightarrow> u16 \<Rightarrow> authenticator" where
  "authenticator_from_config clients tun_mtu =
     \<lparr>au_clients = map_of (rev (map (\<lambda>c. (sc_client_id c, c)) clients)), au_tun_mtu = tun_mtu\<rparr>"

text \<open>\<open>key_ok\<close> parses a public key, \<open>verify\<close> is \<open>verify_strict\<close>.\<close>

definition verify_auth_payload ::
    "(bytes \<Rightarrow> bool) \<Rightarrow> (bytes \<Rightarrow> bytes \<Rightarrow> bytes \<Rightarrow> bool) \<Rightarrow> authenticator \<Rightarrow> auth_payload \<Rightarrow> bytes \<Rightarrow>
     (ipv4_addr, auth_fail_code) result" where
  "verify_auth_payload key_ok verify a payload challenge =
     (case au_clients a (ap_client_id payload) of
        None \<Rightarrow> Err UnknownClient
      | Some client \<Rightarrow>
          if \<not> sc_enabled client then Err ClientDisabled
          else if sc_assigned_ipv4 client \<noteq> ap_assigned_ipv4 payload then Err IpMismatch
          else if au_tun_mtu a \<noteq> ap_tun_mtu payload then Err MtuMismatch
          else if ap_challenge payload \<noteq> challenge then Err ChallengeInvalid
          else
            let context = auth_signature_context (ap_client_id payload) (ap_assigned_ipv4 payload)
                            (ap_tun_mtu payload) challenge in
            if \<not> key_ok (sc_pubkey_ed25519 client) then Err BadSignature
            else if \<not> verify (sc_pubkey_ed25519 client) context (ap_signature payload) then Err BadSignature
            else Ok (sc_assigned_ipv4 client))"

section \<open>The session manager\<close>

text \<open>\<open>ms_shutdown\<close>: the shutdown sender is still held.  The manager's table is an association
  list.  \<open>sm_notified\<close> logs the shutdown signals sent and \<open>sm_spawned\<close> the sessions started.\<close>

record managed_session =
  ms_session_id :: u64
  ms_shutdown :: bool

record ('io, 'tx) session_manager =
  sm_registry :: "'tx registry"
  sm_accepting_sessions :: bool
  sm_sessions :: "(client_id \<times> managed_session) list"
  sm_limits :: message_limits
  sm_session_timeouts :: session_timeouts
  sm_session_queue_size :: nat
  sm_allowed_ciphers :: "cipher_suite list"
  sm_notified :: "(u64 \<times> session_shutdown_reason) list"
  sm_spawned :: "('io, 'tx) server_session list"

definition remove_session_if_current ::
    "client_id \<Rightarrow> u64 \<Rightarrow> ('io, 'tx) session_manager \<Rightarrow> ('io, 'tx) session_manager" where
  "remove_session_if_current client_id session_id m =
     (case map_of (sm_sessions m) client_id of
        None \<Rightarrow> m
      | Some session \<Rightarrow>
          if ms_session_id session = session_id
          then m\<lparr>sm_sessions := AList.delete client_id (sm_sessions m)\<rparr> else m)"

definition start_shutdown :: "('io, 'tx) session_manager \<Rightarrow> ('io, 'tx) session_manager" where
  "start_shutdown m =
     m\<lparr>sm_accepting_sessions := False,
       sm_sessions := map (\<lambda>(c, session). (c, session\<lparr>ms_shutdown := False\<rparr>)) (sm_sessions m),
       sm_notified := sm_notified m @
         map (\<lambda>(c, session). (ms_session_id session, ServerRestart))
           (filter (\<lambda>(c, session). ms_shutdown session) (sm_sessions m))\<rparr>"

text \<open>\<open>tx\<close> is the sender of the new session's event channel.\<close>

definition spawn_session ::
    "nat \<Rightarrow> 'tx \<Rightarrow> client_id \<Rightarrow> ipv4_addr \<Rightarrow> tcp_channel \<Rightarrow> ('io, 'tx) session_manager \<Rightarrow>
     ('io, 'tx) session_manager \<times> (unit, io_kind) result" where
  "spawn_session now tx client_id assigned_ip tcp_channel m =
     (if \<not> sm_accepting_sessions m then (m, Err KConnectionAborted)
      else
        let (handle, registry) = register_session client_id assigned_ip tx (sm_registry m);
            session_id = sh_session_id handle;
            replaced = map_of (sm_sessions m) client_id;
            m = m\<lparr>sm_registry := registry,
                  sm_sessions := AList.update client_id
                    \<lparr>ms_session_id = session_id, ms_shutdown = True\<rparr> (sm_sessions m)\<rparr>;
            m = (case replaced of
                   None \<Rightarrow> m
                 | Some old \<Rightarrow>
                     if ms_shutdown old
                     then m\<lparr>sm_notified := sm_notified m @ [(ms_session_id old, Takeover)]\<rparr> else m);
            session = server_session_new now session_id client_id assigned_ip tcp_channel registry tx
                        (sm_limits m) (sm_session_timeouts m) (sm_allowed_ciphers m)
        in (m\<lparr>sm_spawned := sm_spawned m @ [session]\<rparr>, Ok ()))"

section \<open>The server's auth phase\<close>

datatype auth_phase_result = Authenticated | Completed | Rejected auth_fail_code

datatype auth_step = AuthContinue | AuthDone auth_phase_result

record auth_env =
  ae_authenticator :: authenticator
  ae_key_ok :: "bytes \<Rightarrow> bool"
  ae_verify :: "bytes \<Rightarrow> bytes \<Rightarrow> bytes \<Rightarrow> bool"
  ae_ssl_key_update :: "nat \<Rightarrow> bool \<Rightarrow> bool"
  ae_tcp_write :: "nat \<Rightarrow> write_outcome"

record ('io, 'tx) auth_state =
  as_tcp :: "tcp_channel option"
  as_manager :: "('io, 'tx) session_manager"
  as_out :: "message list"
  as_calls :: nat

type_synonym ('io, 'tx, 'a) auth_comp = "(('io, 'tx) auth_state, 'a, auth_error) comp"

definition auth_send_message :: "auth_env \<Rightarrow> message \<Rightarrow> ('io, 'tx, unit) auth_comp" where
  "auth_send_message env m s =
     (case as_tcp s of
        None \<Rightarrow> (s, Err (AeConnection KOther))
      | Some tcp \<Rightarrow>
          let out = ae_tcp_write env (as_calls s);
              s' = s\<lparr>as_calls := Suc (as_calls s)\<rparr> in
          (case tcp_write_message (ae_ssl_key_update env (as_calls s)) (\<lambda>_. out = WriteDone) m tcp of
             (Inr _, tcp') \<Rightarrow> (s'\<lparr>as_tcp := Some tcp', as_out := as_out s @ [m]\<rparr>, Ok ())
           | (Inl (TcpFrame frame), tcp') \<Rightarrow> (s'\<lparr>as_tcp := Some tcp'\<rparr>, Err (AeFrame frame))
           | (Inl (TcpIo TlsKeyUpdateFailed), tcp') \<Rightarrow> (s'\<lparr>as_tcp := Some tcp'\<rparr>, Err (AeConnection KOther))
           | (Inl (TcpIo TlsWriteFailed), tcp') \<Rightarrow>
               (s'\<lparr>as_tcp := Some tcp'\<rparr>,
                Err (case out of WriteTimedOut \<Rightarrow> AeTimeout | WriteFailed k \<Rightarrow> AeConnection k
                     | WriteDone \<Rightarrow> AeConnection KOther))))"

text \<open>Ends the phase with \<open>e\<close> after trying to tell the peer.\<close>

definition send_protocol_error_close_best_effort :: "auth_env \<Rightarrow> auth_error \<Rightarrow> ('io, 'tx, 'a) auth_comp" where
  "send_protocol_error_close_best_effort env e =
     smatch (auth_send_message env (Close (close_encode CloseProtocolError [])))
       (\<lambda>err. sfail (if err = AeTimeout then AeTimeout else e)) (\<lambda>_. sfail e)"

definition create_session :: "nat \<Rightarrow> 'tx \<Rightarrow> client_id \<Rightarrow> ipv4_addr \<Rightarrow> ('io, 'tx, unit) auth_comp" where
  "create_session now tx client_id assigned_ip s =
     (if sm_session_queue_size (as_manager s) = 0 then (s, Err (AeConnection KInvalidInput))
      else
        case as_tcp s of
          None \<Rightarrow> (s, Err (AeConnection KOther))
        | Some tcp_channel \<Rightarrow>
            let (m, r) = spawn_session now tx client_id assigned_ip tcp_channel (as_manager s) in
            (s\<lparr>as_tcp := None, as_manager := m\<rparr>, map_err AeConnection r))"

definition handle_auth ::
    "auth_env \<Rightarrow> nat \<Rightarrow> 'tx \<Rightarrow> bytes \<Rightarrow> bytes \<Rightarrow> ('io, 'tx, auth_step) auth_comp" where
  "handle_auth env now tx challenge payload =
     sbind (slift (map_err AePayload (auth_payload_decode payload))) (\<lambda>auth.
       case verify_auth_payload (ae_key_ok env) (ae_verify env) (ae_authenticator env) auth challenge of
         Inr assigned_ip \<Rightarrow>
           sseq (auth_send_message env (AuthOk (auth_ok_payload_encode () [])))
           (sseq (create_session now tx (ap_client_id auth) assigned_ip)
             (sreturn (AuthDone Authenticated)))
       | Inl code \<Rightarrow>
           sseq (auth_send_message env (AuthFail (auth_fail_payload_encode code [])))
             (sreturn (AuthDone (Rejected code))))"

definition handle_auth_message ::
    "auth_env \<Rightarrow> nat \<Rightarrow> 'tx \<Rightarrow> bytes \<Rightarrow> message \<Rightarrow> ('io, 'tx, auth_step) auth_comp" where
  "handle_auth_message env now tx challenge m =
     sseq (slift (map_err auth_error_from_validation (validate_message m
             \<lparr>ctx_sender = FromClient, ctx_phase = Authentication, ctx_transport = Tcp\<rparr>)))
     (case m of
        Auth payload \<Rightarrow> handle_auth env now tx challenge payload
      | Ping payload \<Rightarrow>
          sbind (slift (map_err AePayload (ping_decode payload))) (\<lambda>ping.
            sseq (auth_send_message env (Pong (pong_encode \<lparr>pong_nonce = ping_nonce ping\<rparr> [])))
              (sreturn AuthContinue))
      | Pong payload \<Rightarrow>
          sbind (slift (map_err AePayload (pong_decode payload))) (\<lambda>_. sreturn AuthContinue)
      | Close payload \<Rightarrow>
          sbind (slift (map_err AePayload (close_decode payload))) (\<lambda>_. sreturn (AuthDone Completed))
      | _ \<Rightarrow> sfail AePanic)"

section \<open>What a handler keeps\<close>

text \<open>The channel with what was read from it, and the session manager.\<close>

definition auth_frame :: "('io, 'tx) auth_state \<Rightarrow> ('io, 'tx) auth_state \<Rightarrow> bool" where
  "auth_frame s0 s \<longleftrightarrow>
     map_option tc_read_buf (as_tcp s) = map_option tc_read_buf (as_tcp s0) \<and> as_manager s = as_manager s0"

text \<open>A message was an \<open>AUTH\<close> with verified credentials, for which a session was started.\<close>

definition session_granted ::
    "auth_env \<Rightarrow> nat \<Rightarrow> 'tx \<Rightarrow> bytes \<Rightarrow> ('io, 'tx) session_manager \<Rightarrow> ('io, 'tx) session_manager \<Rightarrow> bool" where
  "session_granted env now tx challenge m0 m \<longleftrightarrow>
     (\<exists>p tcp ip. verify_auth_payload (ae_key_ok env) (ae_verify env) (ae_authenticator env) p challenge = Ok ip \<and>
        spawn_session now tx (ap_client_id p) ip tcp m0 = (m, Ok ()))"

lemma auth_send_message_frame:
  "hoare (auth_frame s0) (auth_send_message env m) (\<lambda>_. auth_frame s0) (\<lambda>e s. auth_frame s0 s \<and> e \<noteq> AePanic)"
proof -
  have "auth_frame s0 s' \<and> r \<noteq> Err AePanic" if "auth_frame s0 s" "auth_send_message env m s = (s', r)" for s s' r
  proof (cases "as_tcp s")
    case None
    then show ?thesis using that by (auto simp: auth_send_message_def)
  next
    case (Some tcp)
    obtain w tcp' where w: "tcp_write_message (ae_ssl_key_update env (as_calls s))
        (\<lambda>_. ae_tcp_write env (as_calls s) = WriteDone) m tcp = (w, tcp')" by fastforce
    show ?thesis
      using that Some w tcp_write_message_read_buf [OF w]
      by (auto simp: auth_send_message_def auth_frame_def Let_def
          split: sum.splits tcp_write_error.splits io_error.splits write_outcome.splits)
  qed
  then show ?thesis by (intro hoareI) blast+
qed

lemma create_session_granted:
  assumes "verify_auth_payload (ae_key_ok env) (ae_verify env) (ae_authenticator env) p challenge = Ok ip"
  shows "hoare (auth_frame s0) (create_session now tx (ap_client_id p) ip)
    (\<lambda>_ s. session_granted env now tx challenge (as_manager s0) (as_manager s))
    (\<lambda>e s. as_manager s = as_manager s0 \<and> e \<noteq> AePanic)"
proof (rule hoareI, goal_cases)
  case (1 s s' a)
  then obtain tcp m where "spawn_session now tx (ap_client_id p) ip tcp (as_manager s0) = (m, Ok ())" "as_manager s' = m"
    by (auto simp: create_session_def auth_frame_def split: if_splits option.splits prod.splits)
  then show ?case using assms by (auto simp: session_granted_def)
next
  case (2 s s' e)
  then show ?case
    by (auto simp: create_session_def auth_frame_def spawn_session_def Let_def split: if_splits option.splits prod.splits)
qed

lemma handle_auth_granted:
  "hoare (auth_frame s0) (handle_auth env now tx challenge payload)
    (\<lambda>step s. step \<noteq> AuthContinue \<and>
       (if step = AuthDone Authenticated then session_granted env now tx challenge (as_manager s0) (as_manager s)
        else as_manager s = as_manager s0))
    (\<lambda>e s. as_manager s = as_manager s0 \<and> e \<noteq> AePanic)"
proof -
  have send: "hoare (auth_frame s0) (auth_send_message env m) (\<lambda>_. auth_frame s0) (\<lambda>e s. as_manager s = as_manager s0 \<and> e \<noteq> AePanic)" for m
    by (rule hoare_weaken [OF auth_send_message_frame]) (auto simp: auth_frame_def)
  show ?thesis
    unfolding handle_auth_def
  proof (rule lift_binds, goal_cases)
    case 1 then show ?case by (auto simp: auth_frame_def)
  next
    case (2 auth)
    show ?case
    proof (rule result_cases, goal_cases)
      case 1
      show ?case by (rule seqs [OF send]) (rule returns, simp add: auth_frame_def)
    next
      case (2 ip)
      show ?case by (rule seqs [OF send], rule seqs [OF create_session_granted [OF 2]], rule returns) simp
    qed
  qed
qed

lemma handle_auth_message_granted:
  "hoare (auth_frame s0) (handle_auth_message env now tx challenge m)
    (\<lambda>step s. case step of AuthContinue \<Rightarrow> auth_frame s0 s
       | AuthDone Authenticated \<Rightarrow> session_granted env now tx challenge (as_manager s0) (as_manager s)
       | AuthDone _ \<Rightarrow> as_manager s = as_manager s0)
    (\<lambda>e s. as_manager s = as_manager s0 \<and> e \<noteq> AePanic)" (is "hoare _ _ ?Q ?E")
  unfolding handle_auth_message_def
proof (rule lift_seqs, goal_cases)
  case (1 e s)
  then obtain v where "e = auth_error_from_validation v" by auto
  then show ?case using 1 by (cases v) (auto simp: auth_frame_def)
next
  case 2
  then have ty: "message_ty m \<in> {TyAuth, TyPing, TyPong, TyClose}"
    by (cases m) (simp_all add: validate_message_Ok validate_message_type_Ok)
  have auth: "hoare (auth_frame s0) (handle_auth env now tx challenge p) ?Q ?E" for p
    by (rule hoare_weaken [OF handle_auth_granted]) (auto split: auth_step.split auth_phase_result.split if_splits)
  have send: "hoare (auth_frame s0) (auth_send_message env n) (\<lambda>_. auth_frame s0) ?E" for n
    by (rule hoare_weaken [OF auth_send_message_frame]) (auto simp: auth_frame_def)
  have ping: "hoare (auth_frame s0) (sbind (slift (map_err AePayload (ping_decode p))) (\<lambda>ping.
      sseq (auth_send_message env (Pong (pong_encode \<lparr>pong_nonce = ping_nonce ping\<rparr> []))) (sreturn AuthContinue))) ?Q ?E" for p
    by (rule lift_binds, simp add: auth_frame_def, elim exE conjE, simp,
        rule seqs [OF send], rule returns) simp
  have rest: "hoare (auth_frame s0) (sbind (slift (map_err AePayload d)) (\<lambda>_. sreturn step)) ?Q ?E"
    if "step = AuthContinue \<or> step = AuthDone Completed" for d step
    by (rule lift_binds, simp add: auth_frame_def, elim exE conjE, simp, rule returns) (use that in \<open>auto simp: auth_frame_def\<close>)
  show ?case using ty by (cases m) (simp_all add: auth ping rest)
qed

section \<open>The loop of the auth phase\<close>

function auth_message_loop ::
    "auth_env \<Rightarrow> nat \<Rightarrow> 'tx \<Rightarrow> bytes \<Rightarrow> ('io, 'tx, auth_phase_result option) auth_comp" where
  "auth_message_loop env now tx challenge s =
     (case as_tcp s of
        None \<Rightarrow> (s, Err (AeConnection KOther))
      | Some tcp \<Rightarrow>
          (case try_pop_message (sm_limits (as_manager s)) tcp of
             (Inl e, tcp') \<Rightarrow> send_protocol_error_close_best_effort env (AeMessage e) (s\<lparr>as_tcp := Some tcp'\<rparr>)
           | (Inr None, tcp') \<Rightarrow> (s\<lparr>as_tcp := Some tcp'\<rparr>, Ok None)
           | (Inr (Some (ty, buf)), tcp') \<Rightarrow>
               (case handle_auth_message env now tx challenge (owned_message ty buf) (s\<lparr>as_tcp := Some tcp'\<rparr>) of
                  (s', Inl e) \<Rightarrow>
                    if requires_protocol_close e then send_protocol_error_close_best_effort env e s'
                    else (s', Err e)
                | (s', Inr AuthContinue) \<Rightarrow> auth_message_loop env now tx challenge s'
                | (s', Inr (AuthDone result)) \<Rightarrow> (s', Ok (Some result)))))"
  by pat_completeness auto

termination auth_message_loop
proof (relation "measure (\<lambda>(env, now, tx, challenge, s). case as_tcp s of None \<Rightarrow> 0 | Some tcp \<Rightarrow> length (tc_read_buf tcp))",
    goal_cases)
  case 1
  then show ?case by simp
next
  case (2 env now tx challenge s tcp popped tcp' b f ty buf s' r step)
  have "handle_auth_message env now tx challenge (owned_message ty buf) (s\<lparr>as_tcp := Some tcp'\<rparr>) = (s', Ok AuthContinue)"
    using 2 by simp
  from hoareD_Ok [OF handle_auth_message_granted _ this, of "s\<lparr>as_tcp := Some tcp'\<rparr>"]
  have "map_option tc_read_buf (as_tcp s') = Some (tc_read_buf tcp')" by (simp add: auth_frame_def)
  moreover have "length (tc_read_buf tcp') < length (tc_read_buf tcp)"
    using 2 by (intro try_pop_message_decreases [where limits = "sm_limits (as_manager s)" and r = "(ty, buf)"]) simp
  ultimately show ?case using 2 by auto
qed

declare auth_message_loop.simps [simp del]

text \<open>The reads of the phase: what arrived, or the deadline.\<close>

datatype auth_input = AuthRead "(bytes, io_kind) result" | AuthDeadline

fun run_auth_loop ::
    "auth_env \<Rightarrow> nat \<Rightarrow> 'tx \<Rightarrow> bytes \<Rightarrow> ('io, 'tx) auth_state \<Rightarrow> auth_input list \<Rightarrow>
     (('io, 'tx) auth_state \<times> (auth_phase_result, auth_error) result) option" where
  "run_auth_loop env now tx challenge s [] = None"
| "run_auth_loop env now tx challenge s (AuthDeadline # rest) = Some (s, Err AeTimeout)"
| "run_auth_loop env now tx challenge s (AuthRead res # rest) =
     (case as_tcp s of
        None \<Rightarrow> Some (s, Err (AeConnection KOther))
      | Some tcp \<Rightarrow>
          (case res of
             Inl source \<Rightarrow> Some (s, Err (AeConnection source))
           | Inr chunk \<Rightarrow>
               if chunk = [] then Some (s, Err AeConnectionClosed)
               else
                 (case auth_message_loop env now tx challenge (s\<lparr>as_tcp := Some (tcp_read_more chunk tcp)\<rparr>) of
                    (s', Inl e) \<Rightarrow> Some (s', Err e)
                  | (s', Inr (Some result)) \<Rightarrow> Some (s', Ok result)
                  | (s', Inr None) \<Rightarrow> run_auth_loop env now tx challenge s' rest)))"

datatype auth_metric = AuthSuccesses | AuthFailures | AuthRejections

fun record_result :: "(auth_phase_result, auth_error) result \<Rightarrow> auth_metric list" where
  "record_result (Inr Authenticated) = [AuthSuccesses]"
| "record_result (Inr Completed) = []"
| "record_result (Inr (Rejected _)) = [AuthFailures, AuthRejections]"
| "record_result (Inl _) = [AuthFailures]"

lemma send_protocol_error_close_frame:
  assumes "send_protocol_error_close_best_effort env e s = (s', r)" "e \<noteq> AePanic"
  shows "as_manager s' = as_manager s \<and> (\<exists>e'. r = Err e' \<and> e' \<noteq> AePanic)"
proof -
  obtain s1 r1 where send: "auth_send_message env (Close (close_encode CloseProtocolError [])) s = (s1, r1)" by fastforce
  have "auth_frame s s1"
    by (rule keeps_state [OF auth_send_message_frame _ send]) (simp add: auth_frame_def)
  then show ?thesis using assms send
    by (auto simp: send_protocol_error_close_best_effort_def monad_simps auth_frame_def split: sum.splits if_splits)
qed

text \<open>What a run of the message loop does to the session manager.\<close>

definition auth_outcome_ok ::
    "auth_env \<Rightarrow> nat \<Rightarrow> 'tx \<Rightarrow> bytes \<Rightarrow> ('io, 'tx) session_manager \<Rightarrow>
     (auth_phase_result option, auth_error) result \<Rightarrow> ('io, 'tx) session_manager \<Rightarrow> bool" where
  "auth_outcome_ok env now tx challenge m0 r m \<longleftrightarrow>
     r \<noteq> Err AePanic \<and>
     (if r = Ok (Some Authenticated) then session_granted env now tx challenge m0 m else m = m0)"

lemma auth_message_loop_outcome:
  "auth_message_loop env now tx challenge s = (s', r) \<Longrightarrow>
   auth_outcome_ok env now tx challenge (as_manager s) r (as_manager s')"
proof (induction env now tx challenge s rule: auth_message_loop.induct)
  case (1 env now tx challenge s)
  note eq = 1(2) [unfolded auth_message_loop.simps [of env now tx challenge s]]
  show ?case
  proof (cases "as_tcp s")
    case None
    then show ?thesis using eq by (auto simp: auth_outcome_ok_def)
  next
    case tcp: (Some tcp)
    obtain popped tcp' where pop: "try_pop_message (sm_limits (as_manager s)) tcp = (popped, tcp')" by fastforce
    let ?s = "s\<lparr>as_tcp := Some tcp'\<rparr>"
    show ?thesis
    proof (cases popped)
      case (Inl e)
      then have "send_protocol_error_close_best_effort env (AeMessage e) ?s = (s', r)" using eq tcp pop by simp
      from send_protocol_error_close_frame [OF this] show ?thesis by (auto simp: auth_outcome_ok_def)
    next
      case found: (Inr found)
      show ?thesis
      proof (cases found)
        case None
        then show ?thesis using eq tcp pop found by (auto simp: auth_outcome_ok_def)
      next
        case (Some f)
        obtain ty buf where f: "f = (ty, buf)" by fastforce
        obtain s1 r1 where run: "handle_auth_message env now tx challenge (owned_message ty buf) ?s = (s1, r1)" by fastforce
        show ?thesis
        proof (cases r1)
          case (Inl e)
          then have e: "as_manager s1 = as_manager s" "e \<noteq> AePanic"
            using hoareD_Err [OF handle_auth_message_granted, of ?s ?s] run by (auto simp: auth_frame_def)
          show ?thesis
          proof (cases "requires_protocol_close e")
            case True
            then have "send_protocol_error_close_best_effort env e s1 = (s', r)"
              using eq tcp pop found Some f run Inl by simp
            from send_protocol_error_close_frame [OF this e(2)] e show ?thesis by (auto simp: auth_outcome_ok_def)
          next
            case False
            then show ?thesis using eq tcp pop found Some f run Inl e by (auto simp: auth_outcome_ok_def)
          qed
        next
          case r1: (Inr step)
          have step: "case step of AuthContinue \<Rightarrow> auth_frame ?s s1
              | AuthDone Authenticated \<Rightarrow> session_granted env now tx challenge (as_manager ?s) (as_manager s1)
              | AuthDone _ \<Rightarrow> as_manager s1 = as_manager ?s"
            using hoareD_Ok [OF handle_auth_message_granted, of ?s ?s] run r1 by (auto simp: auth_frame_def)
          show ?thesis
          proof (cases step)
            case AuthContinue
            then have "auth_message_loop env now tx challenge s1 = (s', r)"
              using eq tcp pop found Some f run r1 by simp
            with 1(1) [OF tcp pop [symmetric] found Some f [symmetric] run [symmetric] r1 AuthContinue] step AuthContinue
            show ?thesis by (simp add: auth_frame_def)
          next
            case (AuthDone result)
            then show ?thesis using eq tcp pop found Some f run r1 step
              by (auto simp: auth_outcome_ok_def split: auth_phase_result.splits)
          qed
        qed
      qed
    qed
  qed
qed

lemma run_auth_loop_outcome:
  "run_auth_loop env now tx challenge s inputs = Some (s', r) \<Longrightarrow>
   auth_outcome_ok env now tx challenge (as_manager s) (map_result Some r) (as_manager s')"
proof (induction env now tx challenge s inputs rule: run_auth_loop.induct)
  case (3 env now tx challenge s res rest)
  show ?case
  proof (cases "as_tcp s = None \<or> (\<exists>e. res = Inl e) \<or> res = Inr []")
    case True
    then show ?thesis using 3(2) by (auto simp: auth_outcome_ok_def split: option.splits sum.splits)
  next
    case False
    then obtain tcp chunk where c: "as_tcp s = Some tcp" "res = Inr chunk" "chunk \<noteq> []" by (cases res) auto
    obtain s1 r1 where run: "auth_message_loop env now tx challenge (s\<lparr>as_tcp := Some (tcp_read_more chunk tcp)\<rparr>) = (s1, r1)"
      by fastforce
    have out: "auth_outcome_ok env now tx challenge (as_manager s) r1 (as_manager s1)"
      using auth_message_loop_outcome [OF run] by simp
    show ?thesis
    proof (cases "r1 = Ok None")
      case True
      then have "run_auth_loop env now tx challenge s1 rest = Some (s', r)" using 3(2) c run by simp
      with 3(1) [OF c(1,2,3) run [symmetric] True refl] out True show ?thesis
        by (simp add: auth_outcome_ok_def split: if_splits)
    next
      case False
      show ?thesis
      proof (cases r1)
        case (Inl e)
        then show ?thesis using 3(2) c run out by (auto simp: auth_outcome_ok_def)
      next
        case (Inr found)
        then obtain result where "found = Some result" using False by auto
        then show ?thesis using 3(2) c run out Inr by (auto simp: auth_outcome_ok_def)
      qed
    qed
  qed
qed (auto simp: auth_outcome_ok_def)

lemma verify_auth_payload_Ok:
  "verify_auth_payload key_ok verify a p challenge = Ok ip \<longleftrightarrow>
   (\<exists>c. au_clients a (ap_client_id p) = Some c \<and> sc_enabled c \<and> ip = sc_assigned_ipv4 c \<and>
      ap_assigned_ipv4 p = ip \<and> ap_tun_mtu p = au_tun_mtu a \<and> ap_challenge p = challenge \<and>
      key_ok (sc_pubkey_ed25519 c) \<and>
      verify (sc_pubkey_ed25519 c) (auth_signature_context (ap_client_id p) ip (ap_tun_mtu p) challenge) (ap_signature p))"
  by (cases "au_clients a (ap_client_id p)") (auto simp: verify_auth_payload_def Let_def)

end
