(* ===== verification/Auth_Run.thy ===== *)
theory Auth_Run
  imports Authentication
begin

text \<open>
  The client's auth exchange (\<open>slt-client/src/auth.rs\<close>) and its errors (\<open>error.rs\<close>), the life of
  the session manager, and the properties of authentication across both ends.
\<close>

section \<open>Connection errors\<close>

datatype ssl_error_code = SslSyscall | SslZeroReturn | SslOther

datatype tls_error = TlsSetup | TlsHandshake ssl_error_code bool "io_kind option"

text \<open>A handshake failure carries its code, whether a certificate error was captured, and the kind of
  the underlying I/O error.\<close>

fun is_transient_io :: "tls_error \<Rightarrow> bool" where
  "is_transient_io TlsSetup = False"
| "is_transient_io (TlsHandshake code verify_error io_error_kind) =
     (if verify_error then False else io_error_kind \<noteq> None \<or> code = SslSyscall \<or> code = SslZeroReturn)"

datatype connect_error =
    CnCancelled | CnEmptyHostname | CnTcpSocketCreate io_kind | CnSocketProtect io_kind
  | CnTcpConnectTimeout | CnTcpConnect io_kind | CnTlsHandshakeTimeout | CnTlsHandshake tls_error
  | CnAuthRejected auth_fail_code client_id ipv4_addr | CnAuthTimeout | CnAuthDisconnected
  | CnAuthProtocolError | CnAuthUnexpectedMessage | CnAuthTlsExport | CnDnsResolution io_kind
  | CnIo io_kind | CnFrame frame_error | CnMessage message_error | CnPayload payload_error | CnPanic

fun is_retriable :: "connect_error \<Rightarrow> bool" where
  "is_retriable CnTcpConnectTimeout = True"
| "is_retriable CnAuthTimeout = True"
| "is_retriable CnAuthDisconnected = True"
| "is_retriable CnTlsHandshakeTimeout = True"
| "is_retriable (CnDnsResolution _) = True"
| "is_retriable (CnSocketProtect source) = (source \<in> {KNotConnected, KNetworkUnreachable})"
| "is_retriable (CnTcpConnect source) = (source \<noteq> KPermissionDenied)"
| "is_retriable (CnTlsHandshake source) = is_transient_io source"
| "is_retriable (CnIo source) = (source \<noteq> KPermissionDenied)"
| "is_retriable _ = False"

fun connect_error_from_validation :: "message_validation_error \<Rightarrow> connect_error" where
  "connect_error_from_validation (InvalidPayload _ source) = CnPayload source"
| "connect_error_from_validation (InvalidDirection _ _) = CnAuthUnexpectedMessage"
| "connect_error_from_validation (InvalidPhase _ _) = CnAuthUnexpectedMessage"
| "connect_error_from_validation (InvalidTransport _ _) = CnAuthUnexpectedMessage"

section \<open>The client's auth exchange\<close>

datatype client_auth_result = CaContinue | CaAccepted | CaDisconnected

record client_auth_env =
  ca_sign :: "bytes \<Rightarrow> bytes"
  ca_ssl_key_update :: "nat \<Rightarrow> bool \<Rightarrow> bool"
  ca_tcp_write :: "nat \<Rightarrow> write_outcome"

record client_auth =
  ca_client_id :: client_id
  ca_assigned_ipv4 :: ipv4_addr
  ca_tun_mtu :: u16
  ca_tcp :: tcp_channel
  ca_out :: "message list"
  ca_metrics :: "auth_metric list"
  ca_calls :: nat

type_synonym 'a client_auth_comp = "(client_auth, 'a, connect_error) comp"

text \<open>\<open>write_message_with_timeout\<close> followed by \<open>map_auth_write_error\<close>.\<close>

definition auth_write :: "client_auth_env \<Rightarrow> message \<Rightarrow> unit client_auth_comp" where
  "auth_write env m s =
     (let out = ca_tcp_write env (ca_calls s);
          s' = s\<lparr>ca_calls := Suc (ca_calls s)\<rparr> in
      case tcp_write_message (ca_ssl_key_update env (ca_calls s)) (\<lambda>_. out = WriteDone) m (ca_tcp s) of
        (Inr _, tcp) \<Rightarrow> (s'\<lparr>ca_tcp := tcp, ca_out := ca_out s @ [m]\<rparr>, Ok ())
      | (Inl (TcpFrame frame), tcp) \<Rightarrow> (s'\<lparr>ca_tcp := tcp\<rparr>, Err (CnFrame frame))
      | (Inl (TcpIo TlsKeyUpdateFailed), tcp) \<Rightarrow> (s'\<lparr>ca_tcp := tcp\<rparr>, Err (CnIo KOther))
      | (Inl (TcpIo TlsWriteFailed), tcp) \<Rightarrow>
          (s'\<lparr>ca_tcp := tcp\<rparr>,
           Err (case out of
                  WriteTimedOut \<Rightarrow> CnAuthTimeout
                | WriteFailed k \<Rightarrow> if k = KTimedOut then CnAuthTimeout else CnIo k
                | WriteDone \<Rightarrow> CnIo KOther)))"

definition send_auth :: "client_auth_env \<Rightarrow> auth_payload \<Rightarrow> unit client_auth_comp" where
  "send_auth env payload = auth_write env (Auth (auth_payload_encode payload []))"

definition client_handle_auth_message :: "client_auth_env \<Rightarrow> message \<Rightarrow> client_auth_result client_auth_comp" where
  "client_handle_auth_message env m =
     sseq (slift (map_err connect_error_from_validation (validate_message m
             \<lparr>ctx_sender = FromServer, ctx_phase = Authentication, ctx_transport = Tcp\<rparr>)))
     (case m of
        AuthOk payload \<Rightarrow>
          sbind (slift (map_err CnPayload (auth_ok_payload_decode payload))) (\<lambda>_. sreturn CaAccepted)
      | AuthFail payload \<Rightarrow>
          sbind (slift (map_err CnPayload (auth_fail_payload_decode payload))) (\<lambda>code.
            swith (\<lambda>s. (ca_client_id s, ca_assigned_ipv4 s)) (\<lambda>(client_id, assigned_ipv4).
              sfail (CnAuthRejected code client_id assigned_ipv4)))
      | Ping payload \<Rightarrow>
          sbind (slift (map_err CnPayload (ping_decode payload))) (\<lambda>ping.
            sseq (auth_write env (Pong (pong_encode \<lparr>pong_nonce = ping_nonce ping\<rparr> [])))
              (sreturn CaContinue))
      | Pong payload \<Rightarrow>
          sbind (slift (map_err CnPayload (pong_decode payload))) (\<lambda>_. sreturn CaContinue)
      | Close payload \<Rightarrow>
          sbind (slift (map_err CnPayload (close_decode payload))) (\<lambda>code.
            if code = CloseProtocolError then sfail CnAuthProtocolError else sreturn CaDisconnected)
      | _ \<Rightarrow> sfail CnPanic)"

lemma auth_write_buf:
  "keeps (\<lambda>s. tc_read_buf (ca_tcp s) = b) (\<lambda>_. True) (auth_write env m)"
proof -
  have "tc_read_buf (ca_tcp s') = tc_read_buf (ca_tcp s)" if "auth_write env m s = (s', r)" for s s' r
  proof -
    obtain w tcp where w: "tcp_write_message (ca_ssl_key_update env (ca_calls s))
        (\<lambda>_. ca_tcp_write env (ca_calls s) = WriteDone) m (ca_tcp s) = (w, tcp)" by fastforce
    show ?thesis using that w tcp_write_message_read_buf [OF w]
      by (auto simp: auth_write_def Let_def split: sum.splits tcp_write_error.splits io_error.splits)
  qed
  then show ?thesis by (intro hoareI) auto
qed

lemma client_handle_auth_message_buf:
  assumes "client_handle_auth_message env m s = (s', r)"
  shows "tc_read_buf (ca_tcp s') = tc_read_buf (ca_tcp s)"
proof -
  have sent: "tc_read_buf (ca_tcp s1) = tc_read_buf (ca_tcp s)" if "auth_write env n s = (s1, r1)" for n s1 r1
    using keeps_state [OF auth_write_buf refl that] by simp
  show ?thesis using assms
    by (cases m) (auto simp: client_handle_auth_message_def monad_simps dest: sent split: sum.splits prod.splits if_splits)
qed

definition AUTH_MAX_FRAME :: nat where
  "AUTH_MAX_FRAME = 16 * 1024"

function client_auth_messages :: "client_auth_env \<Rightarrow> client_auth_result client_auth_comp" where
  "client_auth_messages env s =
     (case try_pop_message \<lparr>max_frame_len = AUTH_MAX_FRAME, max_data_len = AUTH_MAX_FRAME\<rparr> (ca_tcp s) of
        (Inl e, tcp) \<Rightarrow> (s\<lparr>ca_tcp := tcp\<rparr>, Err (CnMessage e))
      | (Inr None, tcp) \<Rightarrow> (s\<lparr>ca_tcp := tcp\<rparr>, Ok CaContinue)
      | (Inr (Some (ty, buf)), tcp) \<Rightarrow>
          (case client_handle_auth_message env (owned_message ty buf) (s\<lparr>ca_tcp := tcp\<rparr>) of
             (s', Inr CaContinue) \<Rightarrow> client_auth_messages env s'
           | (s', Inr CaAccepted) \<Rightarrow> (s'\<lparr>ca_metrics := ca_metrics s' @ [AuthSuccesses]\<rparr>, Ok CaAccepted)
           | (s', Inr CaDisconnected) \<Rightarrow> (s', Err CnAuthDisconnected)
           | (s', Inl (CnAuthRejected code client_id assigned_ipv4)) \<Rightarrow>
               (s'\<lparr>ca_metrics := ca_metrics s' @ [AuthFailures]\<rparr>, Err (CnAuthRejected code client_id assigned_ipv4))
           | (s', Inl e) \<Rightarrow> (s', Err e)))"
  by pat_completeness auto

termination client_auth_messages
proof (relation "measure (\<lambda>(env, s). length (tc_read_buf (ca_tcp s)))", goal_cases)
  case 1
  then show ?case by simp
next
  case (2 env s popped tcp found f ty buf s' r step)
  have "client_handle_auth_message env (owned_message ty buf) (s\<lparr>ca_tcp := tcp\<rparr>) = (s', Ok CaContinue)"
    using 2 by simp
  from client_handle_auth_message_buf [OF this] have "tc_read_buf (ca_tcp s') = tc_read_buf tcp" by simp
  moreover have "length (tc_read_buf tcp) < length (tc_read_buf (ca_tcp s))"
    using 2 by (intro try_pop_message_decreases
        [where limits = "\<lparr>max_frame_len = AUTH_MAX_FRAME, max_data_len = AUTH_MAX_FRAME\<rparr>" and r = "(ty, buf)"]) simp
  ultimately show ?case by simp
qed

declare client_auth_messages.simps [simp del]

text \<open>\<open>run_auth_flow\<close> under the deadline of \<open>authenticate_with_channel_impl\<close>, on the reads of the
  channel.  \<open>None\<close>: it still waits.  \<open>challenge\<close> is what the exporter of TLS returned.\<close>

fun client_auth_reads ::
    "client_auth_env \<Rightarrow> client_auth \<Rightarrow> auth_input list \<Rightarrow> (client_auth \<times> (unit, connect_error) result) option" where
  "client_auth_reads env s [] = None"
| "client_auth_reads env s (AuthDeadline # rest) = Some (s, Err CnAuthTimeout)"
| "client_auth_reads env s (AuthRead res # rest) =
     (case res of
        Inl err \<Rightarrow> Some (s, Err (CnIo err))
      | Inr chunk \<Rightarrow>
          if chunk = [] then Some (s, Err CnAuthDisconnected)
          else
            (case client_auth_messages env (s\<lparr>ca_tcp := tcp_read_more chunk (ca_tcp s)\<rparr>) of
               (s', Inl e) \<Rightarrow> Some (s', Err e)
             | (s', Inr CaContinue) \<Rightarrow> client_auth_reads env s' rest
             | (s', Inr _) \<Rightarrow> Some (s', Ok ())))"

definition run_auth_flow ::
    "client_auth_env \<Rightarrow> bytes option \<Rightarrow> client_auth \<Rightarrow> auth_input list \<Rightarrow>
     (client_auth \<times> (unit, connect_error) result) option" where
  "run_auth_flow env challenge s inputs =
     (case challenge of
        None \<Rightarrow> Some (s, Err CnAuthTlsExport)
      | Some challenge \<Rightarrow>
          (case send_auth env (build_auth_payload (ca_sign env) (ca_client_id s) (ca_assigned_ipv4 s)
                  (ca_tun_mtu s) challenge) s of
             (s', Inl e) \<Rightarrow> Some (s', Err e)
           | (s', Inr _) \<Rightarrow> client_auth_reads env s' inputs))"

section \<open>The life of the session manager\<close>

text \<open>Steps of the server on its session manager and the set of sessions that have ended: an
  authenticated connection starts a session, a session touches its routes, a session ends (its
  \<open>finish_session\<close> leaves the registry), its task then leaves the manager's table, and the server
  starts to shut down.\<close>

inductive manager_step ::
    "('io, 'tx) session_manager \<times> u64 set \<Rightarrow> ('io, 'tx) session_manager \<times> u64 set \<Rightarrow> bool" where
  manager_spawn:
    "spawn_session now tx client_id ip tcp m = (m', Ok ()) \<Longrightarrow> rg_next_session_id (sm_registry m) < u64_max \<Longrightarrow>
     manager_step (m, E) (m', E)"
| manager_routes:
    "s \<in> set (sm_spawned m) \<Longrightarrow> registry = fst (insert_cid (ss_client_id s) (ss_session_id s) p (ss_tx s) (sm_registry m)) \<or>
       registry = remove_cids_for_session (ss_session_id s) (sm_registry m) \<or>
       registry = remove_cids_for_session_except (ss_session_id s) p (sm_registry m) \<Longrightarrow>
     manager_step (m, E) (m\<lparr>sm_registry := registry\<rparr>, E)"
| manager_session_end:
    "s \<in> set (sm_spawned m) \<Longrightarrow>
     manager_step (m, E)
       (m\<lparr>sm_registry := remove_session (ss_session_id s) (ss_client_id s) (ss_assigned_ipv4 s) (sm_registry m)\<rparr>,
        insert (ss_session_id s) E)"
| manager_task_end:
    "s \<in> set (sm_spawned m) \<Longrightarrow> ss_session_id s \<in> E \<Longrightarrow>
     manager_step (m, E) (remove_session_if_current (ss_client_id s) (ss_session_id s) m, E)"
| manager_shutdown: "manager_step (m, E) (start_shutdown m, E)"

inductive manager_reach :: "('io, 'tx) session_manager \<times> u64 set \<Rightarrow> bool" where
  manager_reach_start:
    "sm_registry m = registry_new \<Longrightarrow> sm_sessions m = [] \<Longrightarrow> sm_spawned m = [] \<Longrightarrow> sm_accepting_sessions m \<Longrightarrow>
     manager_reach (m, {})"
| manager_reach_step: "manager_reach x \<Longrightarrow> manager_step x y \<Longrightarrow> manager_reach y"

text \<open>A session was told to shut down, or the manager holds the means to tell it.\<close>

definition session_reachable :: "('io, 'tx) session_manager \<Rightarrow> ('io, 'tx) server_session \<Rightarrow> bool" where
  "session_reachable m s \<longleftrightarrow>
     map_of (sm_sessions m) (ss_client_id s) = Some \<lparr>ms_session_id = ss_session_id s, ms_shutdown = True\<rparr> \<or>
     ss_session_id s \<in> fst ` set (sm_notified m)"

definition manager_inv :: "('io, 'tx) session_manager \<times> u64 set \<Rightarrow> bool" where
  "manager_inv x \<longleftrightarrow> (case x of (m, E) \<Rightarrow>
     (\<forall>s \<in> set (sm_spawned m). ss_session_id s < rg_next_session_id (sm_registry m)) \<and>
     distinct (map ss_session_id (sm_spawned m)) \<and>
     (\<forall>c h. rg_sessions (sm_registry m) c = Some h \<longrightarrow>
        (\<exists>s \<in> set (sm_spawned m). ss_client_id s = c \<and> ss_session_id s = sh_session_id h \<and> sh_session_id h \<notin> E) \<and>
        (\<exists>e. map_of (sm_sessions m) c = Some e \<and> ms_session_id e = sh_session_id h)) \<and>
     (\<forall>s \<in> set (sm_spawned m). ss_session_id s \<notin> E \<longrightarrow> session_reachable m s) \<and>
     (\<not> sm_accepting_sessions m \<longrightarrow> (\<forall>(c, e) \<in> set (sm_sessions m). \<not> ms_shutdown e)))"

section \<open>The manager's invariant\<close>

lemma spawn_session_Ok:
  assumes "spawn_session now tx client_id ip tcp m = (m', Ok ())"
  obtains h registry where
    "sm_accepting_sessions m" "register_session client_id ip tx (sm_registry m) = (h, registry)"
    "sm_registry m' = registry" "sm_accepting_sessions m'"
    "sm_sessions m' = AList.update client_id \<lparr>ms_session_id = sh_session_id h, ms_shutdown = True\<rparr> (sm_sessions m)"
    "sm_notified m' = sm_notified m @ (case map_of (sm_sessions m) client_id of None \<Rightarrow> []
       | Some old \<Rightarrow> if ms_shutdown old then [(ms_session_id old, Takeover)] else [])"
    "sm_spawned m' = sm_spawned m @ [server_session_new now (sh_session_id h) client_id ip tcp registry tx
       (sm_limits m) (sm_session_timeouts m) (sm_allowed_ciphers m)]"
proof -
  obtain h registry where reg: "register_session client_id ip tx (sm_registry m) = (h, registry)" by fastforce
  show ?thesis
    using assms reg by (intro that [of h registry])
      (auto simp: spawn_session_def Let_def split: option.splits if_splits)
qed

lemma remove_session_sessions:
  "rg_sessions (remove_session i c ip r) c' = Some h \<longleftrightarrow>
     rg_sessions r c' = Some h \<and> (c' = c \<longrightarrow> sh_session_id h \<noteq> i)"
  "rg_next_session_id (remove_session i c ip r) = rg_next_session_id r"
  by (auto simp: remove_session_def owned_by_def Let_def split: option.splits)

lemma insert_cid_sessions:
  "rg_sessions (fst (insert_cid c i p tx r)) = rg_sessions r"
  "rg_next_session_id (fst (insert_cid c i p tx r)) = rg_next_session_id r"
  by (simp_all add: insert_cid_def Let_def)

lemma map_of_remove_if_current:
  "map_of (sm_sessions (remove_session_if_current c i m)) c' =
     (if c' = c \<and> map_option ms_session_id (map_of (sm_sessions m) c) = Some i then None
      else map_of (sm_sessions m) c')"
  by (auto simp: remove_session_if_current_def delete_conv split: option.splits)

lemma remove_if_current_fields:
  "sm_registry (remove_session_if_current c i m) = sm_registry m"
  "sm_spawned (remove_session_if_current c i m) = sm_spawned m"
  "sm_notified (remove_session_if_current c i m) = sm_notified m"
  "sm_accepting_sessions (remove_session_if_current c i m) = sm_accepting_sessions m"
  "set (sm_sessions (remove_session_if_current c i m)) \<subseteq> set (sm_sessions m)"
  by (auto simp: remove_session_if_current_def AList.delete_eq split: option.splits)

lemma map_of_map_entries: "map_of (map (\<lambda>(c, e). (c, f e)) xs) c = map_option f (map_of xs c)"
  by (induction xs) auto

lemma manager_invI:
  assumes "\<And>s. s \<in> set (sm_spawned m) \<Longrightarrow> ss_session_id s < rg_next_session_id (sm_registry m)"
    and "distinct (map ss_session_id (sm_spawned m))"
    and "\<And>c h. rg_sessions (sm_registry m) c = Some h \<Longrightarrow>
      \<exists>s \<in> set (sm_spawned m). ss_client_id s = c \<and> ss_session_id s = sh_session_id h \<and> sh_session_id h \<notin> E"
    and "\<And>c h. rg_sessions (sm_registry m) c = Some h \<Longrightarrow>
      \<exists>e. map_of (sm_sessions m) c = Some e \<and> ms_session_id e = sh_session_id h"
    and "\<And>s. s \<in> set (sm_spawned m) \<Longrightarrow> ss_session_id s \<notin> E \<Longrightarrow> session_reachable m s"
    and "\<And>c e. \<not> sm_accepting_sessions m \<Longrightarrow> (c, e) \<in> set (sm_sessions m) \<Longrightarrow> \<not> ms_shutdown e"
  shows "manager_inv (m, E)"
  using assms by (auto simp: manager_inv_def)

lemma manager_invD:
  assumes "manager_inv (m, E)"
  shows "s \<in> set (sm_spawned m) \<Longrightarrow> ss_session_id s < rg_next_session_id (sm_registry m)"
    and "distinct (map ss_session_id (sm_spawned m))"
    and "rg_sessions (sm_registry m) c = Some h \<Longrightarrow>
      \<exists>s \<in> set (sm_spawned m). ss_client_id s = c \<and> ss_session_id s = sh_session_id h \<and> sh_session_id h \<notin> E"
    and "rg_sessions (sm_registry m) c = Some h \<Longrightarrow>
      \<exists>e. map_of (sm_sessions m) c = Some e \<and> ms_session_id e = sh_session_id h"
    and "s \<in> set (sm_spawned m) \<Longrightarrow> ss_session_id s \<notin> E \<Longrightarrow> session_reachable m s"
    and "\<not> sm_accepting_sessions m \<Longrightarrow> (c, e) \<in> set (sm_sessions m) \<Longrightarrow> \<not> ms_shutdown e"
  using assms by (auto simp: manager_inv_def)

lemma same_spawned:
  "distinct (map ss_session_id xs) \<Longrightarrow> s \<in> set xs \<Longrightarrow> s' \<in> set xs \<Longrightarrow> ss_session_id s = ss_session_id s' \<Longrightarrow> s = s'"
  by (auto simp: distinct_map inj_on_def)

text \<open>Ended sessions are sessions that were started.\<close>

lemma manager_reach_ended:
  "manager_reach x \<Longrightarrow> snd x \<subseteq> ss_session_id ` set (sm_spawned (fst x))"
proof (induction rule: manager_reach.induct)
  case (manager_reach_step x y)
  from manager_reach_step(2,3) show ?case
    by (induction rule: manager_step.induct)
      (auto elim!: spawn_session_Ok simp: remove_if_current_fields start_shutdown_def)
qed simp

lemma manager_inv_spawn:
  assumes inv: "manager_inv (m, E)" and E: "E \<subseteq> ss_session_id ` set (sm_spawned m)"
    and spawn: "spawn_session now tx c ip tcp m = (m', Ok ())" and room: "rg_next_session_id (sm_registry m) < u64_max"
  shows "manager_inv (m', E)"
proof -
  obtain h registry where sp: "register_session c ip tx (sm_registry m) = (h, registry)"
    "sm_registry m' = registry" "sm_accepting_sessions m'"
    "sm_sessions m' = AList.update c \<lparr>ms_session_id = sh_session_id h, ms_shutdown = True\<rparr> (sm_sessions m)"
    "sm_notified m' = sm_notified m @ (case map_of (sm_sessions m) c of None \<Rightarrow> []
       | Some old \<Rightarrow> if ms_shutdown old then [(ms_session_id old, Takeover)] else [])"
    "sm_spawned m' = sm_spawned m @ [server_session_new now (sh_session_id h) c ip tcp registry tx
       (sm_limits m) (sm_session_timeouts m) (sm_allowed_ciphers m)]"
    using spawn by (elim spawn_session_Ok) blast
  note R = register_session_sessions [OF sp(1)]
  let ?n = "rg_next_session_id (sm_registry m)"
  have h: "sh_session_id h = ?n" by (simp add: R(1))
  have next_id: "?n < rg_next_session_id registry"
    unfolding R(3) word_less_nat_alt using unat_next_session_id [OF room] by simp
  have fresh: "?n \<notin> ss_session_id ` set (sm_spawned m)" using manager_invD(1) [OF inv] by force
  then have new: "?n \<notin> E" using E by blast
  show ?thesis
  proof (rule manager_invI, goal_cases)
    case (1 s)
    then show ?case using manager_invD(1) [OF inv, of s] next_id
      by (auto simp: sp h server_session_new_def intro: less_trans)
  next
    case 2
    then show ?case using manager_invD(2) [OF inv] fresh by (simp add: sp h server_session_new_def)
  next
    case (3 c' h')
    then show ?case using manager_invD(3) [OF inv, of c' h'] new h
      by (cases "c' = c") (auto simp: sp R(2) server_session_new_def)
  next
    case (4 c' h')
    then show ?case using manager_invD(4) [OF inv, of c' h'] by (cases "c' = c") (auto simp: sp R(2) update_conv)
  next
    case (5 s)
    then consider "s \<in> set (sm_spawned m)" | "ss_session_id s = sh_session_id h" "ss_client_id s = c"
      by (auto simp: sp server_session_new_def)
    then show ?case
    proof cases
      case 1
      then show ?thesis using manager_invD(5) [OF inv 1] 5
        by (cases "ss_client_id s = c") (auto simp: session_reachable_def sp update_conv)
    next
      case 2
      then show ?thesis by (simp add: session_reachable_def sp update_conv)
    qed
  next
    case (6 c' e)
    then show ?case by (simp add: sp)
  qed
qed

lemma manager_inv_end:
  assumes inv: "manager_inv (m, E)" and s: "s \<in> set (sm_spawned m)"
  shows "manager_inv (m\<lparr>sm_registry := remove_session (ss_session_id s) (ss_client_id s) (ss_assigned_ipv4 s) (sm_registry m)\<rparr>,
    insert (ss_session_id s) E)"
proof (rule manager_invI, goal_cases)
  case (3 c h)
  then have old: "rg_sessions (sm_registry m) c = Some h" and other: "c = ss_client_id s \<longrightarrow> sh_session_id h \<noteq> ss_session_id s"
    by (simp_all add: remove_session_sessions)
  obtain s' where s': "s' \<in> set (sm_spawned m)" "ss_client_id s' = c" "ss_session_id s' = sh_session_id h" "sh_session_id h \<notin> E"
    using manager_invD(3) [OF inv old] by blast
  then have "sh_session_id h \<noteq> ss_session_id s"
    using other same_spawned [OF manager_invD(2) [OF inv] s'(1) s] by auto
  then show ?case using s' by auto
qed (use manager_invD [OF inv] in \<open>auto simp: remove_session_sessions session_reachable_def\<close>)

lemma manager_inv_task_end:
  assumes inv: "manager_inv (m, E)" and s: "s \<in> set (sm_spawned m)" "ss_session_id s \<in> E"
  shows "manager_inv (remove_session_if_current (ss_client_id s) (ss_session_id s) m, E)"
proof (rule manager_invI, goal_cases)
  case (4 c h)
  then have old: "rg_sessions (sm_registry m) c = Some h" by (simp add: remove_if_current_fields)
  show ?case using manager_invD(3,4) [OF inv old] s(2) by (auto simp: map_of_remove_if_current)
next
  case (5 s')
  then show ?case using manager_invD(5) [OF inv, of s'] s(2)
    by (auto simp: session_reachable_def map_of_remove_if_current remove_if_current_fields)
next
  case (6 c e)
  then show ?case using manager_invD(6) [OF inv, of c e] remove_if_current_fields(5) [of "ss_client_id s" "ss_session_id s" m]
    unfolding remove_if_current_fields(4) by blast
qed (use manager_invD(1-3) [OF inv] in \<open>auto simp: remove_if_current_fields\<close>)

lemma manager_inv_shutdown:
  assumes inv: "manager_inv (m, E)"
  shows "manager_inv (start_shutdown m, E)"
proof (rule manager_invI, goal_cases)
  case (4 c h)
  then show ?case using manager_invD(4) [OF inv, of c h] by (auto simp: start_shutdown_def map_of_map_entries)
next
  case (5 s)
  then have "session_reachable m s" using manager_invD(5) [OF inv] by (simp add: start_shutdown_def)
  then show ?case
    by (force simp: session_reachable_def start_shutdown_def dest: map_of_SomeD)
qed (use manager_invD(1-3) [OF inv] in \<open>auto simp: start_shutdown_def\<close>)

lemma manager_reach_inv: "manager_reach x \<Longrightarrow> manager_inv x"
proof (induction rule: manager_reach.induct)
  case (manager_reach_start m)
  then show ?case by (simp add: manager_inv_def registry_new_def)
next
  case (manager_reach_step x y)
  note ended = manager_reach_ended [OF manager_reach_step(1)]
  from manager_reach_step(2,3) ended show ?case
  proof (induction rule: manager_step.induct)
    case manager_spawn
    then show ?case using manager_inv_spawn by fastforce
  next
    case (manager_routes s m registry p E)
    then have "rg_sessions registry = rg_sessions (sm_registry m)" "rg_next_session_id registry = rg_next_session_id (sm_registry m)"
      by (auto simp: insert_cid_sessions remove_cids_for_session_def remove_cids_for_session_except_def)
    then show ?case using manager_routes(3) by (simp add: manager_inv_def session_reachable_def)
  next
    case manager_session_end
    then show ?case using manager_inv_end by blast
  next
    case manager_task_end
    then show ?case using manager_inv_task_end by blast
  next
    case manager_shutdown
    then show ?case using manager_inv_shutdown by blast
  qed
qed

section \<open>The exchange\<close>

lemma try_pop_message_front:
  assumes "message_within limits m" "tc_read_buf tcp = message_bytes m @ rest"
  shows "try_pop_message limits tcp = (Ok (Some (message_ty m, message_bytes m)), tcp\<lparr>tc_read_buf := rest\<rparr>)"
  using decode_message_front [OF assms(1), of rest] assms(2)
  by (simp add: try_pop_message_def pop_message_buf_decode)

text \<open>Environments in which TCP writes work.\<close>

definition auth_env_works :: "auth_env \<Rightarrow> bool" where
  "auth_env_works env \<longleftrightarrow> (\<forall>n. ae_tcp_write env n = WriteDone) \<and> (\<forall>n b. ae_ssl_key_update env n b)"

definition client_auth_env_works :: "client_auth_env \<Rightarrow> bool" where
  "client_auth_env_works env \<longleftrightarrow> (\<forall>n. ca_tcp_write env n = WriteDone) \<and> (\<forall>n b. ca_ssl_key_update env n b)"

lemma auth_send_message_works:
  assumes "auth_env_works env" "as_tcp s = Some tcp" "length (message_payload m) < 2 ^ 32"
  obtains tcp' where "auth_send_message env m s =
      (s\<lparr>as_calls := Suc (as_calls s), as_tcp := Some tcp', as_out := as_out s @ [m]\<rparr>, Ok ())"
    "tc_sent tcp' = tc_sent tcp @ message_bytes m"
proof -
  have "ae_ssl_key_update env (as_calls s) b" "ae_tcp_write env (as_calls s) = WriteDone" for b
    using assms(1) by (simp_all add: auth_env_works_def)
  then obtain tcp' where w: "tcp_write_message (ae_ssl_key_update env (as_calls s))
      (\<lambda>_. ae_tcp_write env (as_calls s) = WriteDone) m tcp = (Ok (), tcp')"
    using assms(3) by (rule_tac tcp_write_message_done [of "ae_ssl_key_update env (as_calls s)"
        "\<lambda>_. ae_tcp_write env (as_calls s) = WriteDone" m tcp]) auto
  show ?thesis using w assms(2) tcp_write_message_sent(1) [OF w]
    by (intro that [of tcp']) (simp_all add: auth_send_message_def Let_def)
qed

lemma auth_write_works:
  assumes "client_auth_env_works env" "length (message_payload m) < 2 ^ 32"
  obtains tcp where "auth_write env m s =
      (s\<lparr>ca_calls := Suc (ca_calls s), ca_tcp := tcp, ca_out := ca_out s @ [m]\<rparr>, Ok ())"
    "tc_sent tcp = tc_sent (ca_tcp s) @ message_bytes m" "tc_read_buf tcp = tc_read_buf (ca_tcp s)"
proof -
  have "ca_ssl_key_update env (ca_calls s) b" "ca_tcp_write env (ca_calls s) = WriteDone" for b
    using assms(1) by (simp_all add: client_auth_env_works_def)
  then obtain tcp where w: "tcp_write_message (ca_ssl_key_update env (ca_calls s))
      (\<lambda>_. ca_tcp_write env (ca_calls s) = WriteDone) m (ca_tcp s) = (Ok (), tcp)"
    "tc_read_buf tcp = tc_read_buf (ca_tcp s)"
    using assms(2) by (rule_tac tcp_write_message_done [of "ca_ssl_key_update env (ca_calls s)"
        "\<lambda>_. ca_tcp_write env (ca_calls s) = WriteDone" m "ca_tcp s"]) auto
  show ?thesis using w tcp_write_message_sent(1) [OF w(1)]
    by (intro that [of tcp]) (simp_all add: auth_write_def Let_def)
qed

text \<open>The server accepts what verifies.\<close>

lemma spawn_session_accepting:
  assumes "sm_accepting_sessions m"
  obtains m' where "spawn_session now tx c ip tcp m = (m', Ok ())"
proof -
  have "snd (spawn_session now tx c ip tcp m) = Ok ()"
    using assms by (simp add: spawn_session_def Let_def split_beta)
  then show ?thesis using that by (metis prod.collapse)
qed

lemma register_session_lookup_ip:
  "register_session c ip tx r = (h, r') \<Longrightarrow> lookup_ip ip r' = Some tx"
  by (auto simp: lookup_ip_def register_session_def Let_def)

lemma spawn_session_routes:
  assumes "spawn_session now tx c ip tcp m = (m', Ok ())"
  obtains session where "sm_spawned m' = sm_spawned m @ [session]" "sm_accepting_sessions m"
    "ss_client_id session = c" "ss_assigned_ipv4 session = ip" "ss_tcp session = tcp" "ss_active_transport session = ActiveTcp"
    "session_reachable m' session" "lookup_ip ip (sm_registry m') = Some tx"
  using assms
proof (rule spawn_session_Ok, goal_cases)
  case (1 h registry)
  show ?case
    by (rule 1(1) [OF 1(8)])
      (use 1(2,4-7) register_session_lookup_ip [OF 1(3)] in
        \<open>auto simp: server_session_new_def session_reachable_def update_conv\<close>)
qed

lemma validate_auth:
  assumes "auth_payload_wf p"
  shows "validate_message (Auth (auth_payload_encode p []))
    \<lparr>ctx_sender = FromClient, ctx_phase = Authentication, ctx_transport = Tcp\<rparr> = Ok ()"
  using auth.decode_encode [OF assms]
  by (simp add: validate_message_Ok validate_message_type_Ok decode_fixed_payload_def)

lemma handle_auth_accepts:
  assumes env: "auth_env_works env" and wf: "auth_payload_wf p"
    and ver: "verify_auth_payload (ae_key_ok env) (ae_verify env) (ae_authenticator env) p challenge = Ok ip"
    and tcp: "as_tcp s = Some tcp" and m: "sm_accepting_sessions (as_manager s)" "0 < sm_session_queue_size (as_manager s)"
  obtains s' tcp' where
    "handle_auth_message env now tx challenge (Auth (auth_payload_encode p [])) s = (s', Ok (AuthDone Authenticated))"
    "spawn_session now tx (ap_client_id p) ip tcp' (as_manager s) = (as_manager s', Ok ())"
    "tc_sent tcp' = tc_sent tcp @ message_bytes (AuthOk [])"
proof -
  have "length (message_payload (AuthOk [])) < 2 ^ 32" by simp
  with env tcp obtain tcp' where send: "auth_send_message env (AuthOk []) s =
      (s\<lparr>as_calls := Suc (as_calls s), as_tcp := Some tcp', as_out := as_out s @ [AuthOk []]\<rparr>, Ok ())"
      "tc_sent tcp' = tc_sent tcp @ message_bytes (AuthOk [])"
    by (rule auth_send_message_works)
  obtain m' where spawn: "spawn_session now tx (ap_client_id p) ip tcp' (as_manager s) = (m', Ok ())"
    using m(1) by (rule spawn_session_accepting)
  show ?thesis
    by (rule that [of "s\<lparr>as_calls := Suc (as_calls s), as_tcp := None, as_out := as_out s @ [AuthOk []], as_manager := m'\<rparr>" tcp'])
      (use m(2) send spawn auth.decode_encode [OF wf] ver in \<open>simp_all add: handle_auth_message_def handle_auth_def
        validate_auth [OF wf] monad_simps auth_ok_payload_encode_def create_session_def\<close>)
qed

lemma run_auth_loop_accepts:
  assumes env: "auth_env_works env" and wf: "auth_payload_wf p"
    and ver: "verify_auth_payload (ae_key_ok env) (ae_verify env) (ae_authenticator env) p challenge = Ok ip"
    and tcp: "as_tcp s = Some tcp" "tc_read_buf tcp = []"
    and m: "sm_accepting_sessions (as_manager s)" "0 < sm_session_queue_size (as_manager s)"
    and fits: "AUTH_PAYLOAD_LEN \<le> max_frame_len (sm_limits (as_manager s))"
  obtains s' tcp' where
    "run_auth_loop env now tx challenge s [AuthRead (Ok (message_bytes (Auth (auth_payload_encode p []))))] = Some (s', Ok Authenticated)"
    "spawn_session now tx (ap_client_id p) ip tcp' (as_manager s) = (as_manager s', Ok ())"
    "tc_sent tcp' = tc_sent tcp @ message_bytes (AuthOk [])"
proof -
  let ?m = "Auth (auth_payload_encode p [])"
  let ?tcp = "tcp_read_more (message_bytes ?m) tcp"
  let ?s = "s\<lparr>as_tcp := Some (?tcp\<lparr>tc_read_buf := []\<rparr>)\<rparr>"
  have within: "message_within (sm_limits (as_manager s)) ?m"
    using fits wf by (cases "ap_assigned_ipv4 p")
      (simp add: message_within_def auth_payload_encode_def auth_payload_wf_def payload_lens)
  have pop: "try_pop_message (sm_limits (as_manager s)) ?tcp =
      (Ok (Some (message_ty ?m, message_bytes ?m)), ?tcp\<lparr>tc_read_buf := []\<rparr>)"
    by (rule try_pop_message_front [OF within]) (simp add: tcp_read_more_def tcp)
  have "as_tcp ?s = Some (?tcp\<lparr>tc_read_buf := []\<rparr>)" by simp
  from handle_auth_accepts [OF env wf ver this, of now tx] m
  obtain s' tcp' where handled: "handle_auth_message env now tx challenge ?m ?s = (s', Ok (AuthDone Authenticated))"
    "spawn_session now tx (ap_client_id p) ip tcp' (as_manager s) = (as_manager s', Ok ())"
    "tc_sent tcp' = tc_sent tcp @ message_bytes (AuthOk [])"
    by (auto simp: tcp_read_more_def)
  have "auth_message_loop env now tx challenge (s\<lparr>as_tcp := Some ?tcp\<rparr>) = (s', Ok (Some Authenticated))"
    using pop handled(1) owned_message_bytes [of ?m] by (subst auth_message_loop.simps) simp
  moreover have "message_bytes ?m \<noteq> []" by (simp add: message_bytes_def)
  ultimately show ?thesis using handled(2,3) tcp by (intro that [of s' tcp']) simp_all
qed

lemma client_auth_accepted:
  assumes "tc_read_buf (ca_tcp c) = []"
  shows "client_auth_reads env c [AuthRead (Ok (message_bytes (AuthOk [])))] =
    Some (c\<lparr>ca_tcp := ca_tcp c, ca_metrics := ca_metrics c @ [AuthSuccesses]\<rparr>, Ok ())"
proof -
  let ?l = "\<lparr>max_frame_len = AUTH_MAX_FRAME, max_data_len = AUTH_MAX_FRAME\<rparr>"
  let ?tcp = "tcp_read_more (message_bytes (AuthOk [])) (ca_tcp c)"
  have pop: "try_pop_message ?l ?tcp = (Ok (Some (message_ty (AuthOk []), message_bytes (AuthOk []))), ?tcp\<lparr>tc_read_buf := []\<rparr>)"
    by (rule try_pop_message_front) (simp_all add: message_within_def tcp_read_more_def assms)
  have same: "?tcp\<lparr>tc_read_buf := []\<rparr> = ca_tcp c"
    using assms by (cases "ca_tcp c") (simp add: tcp_read_more_def)
  have "client_handle_auth_message env (AuthOk []) c' = (c', Ok CaAccepted)" for c'
    by (simp add: client_handle_auth_message_def monad_simps validate_message_def validate_message_type_def
        validate_fixed_payload_def decode_fixed_payload_def auth_ok_payload_decode_def discard_def)
  then have "client_auth_messages env (c\<lparr>ca_tcp := ?tcp\<rparr>) =
      (c\<lparr>ca_tcp := ca_tcp c, ca_metrics := ca_metrics c @ [AuthSuccesses]\<rparr>, Ok CaAccepted)"
    using pop same owned_message_bytes [of "AuthOk []"] by (subst client_auth_messages.simps) simp
  then show ?thesis by (simp add: message_bytes_def)
qed

section \<open>A small configuration\<close>

text \<open>A configuration with one client, whose signatures are prefixes of what they sign.\<close>

definition sample_sign :: "bytes \<Rightarrow> bytes" where
  "sample_sign context = take 64 (context @ replicate 64 0)"

definition sample_client_entry :: server_client where
  "sample_client_entry = \<lparr>sc_client_id = ClientId (replicate 16 7), sc_pubkey_ed25519 = replicate 32 9,
     sc_assigned_ipv4 = Ipv4Addr 10 0 0 2, sc_enabled = True\<rparr>"

definition sample_auth_env :: auth_env where
  "sample_auth_env = \<lparr>ae_authenticator = authenticator_from_config [sample_client_entry] 1280,
     ae_key_ok = (\<lambda>k. length k = 32), ae_verify = (\<lambda>_ context signature. signature = sample_sign context),
     ae_ssl_key_update = (\<lambda>_ _. True), ae_tcp_write = (\<lambda>_. WriteDone)\<rparr>"

definition sample_manager :: "(nat, nat) session_manager" where
  "sample_manager = \<lparr>sm_registry = registry_new, sm_accepting_sessions = True, sm_sessions = [],
     sm_limits = message_limits_from_mtu 1280,
     sm_session_timeouts = \<lparr>st_ping_min = 1, st_ping_max = 2, st_udp_liveness_timeout = 9, st_idle_timeout = 30, st_tcp_write_timeout = 5\<rparr>,
     sm_session_queue_size = 8, sm_allowed_ciphers = [Aes128Gcm], sm_notified = [], sm_spawned = []\<rparr>"

definition sample_auth_state :: "(nat, nat) auth_state" where
  "sample_auth_state = \<lparr>as_tcp = Some (tcp_channel_with_state default_interval_key_updater []),
     as_manager = sample_manager, as_out = [], as_calls = 0\<rparr>"

definition sample_client_auth :: client_auth where
  "sample_client_auth = \<lparr>ca_client_id = ClientId (replicate 16 7), ca_assigned_ipv4 = Ipv4Addr 10 0 0 2,
     ca_tun_mtu = 1280, ca_tcp = tcp_channel_with_state default_interval_key_updater [], ca_out = [],
     ca_metrics = [], ca_calls = 0\<rparr>"

definition sample_client_auth_env :: client_auth_env where
  "sample_client_auth_env = \<lparr>ca_sign = sample_sign, ca_ssl_key_update = (\<lambda>_ _. True), ca_tcp_write = (\<lambda>_. WriteDone)\<rparr>"

text \<open>The client connects twice, then the server shuts down.\<close>

definition sample_connect :: "nat \<Rightarrow> (nat, nat) session_manager \<Rightarrow> (nat, nat) session_manager" where
  "sample_connect tx m = fst (spawn_session 0 tx (ClientId (replicate 16 7)) (Ipv4Addr 10 0 0 2)
     (tcp_channel_with_state default_interval_key_updater []) m)"

definition sample_auth_payload :: auth_payload where
  "sample_auth_payload =
     build_auth_payload sample_sign (ClientId (replicate 16 7)) (Ipv4Addr 10 0 0 2) 1280 (replicate 32 5)"

lemma sample_auth_facts:
  "auth_env_works sample_auth_env" "auth_payload_wf sample_auth_payload"
  "verify_auth_payload (ae_key_ok sample_auth_env) (ae_verify sample_auth_env) (ae_authenticator sample_auth_env)
     sample_auth_payload (replicate 32 5) = Ok (Ipv4Addr 10 0 0 2)"
  "sm_accepting_sessions (as_manager sample_auth_state)" "0 < sm_session_queue_size (as_manager sample_auth_state)"
  "AUTH_PAYLOAD_LEN \<le> max_frame_len (sm_limits (as_manager sample_auth_state))"
  "tc_read_buf (tcp_channel_with_state default_interval_key_updater []) = []"
  by (simp_all add: sample_auth_env_def auth_env_works_def sample_auth_payload_def build_auth_payload_def Let_def
      auth_payload_wf_def payload_lens sample_sign_def verify_auth_payload_def authenticator_from_config_def
      sample_client_entry_def sample_auth_state_def sample_manager_def message_limits_from_mtu_def
      MAX_CONTROL_FRAME_LEN_def tcp_channel_with_state_def)

section \<open>Properties\<close>

text \<open>C19: The auth phase never reaches its unreachable arm.  It starts a session only for an enabled
  client of the allowlist whose \<open>AUTH\<close> carries the configured address and MTU and a signature, valid
  under the configured key, of this connection's challenge; the new session has that client's id and
  address, packets to the address are routed to it, and it can be shut down.  On every other outcome,
  whatever the peer sent, the session manager is as it was.\<close>

theorem sessions_only_for_verified_clients:
  assumes "run_auth_loop env now tx challenge s inputs = Some (s', r)"
  shows "r \<noteq> Err AePanic \<and>
    (if r = Ok Authenticated then
       \<exists>c signature session.
         au_clients (ae_authenticator env) (ss_client_id session) = Some c \<and> sc_enabled c \<and>
         ae_key_ok env (sc_pubkey_ed25519 c) \<and>
         ae_verify env (sc_pubkey_ed25519 c)
           (auth_signature_context (ss_client_id session) (sc_assigned_ipv4 c)
              (au_tun_mtu (ae_authenticator env)) challenge) signature \<and>
         ss_assigned_ipv4 session = sc_assigned_ipv4 c \<and>
         sm_accepting_sessions (as_manager s) \<and>
         sm_spawned (as_manager s') = sm_spawned (as_manager s) @ [session] \<and>
         lookup_ip (sc_assigned_ipv4 c) (sm_registry (as_manager s')) = Some tx \<and>
         session_reachable (as_manager s') session
     else as_manager s' = as_manager s)"
proof (cases "r = Ok Authenticated")
  case True
  with run_auth_loop_outcome [OF assms] obtain p tcp ip where
    v: "verify_auth_payload (ae_key_ok env) (ae_verify env) (ae_authenticator env) p challenge = Ok ip" and
    spawn: "spawn_session now tx (ap_client_id p) ip tcp (as_manager s) = (as_manager s', Ok ())"
    by (auto simp: auth_outcome_ok_def session_granted_def)
  from v obtain c where c: "au_clients (ae_authenticator env) (ap_client_id p) = Some c" "sc_enabled c"
      "ip = sc_assigned_ipv4 c" "ae_key_ok env (sc_pubkey_ed25519 c)"
      "ae_verify env (sc_pubkey_ed25519 c) (auth_signature_context (ap_client_id p) ip
         (au_tun_mtu (ae_authenticator env)) challenge) (ap_signature p)"
    by (auto simp: verify_auth_payload_Ok)
  obtain session where session: "sm_spawned (as_manager s') = sm_spawned (as_manager s) @ [session]"
      "sm_accepting_sessions (as_manager s)" "ss_client_id session = ap_client_id p"
      "ss_assigned_ipv4 session = ip" "session_reachable (as_manager s') session"
      "lookup_ip ip (sm_registry (as_manager s')) = Some tx"
    using spawn by (rule spawn_session_routes)
  show ?thesis
    unfolding True by (simp, intro exI [of _ c] exI [of _ "ap_signature p"] exI [of _ session]) (use c session in simp)
next
  case False
  then show ?thesis using run_auth_loop_outcome [OF assms] by (cases r) (auto simp: auth_outcome_ok_def)
qed

theorem sessions_only_for_verified_clients_witness:
  "\<exists>s' session. run_auth_loop sample_auth_env 0 1 (replicate 32 5) sample_auth_state
      [AuthRead (Ok (message_bytes (Auth (auth_payload_encode sample_auth_payload []))))] = Some (s', Ok Authenticated) \<and>
    sm_spawned (as_manager s') = [session] \<and> session_reachable (as_manager s') session \<and>
    au_clients (ae_authenticator sample_auth_env) (ss_client_id session) = Some sample_client_entry"
proof -
  have tcp: "as_tcp sample_auth_state = Some (tcp_channel_with_state default_interval_key_updater [])"
    by (simp add: sample_auth_state_def)
  obtain s' where run: "run_auth_loop sample_auth_env 0 1 (replicate 32 5) sample_auth_state
      [AuthRead (Ok (message_bytes (Auth (auth_payload_encode sample_auth_payload []))))] = Some (s', Ok Authenticated)"
    by (rule run_auth_loop_accepts [OF sample_auth_facts(1,2,3) tcp sample_auth_facts(7,4,5,6), of 0 1])
  have "sm_spawned (as_manager sample_auth_state) = []" by (simp add: sample_auth_state_def sample_manager_def)
  moreover have "au_clients (ae_authenticator sample_auth_env) k = Some c \<Longrightarrow> c = sample_client_entry" for k c
    by (simp add: sample_auth_env_def authenticator_from_config_def split: if_splits)
  ultimately show ?thesis using sessions_only_for_verified_clients [OF run] run by auto
qed

text \<open>C20: Authentication completes: against a server that lists the client as enabled with its
  address, MTU and key, what the client puts on the wire is accepted by the server's auth phase, which
  starts the client's session on that channel; and what the server has then put on the wire ends the
  client's auth flow with success.  The hypotheses on the cryptography are that the exported challenge
  is the same at both ends and that signatures have 64 bytes and verify.\<close>

theorem authentication_completes:
  assumes works: "client_auth_env_works env" "auth_env_works sv"
    and entry: "au_clients (ae_authenticator sv) (ca_client_id c) = Some entry" "sc_enabled entry"
      "sc_assigned_ipv4 entry = ca_assigned_ipv4 c" "au_tun_mtu (ae_authenticator sv) = ca_tun_mtu c"
    and crypto: "ae_key_ok sv (sc_pubkey_ed25519 entry)"
      "\<And>context. ae_verify sv (sc_pubkey_ed25519 entry) context (ca_sign env context)"
      "\<And>context. length (ca_sign env context) = AUTH_SIGNATURE_LEN"
    and lengths: "length (client_id_bytes (ca_client_id c)) = 16" "length challenge = AUTH_CHALLENGE_LEN"
    and fresh: "tc_read_buf (ca_tcp c) = []" "as_tcp s = Some tcp" "tc_read_buf tcp = []"
    and manager: "sm_accepting_sessions (as_manager s)" "0 < sm_session_queue_size (as_manager s)"
      "AUTH_PAYLOAD_LEN \<le> max_frame_len (sm_limits (as_manager s))"
  shows "\<exists>c1 auth_bytes s' session ok_bytes c2.
    run_auth_flow env (Some challenge) c [] = None \<and>
    send_auth env (build_auth_payload (ca_sign env) (ca_client_id c) (ca_assigned_ipv4 c) (ca_tun_mtu c) challenge) c = (c1, Ok ()) \<and>
    tc_sent (ca_tcp c1) = tc_sent (ca_tcp c) @ auth_bytes \<and>
    run_auth_loop sv now tx challenge s [AuthRead (Ok auth_bytes)] = Some (s', Ok Authenticated) \<and>
    sm_spawned (as_manager s') = sm_spawned (as_manager s) @ [session] \<and>
    ss_client_id session = ca_client_id c \<and> ss_assigned_ipv4 session = ca_assigned_ipv4 c \<and>
    tc_sent (ss_tcp session) = tc_sent tcp @ ok_bytes \<and>
    run_auth_flow env (Some challenge) c [AuthRead (Ok ok_bytes)] = Some (c2, Ok ())"
proof -
  let ?p = "build_auth_payload (ca_sign env) (ca_client_id c) (ca_assigned_ipv4 c) (ca_tun_mtu c) challenge"
  let ?m = "Auth (auth_payload_encode ?p [])"
  have wf: "auth_payload_wf ?p" using crypto(3) lengths by (simp add: build_auth_payload_def auth_payload_wf_def Let_def)
  have ver: "verify_auth_payload (ae_key_ok sv) (ae_verify sv) (ae_authenticator sv) ?p challenge = Ok (ca_assigned_ipv4 c)"
    using entry crypto by (simp add: verify_auth_payload_def build_auth_payload_def Let_def)
  have "length (message_payload ?m) < 2 ^ 32"
    using wf by (cases "ap_assigned_ipv4 ?p") (simp add: auth_payload_encode_def auth_payload_wf_def payload_lens)
  with works(1) obtain ctcp where send: "auth_write env ?m c =
      (c\<lparr>ca_calls := Suc (ca_calls c), ca_tcp := ctcp, ca_out := ca_out c @ [?m]\<rparr>, Ok ())"
      "tc_sent ctcp = tc_sent (ca_tcp c) @ message_bytes ?m" "tc_read_buf ctcp = tc_read_buf (ca_tcp c)"
    by (rule auth_write_works)
  obtain s' stcp where run: "run_auth_loop sv now tx challenge s [AuthRead (Ok (message_bytes ?m))] = Some (s', Ok Authenticated)"
      "spawn_session now tx (ap_client_id ?p) (ca_assigned_ipv4 c) stcp (as_manager s) = (as_manager s', Ok ())"
      "tc_sent stcp = tc_sent tcp @ message_bytes (AuthOk [])"
    by (rule run_auth_loop_accepts [OF works(2) wf ver fresh(2,3) manager])
  obtain session where session: "sm_spawned (as_manager s') = sm_spawned (as_manager s) @ [session]"
      "ss_client_id session = ca_client_id c" "ss_assigned_ipv4 session = ca_assigned_ipv4 c" "ss_tcp session = stcp"
    using run(2) by (rule spawn_session_routes) (auto simp: build_auth_payload_def Let_def)
  let ?c1 = "c\<lparr>ca_calls := Suc (ca_calls c), ca_tcp := ctcp, ca_out := ca_out c @ [?m]\<rparr>"
  have sent: "send_auth env ?p c = (?c1, Ok ())" using send(1) by (simp add: send_auth_def)
  show ?thesis
    by (intro exI [of _ ?c1] exI [of _ "message_bytes ?m"] exI [of _ s'] exI [of _ session]
        exI [of _ "message_bytes (AuthOk [])"] exI conjI)
      (use sent send run session client_auth_accepted [of ?c1 env] fresh(1) in \<open>simp_all add: run_auth_flow_def\<close>)
qed

theorem authentication_completes_witness:
  "\<exists>auth_bytes s' ok_bytes c2.
     run_auth_loop sample_auth_env 0 1 (replicate 32 5) sample_auth_state [AuthRead (Ok auth_bytes)] = Some (s', Ok Authenticated) \<and>
     run_auth_flow sample_client_auth_env (Some (replicate 32 5)) sample_client_auth [AuthRead (Ok ok_bytes)] = Some (c2, Ok ())"
proof -
  have cl: "client_auth_env_works sample_client_auth_env"
    by (simp add: client_auth_env_works_def sample_client_auth_env_def)
  have buf: "tc_read_buf (ca_tcp sample_client_auth) = []"
    by (simp add: sample_client_auth_def sample_auth_facts)
  have "\<exists>c1 auth_bytes s' session ok_bytes c2.
    run_auth_flow sample_client_auth_env (Some (replicate 32 5)) sample_client_auth [] = None \<and>
    send_auth sample_client_auth_env (build_auth_payload (ca_sign sample_client_auth_env) (ca_client_id sample_client_auth)
      (ca_assigned_ipv4 sample_client_auth) (ca_tun_mtu sample_client_auth) (replicate 32 5)) sample_client_auth = (c1, Ok ()) \<and>
    tc_sent (ca_tcp c1) = tc_sent (ca_tcp sample_client_auth) @ auth_bytes \<and>
    run_auth_loop sample_auth_env 0 1 (replicate 32 5) sample_auth_state [AuthRead (Ok auth_bytes)] = Some (s', Ok Authenticated) \<and>
    sm_spawned (as_manager s') = sm_spawned (as_manager sample_auth_state) @ [session] \<and>
    ss_client_id session = ca_client_id sample_client_auth \<and> ss_assigned_ipv4 session = ca_assigned_ipv4 sample_client_auth \<and>
    tc_sent (ss_tcp session) = tc_sent (tcp_channel_with_state default_interval_key_updater []) @ ok_bytes \<and>
    run_auth_flow sample_client_auth_env (Some (replicate 32 5)) sample_client_auth [AuthRead (Ok ok_bytes)] = Some (c2, Ok ())"
    by (rule authentication_completes [where entry = sample_client_entry, OF cl sample_auth_facts(1) _ _ _ _ _ _ _ _ _ buf _
          sample_auth_facts(7,4,5,6)])
      (simp_all add: sample_client_auth_def sample_auth_env_def sample_client_auth_env_def sample_client_entry_def
        authenticator_from_config_def sample_sign_def payload_lens sample_auth_state_def)
  then show ?thesis by blast
qed

text \<open>C21: The registry and the session manager agree in every reachable state: a session the registry
  knows is the one the manager's table holds for that client; every session that is still running was
  told to shut down or is held by the table with its shutdown signal unsent; and once the server is
  shutting down every running session was told.\<close>

theorem running_sessions_reachable:
  assumes "manager_reach (m, ended)"
  shows "(\<forall>client_id h. rg_sessions (sm_registry m) client_id = Some h \<longrightarrow>
       sh_session_id h \<notin> ended \<and>
       map_option ms_session_id (map_of (sm_sessions m) client_id) = Some (sh_session_id h)) \<and>
    (\<forall>session \<in> set (sm_spawned m). ss_session_id session \<notin> ended \<longrightarrow>
       session_reachable m session \<and>
       (\<not> sm_accepting_sessions m \<longrightarrow> ss_session_id session \<in> fst ` set (sm_notified m)))"
proof -
  note inv = manager_reach_inv [OF assms]
  show ?thesis
  proof (intro conjI allI impI ballI, goal_cases)
    case (1 client_id h)
    then show ?case using manager_invD(3) [OF inv] by blast
  next
    case (2 client_id h)
    then show ?case using manager_invD(4) [OF inv, of client_id h] by auto
  next
    case (3 session)
    then show ?case using manager_invD(5) [OF inv] by blast
  next
    case (4 session)
    then show ?case using manager_invD(5) [OF inv, of session] manager_invD(6) [OF inv]
      by (fastforce simp: session_reachable_def dest: map_of_SomeD)
  qed
qed

theorem running_sessions_reachable_witness:
  "let m = start_shutdown (sample_connect 2 (sample_connect 1 sample_manager)) in
   map ss_session_id (sm_spawned m) = [1, 2] \<and>
   (\<forall>session \<in> set (sm_spawned m). ss_session_id session \<in> fst ` set (sm_notified m))"
proof -
  let ?m1 = "sample_connect 1 sample_manager" and ?m2 = "sample_connect 2 (sample_connect 1 sample_manager)"
  have step: "manager_step (m, {}) (sample_connect tx m, {})"
    if "sm_accepting_sessions m" "rg_next_session_id (sm_registry m) < u64_max" for m tx
    using manager_spawn [OF _ that(2)] that(1) unfolding sample_connect_def
    by (metis fst_conv spawn_session_accepting)
  have m1: "sm_accepting_sessions ?m1" "rg_next_session_id (sm_registry ?m1) = 2"
    by (simp_all add: sample_connect_def spawn_session_def sample_manager_def register_session_def registry_new_def
        saturating_add_u64_def Let_def)
  have "manager_reach (sample_manager, {})"
    by (rule manager_reach_start) (simp_all add: sample_manager_def)
  then have "manager_reach (?m1, {})"
    by (rule manager_reach_step) (rule step, simp_all add: sample_manager_def registry_new_def)
  then have "manager_reach (?m2, {})"
    by (rule manager_reach_step) (rule step, simp_all only: m1, simp)
  then have "manager_reach (start_shutdown ?m2, {})" by (rule manager_reach_step) (rule manager_shutdown)
  moreover have "map ss_session_id (sm_spawned (start_shutdown ?m2)) = [1, 2]" "\<not> sm_accepting_sessions (start_shutdown ?m2)"
    by (simp_all add: start_shutdown_def sample_connect_def spawn_session_def sample_manager_def register_session_def
        registry_new_def server_session_new_def saturating_add_u64_def Let_def)
  ultimately show ?thesis using running_sessions_reachable [of "start_shutdown ?m2" "{}"] by (simp add: Let_def)
qed

end
