(* ===== verification/Client_Runtime.thy ===== *)
theory Client_Runtime
  imports Client_Loop Auth_Run
begin

text \<open>
  The client's runtime (\<open>slt-client/src/runtime/mod.rs\<close>): connection attempts with their retry
  policy, the session of each connection, the backoff between attempts, and the ways to stop.

  The two cancellation tokens are flags that the outside may raise during any wait; a turn of the loop
  gets, as its input, what each of its waits ended with.
\<close>

section \<open>Outcomes\<close>

datatype runtime_error =
    ReConnect connect_error | ReSession client_error | ReTunChannelClosed tun_task | ReTunFaultSignalled

fun is_restart_retriable :: "runtime_error \<Rightarrow> bool" where
  "is_restart_retriable (ReConnect err) = is_retriable err"
| "is_restart_retriable (ReSession err) =
     (case client_error_exit err of
        ExitTcpClosed \<Rightarrow> True | ExitIdleTimeout \<Rightarrow> True | ExitRemoteClose _ \<Rightarrow> True
      | ExitConnectionError \<Rightarrow> True | ExitNetworkChanged \<Rightarrow> True | _ \<Rightarrow> False)"
| "is_restart_retriable (ReTunChannelClosed _) = False"
| "is_restart_retriable ReTunFaultSignalled = False"

datatype connect_outcome =
    OutConnected | OutReconnect | OutFatalError connect_error | OutShutdown | OutTunFault

datatype session_action =
    ActBreak | ActFatal client_error | ActTunChannelClosed tun_task | ActTunFault | ActReconnect
  | ActReconnectNow

text \<open>The text of a synthesised error is left out: \<open>InadmissibleMessage\<close> stands for it.\<close>

definition handle_session_exit :: "session_outcome \<Rightarrow> bool \<Rightarrow> session_action" where
  "handle_session_exit outcome cancelled =
     (if cancelled then ActBreak
      else
        case so_exit outcome of
          ExitShutdown \<Rightarrow> ActBreak
        | ExitTunClosed task \<Rightarrow> ActTunChannelClosed task
        | ExitTunFault \<Rightarrow> ActTunFault
        | ExitProtocolError \<Rightarrow>
            ActFatal (case so_error outcome of Some err \<Rightarrow> err | None \<Rightarrow> CeProtocolViolation InadmissibleMessage)
        | ExitPermissionDenied \<Rightarrow>
            ActFatal (case so_error outcome of Some err \<Rightarrow> err | None \<Rightarrow> CePermissionDenied KOther)
        | ExitUdpUpgradeRequired \<Rightarrow>
            ActFatal (case so_error outcome of Some err \<Rightarrow> err | None \<Rightarrow> CeUdpUpgradeRequired)
        | ExitTcpClosed \<Rightarrow> ActReconnect
        | ExitIdleTimeout \<Rightarrow> ActReconnect
        | ExitRemoteClose _ \<Rightarrow> ActReconnect
        | ExitConnectionError \<Rightarrow> ActReconnect
        | ExitNetworkChanged \<Rightarrow> ActReconnectNow)"

section \<open>State\<close>

datatype runtime_event =
    RtConnecting u64 | RtReconnectFailed u64 connect_error | RtReconnectScheduled u64 nat | RtNetworkChanged

text \<open>\<open>rt_control\<close>: the command channel is open.  Delays are nanoseconds, reported in milliseconds.\<close>

record client_runtime =
  rt_backoff :: reconnect_backoff
  rt_attempt :: u64
  rt_cancelled :: bool
  rt_tun_fault :: bool
  rt_control :: bool
  rt_events :: "runtime_event list"

definition client_runtime_new :: "nat \<Rightarrow> nat \<Rightarrow> bool \<Rightarrow> client_runtime" where
  "client_runtime_new reconnect_min reconnect_max control =
     \<lparr>rt_backoff = reconnect_backoff_new reconnect_min reconnect_max, rt_attempt = 0,
      rt_cancelled = False, rt_tun_fault = False, rt_control = control, rt_events = []\<rparr>"

record signals =
  sg_tun_fault :: bool
  sg_shutdown :: bool

text \<open>What a turn's waits end with.  A command is \<open>Some None\<close> when the command channel closed; it is
  \<open>None\<close> when the wait ended otherwise: the attempt finished, the delay passed.\<close>

record runtime_input =
  ri_signals :: signals
  ri_connect_signals :: signals
  ri_connect_command :: "client_command option option"
  ri_result :: "(unit, connect_error) result"
  ri_session_signals :: signals
  ri_session_control :: bool
  ri_session :: session_outcome
  ri_random :: u64
  ri_sleep_signals :: signals
  ri_sleep_command :: "client_command option option"

definition raise_signals :: "signals \<Rightarrow> client_runtime \<Rightarrow> client_runtime" where
  "raise_signals sg rt =
     rt\<lparr>rt_tun_fault := rt_tun_fault rt \<or> sg_tun_fault sg, rt_cancelled := rt_cancelled rt \<or> sg_shutdown sg\<rparr>"

definition rt_emit :: "runtime_event \<Rightarrow> client_runtime \<Rightarrow> client_runtime" where
  "rt_emit e rt = rt\<lparr>rt_events := rt_events rt @ [e]\<rparr>"

text \<open>What \<open>recv_control\<close> yields: nothing once the channel is closed.\<close>

definition recv_control ::
    "client_command option option \<Rightarrow> client_runtime \<Rightarrow> client_runtime \<times> client_command option option" where
  "recv_control command rt =
     (if \<not> rt_control rt then (rt, None)
      else (if command = Some None then rt\<lparr>rt_control := False\<rparr> else rt, command))"

section \<open>Operations\<close>

definition handle_connect_command ::
    "client_command option \<Rightarrow> client_runtime \<Rightarrow> client_runtime \<times> connect_outcome" where
  "handle_connect_command command rt =
     (case command of
        Some CommandNetworkChanged \<Rightarrow> (rt_emit RtNetworkChanged rt, OutReconnect)
      | _ \<Rightarrow> (rt\<lparr>rt_cancelled := True\<rparr>, OutShutdown))"

definition schedule_reconnect :: "runtime_input \<Rightarrow> u64 \<Rightarrow> client_runtime \<Rightarrow> client_runtime" where
  "schedule_reconnect i next_attempt rt =
     (let (backoff, delay) = next_delay (ri_random i) (rt_backoff rt);
          rt = rt\<lparr>rt_backoff := backoff\<rparr>;
          rt = rt_emit (RtReconnectScheduled next_attempt (min (delay div 1000000) (2 ^ 64 - 1))) rt;
          rt = raise_signals (ri_sleep_signals i) rt
      in if rt_tun_fault rt \<or> rt_cancelled rt then rt
         else
           case recv_control (ri_sleep_command i) rt of
             (rt, None) \<Rightarrow> rt
           | (rt, Some (Some CommandNetworkChanged)) \<Rightarrow> rt_emit RtNetworkChanged rt
           | (rt, Some _) \<Rightarrow> rt\<lparr>rt_cancelled := True\<rparr>)"

definition try_connect :: "runtime_input \<Rightarrow> client_runtime \<Rightarrow> client_runtime \<times> connect_outcome" where
  "try_connect i rt =
     (let rt = raise_signals (ri_signals i) rt in
      if rt_tun_fault rt then (rt, OutTunFault)
      else if rt_cancelled rt then (rt, OutShutdown)
      else
        let rt = rt\<lparr>rt_attempt := saturating_add_u64 (rt_attempt rt) 1\<rparr>;
            rt = rt_emit (RtConnecting (rt_attempt rt)) rt;
            rt = raise_signals (ri_connect_signals i) rt
        in
        if rt_tun_fault rt then (rt, OutTunFault)
        else
          case recv_control (ri_connect_command i) rt of
            (rt, Some command) \<Rightarrow> handle_connect_command command rt
          | (rt, None) \<Rightarrow>
              (case ri_result i of
                 Inr _ \<Rightarrow> (rt, OutConnected)
               | Inl err \<Rightarrow>
                   if rt_cancelled rt then (rt, OutShutdown)
                   else if \<not> is_retriable err then (rt, OutFatalError err)
                   else
                     let rt = rt_emit (RtReconnectFailed (rt_attempt rt) err) rt
                     in (schedule_reconnect i (rt_attempt rt + 1) rt, OutReconnect)))"

text \<open>One turn of the loop of \<open>run_sessions\<close>, with the result when the loop breaks.\<close>

definition runtime_turn ::
    "runtime_input \<Rightarrow> client_runtime \<Rightarrow> client_runtime \<times> (unit, runtime_error) result option" where
  "runtime_turn i rt =
     (case try_connect i rt of
        (rt, OutConnected) \<Rightarrow>
          (let rt = rt\<lparr>rt_backoff := backoff_reset (rt_backoff rt)\<rparr>;
               rt = raise_signals (ri_session_signals i) rt;
               rt = rt\<lparr>rt_control := rt_control rt \<and> ri_session_control i\<rparr>
           in case handle_session_exit (ri_session i) (rt_cancelled rt) of
                ActBreak \<Rightarrow> (rt, Some (Ok ()))
              | ActFatal err \<Rightarrow> (rt, Some (Err (ReSession err)))
              | ActTunChannelClosed task \<Rightarrow> (rt, Some (Err (ReTunChannelClosed task)))
              | ActTunFault \<Rightarrow> (rt, Some (Err ReTunFaultSignalled))
              | ActReconnect \<Rightarrow> (schedule_reconnect i (rt_attempt rt + 1) rt, None)
              | ActReconnectNow \<Rightarrow> (rt, None))
      | (rt, OutReconnect) \<Rightarrow> (rt, None)
      | (rt, OutFatalError err) \<Rightarrow> (rt, Some (Err (ReConnect err)))
      | (rt, OutShutdown) \<Rightarrow> (rt, Some (Ok ()))
      | (rt, OutTunFault) \<Rightarrow> (rt, Some (Err ReTunFaultSignalled)))"

text \<open>\<open>None\<close>: the loop is still running after the given turns.\<close>

fun run_sessions ::
    "client_runtime \<Rightarrow> runtime_input list \<Rightarrow> (client_runtime \<times> (unit, runtime_error) result) option" where
  "run_sessions rt [] = None"
| "run_sessions rt (i # rest) =
     (case runtime_turn i rt of
        (rt, Some r) \<Rightarrow> Some (rt, r)
      | (rt, None) \<Rightarrow> run_sessions rt rest)"

section \<open>Causes\<close>

text \<open>The ends of a session after which the client is to connect again.\<close>

definition reconnecting_exit :: "session_exit \<Rightarrow> bool" where
  "reconnecting_exit exit \<longleftrightarrow>
     exit \<in> {ExitTcpClosed, ExitIdleTimeout, ExitConnectionError, ExitNetworkChanged} \<or> (\<exists>code. exit = ExitRemoteClose code)"

text \<open>What may be the result of a turn from \<open>rt\<close> to \<open>rt1\<close>: \<open>None\<close> to go on, or the result of the
  runtime.\<close>

definition turn_cause :: "runtime_input \<Rightarrow> client_runtime \<Rightarrow> client_runtime \<Rightarrow> (unit, runtime_error) result option \<Rightarrow> bool" where
  "turn_cause i rt rt1 out \<longleftrightarrow>
     (let session_ran = snd (try_connect i rt) = OutConnected \<and> ri_result i = Ok ();
          exit = so_exit (ri_session i)
      in case out of
           None \<Rightarrow>
             session_ran \<and> reconnecting_exit exit \<or>
             snd (try_connect i rt) = OutReconnect \<and>
               (rt_control rt \<and> ri_connect_command i = Some (Some CommandNetworkChanged) \<or>
                (\<exists>err. ri_result i = Err err \<and> is_retriable err))
         | Some (Inr _) \<Rightarrow> rt_cancelled rt1 \<or> session_ran \<and> exit = ExitShutdown
         | Some (Inl (ReConnect err)) \<Rightarrow> ri_result i = Err err \<and> \<not> is_retriable err
         | Some (Inl (ReSession err)) \<Rightarrow>
             session_ran \<and> exit \<in> {ExitProtocolError, ExitPermissionDenied, ExitUdpUpgradeRequired} \<and>
             so_error (ri_session i) \<in> {None, Some err}
         | Some (Inl (ReTunChannelClosed task)) \<Rightarrow> session_ran \<and> exit = ExitTunClosed task
         | Some (Inl ReTunFaultSignalled) \<Rightarrow> rt_tun_fault rt1 \<or> session_ran \<and> exit = ExitTunFault)"

section \<open>Turns\<close>

lemma raise_signals_simps [simp]:
  "rt_tun_fault (raise_signals sg rt) = (rt_tun_fault rt \<or> sg_tun_fault sg)"
  "rt_cancelled (raise_signals sg rt) = (rt_cancelled rt \<or> sg_shutdown sg)"
  "rt_control (raise_signals sg rt) = rt_control rt"
  "rt_events (raise_signals sg rt) = rt_events rt"
  by (simp_all add: raise_signals_def)

lemma rt_emit_simps [simp]:
  "rt_tun_fault (rt_emit e rt) = rt_tun_fault rt" "rt_cancelled (rt_emit e rt) = rt_cancelled rt"
  "rt_control (rt_emit e rt) = rt_control rt" "rt_events (rt_emit e rt) = rt_events rt @ [e]"
  by (simp_all add: rt_emit_def)

text \<open>A delay ends in cancellation when a stop arrives during it.\<close>

lemma schedule_reconnect_stops:
  assumes "rt_control rt" "ri_sleep_command i \<in> {Some (Some CommandStop), Some None}"
  shows "rt_cancelled (schedule_reconnect i n rt) \<or> rt_tun_fault (schedule_reconnect i n rt)"
  using assms by (auto simp: schedule_reconnect_def recv_control_def Let_def split_beta)

lemma schedule_reconnect_keeps:
  "rt_cancelled rt \<Longrightarrow> rt_cancelled (schedule_reconnect i n rt)"
  "rt_tun_fault rt \<Longrightarrow> rt_tun_fault (schedule_reconnect i n rt)"
  by (auto simp: schedule_reconnect_def Let_def split_beta)

lemma turn_when_stopped:
  assumes "rt_cancelled rt \<or> rt_tun_fault rt"
  obtains rt' r where "runtime_turn i rt = (rt', Some r)" "r = Ok () \<or> r = Err ReTunFaultSignalled"
    "rt_events rt' = rt_events rt"
  using assms
  by (intro that [of "raise_signals (ri_signals i) rt"
        "if rt_tun_fault (raise_signals (ri_signals i) rt) then Err ReTunFaultSignalled else Ok ()"])
    (auto simp: runtime_turn_def try_connect_def Let_def)

text \<open>The shape of a turn: it was stopped, took a command, failed to connect, or ran a session.\<close>

lemma try_connect_cases:
  obtains (stopped) rt' where
      "try_connect i rt = (rt', OutTunFault) \<and> rt_tun_fault rt' \<or> try_connect i rt = (rt', OutShutdown) \<and> rt_cancelled rt'"
  | (network) rt' where "try_connect i rt = (rt', OutReconnect)" "ri_connect_command i = Some (Some CommandNetworkChanged)"
      "rt_control rt" "\<exists>n. rt_events rt' = rt_events rt @ [RtConnecting n, RtNetworkChanged]"
  | (fatal) rt' err where "try_connect i rt = (rt', OutFatalError err)" "ri_result i = Err err" "\<not> is_retriable err"
      "ri_connect_command i = None \<or> \<not> rt_control rt"
  | (failed) n rt1 err where "try_connect i rt = (schedule_reconnect i n rt1, OutReconnect)" "rt_control rt1 = rt_control rt"
      "ri_result i = Err err" "is_retriable err"
      "ri_connect_command i = None \<or> \<not> rt_control rt"
  | (connected) rt' n where "try_connect i rt = (rt', OutConnected)" "ri_result i = Ok ()" "rt_control rt' = rt_control rt"
      "ri_connect_command i = None \<or> \<not> rt_control rt" "rt_events rt' = rt_events rt @ [RtConnecting n]"
proof -
  let ?rt = "raise_signals (ri_signals i) rt"
  let ?c = "raise_signals (ri_connect_signals i) (rt_emit (RtConnecting (saturating_add_u64 (rt_attempt ?rt) 1))
    (?rt\<lparr>rt_attempt := saturating_add_u64 (rt_attempt ?rt) 1\<rparr>))"
  show ?thesis
  proof (cases "rt_tun_fault ?rt \<or> rt_cancelled ?rt \<or> rt_tun_fault ?c")
    case True
    then have "\<exists>rt'. try_connect i rt = (rt', OutTunFault) \<and> rt_tun_fault rt' \<or> try_connect i rt = (rt', OutShutdown) \<and> rt_cancelled rt'"
      by (auto simp: try_connect_def Let_def rt_emit_def)
    then show ?thesis using stopped by blast
  next
    case running: False
    note open_turn = try_connect_def Let_def recv_control_def rt_emit_def handle_connect_command_def
    show ?thesis
    proof (cases "if rt_control rt then ri_connect_command i else None")
      case (Some command)
      then have control: "rt_control rt" "ri_connect_command i = Some command" by (auto split: if_splits)
      show ?thesis
      proof (cases "command = Some CommandNetworkChanged")
        case True
        then have "\<exists>rt'. try_connect i rt = (rt', OutReconnect) \<and> (\<exists>n. rt_events rt' = rt_events rt @ [RtConnecting n, RtNetworkChanged])"
          using running control by (simp add: open_turn)
        then show ?thesis using network control True by blast
      next
        case False
        then have "\<exists>rt'. try_connect i rt = (rt', OutShutdown) \<and> rt_cancelled rt'"
          using running control by (cases command; (cases "the command")?) (auto simp: open_turn split: client_command.splits)
        then show ?thesis using stopped by blast
      qed
    next
      case None
      then have quiet: "ri_connect_command i = None \<or> \<not> rt_control rt" by (auto split: if_splits)
      have recv: "recv_control (ri_connect_command i) ?c = (?c, None)"
        using quiet by (auto simp: recv_control_def rt_emit_def)
      show ?thesis
      proof (cases "ri_result i")
        case (Inr u)
        then have "try_connect i rt = (?c, OutConnected)" using running recv by (simp add: try_connect_def Let_def)
        then show ?thesis by (rule connected) (use quiet Inr in simp_all)
      next
        case (Inl err)
        consider "rt_cancelled ?c" | "\<not> rt_cancelled ?c" "\<not> is_retriable err" | "\<not> rt_cancelled ?c" "is_retriable err" by blast
        then show ?thesis
        proof cases
          case 1
          then have "try_connect i rt = (?c, OutShutdown) \<and> rt_cancelled ?c"
            using running recv Inl by (simp add: try_connect_def Let_def)
          then show ?thesis using stopped by blast
        next
          case 2
          then have "try_connect i rt = (?c, OutFatalError err)" using running recv Inl by (simp add: try_connect_def Let_def)
          then show ?thesis using fatal 2 quiet Inl by blast
        next
          case 3
          then have "try_connect i rt = (schedule_reconnect i (rt_attempt ?c + 1) (rt_emit (RtReconnectFailed (rt_attempt ?c) err) ?c), OutReconnect)"
            using running recv Inl by (simp add: try_connect_def Let_def rt_emit_def)
          then show ?thesis by (rule failed [where err = err]) (use quiet Inl 3 in simp_all)
        qed
      qed
    qed
  qed
qed

text \<open>A turn that schedules a further attempt and is told to stop meanwhile leaves the runtime
  cancelled.\<close>

lemma turn_sleep_stops:
  assumes turn: "runtime_turn i rt = (rt1, None)" and control: "rt_control rt" "ri_session_control i"
    and stop: "ri_sleep_command i \<in> {Some (Some CommandStop), Some None}"
    and scheduled: "RtReconnectScheduled a d \<in> set (drop (length (rt_events rt)) (rt_events rt1))"
  shows "rt_cancelled rt1 \<or> rt_tun_fault rt1"
proof (rule try_connect_cases [of i rt])
  fix rt' assume "try_connect i rt = (rt', OutTunFault) \<and> rt_tun_fault rt' \<or> try_connect i rt = (rt', OutShutdown) \<and> rt_cancelled rt'"
  then show ?thesis using turn by (auto simp: runtime_turn_def)
next
  fix rt' assume "try_connect i rt = (rt', OutReconnect)" "\<exists>n. rt_events rt' = rt_events rt @ [RtConnecting n, RtNetworkChanged]"
  then show ?thesis using turn scheduled by (auto simp: runtime_turn_def)
next
  fix rt' err assume "try_connect i rt = (rt', OutFatalError err)"
  then show ?thesis using turn by (simp add: runtime_turn_def)
next
  fix n rt2 assume "try_connect i rt = (schedule_reconnect i n rt2, OutReconnect)" "rt_control rt2 = rt_control rt"
  then show ?thesis using turn schedule_reconnect_stops [of rt2 i n] control stop by (simp add: runtime_turn_def)
next
  fix rt' n assume conn: "try_connect i rt = (rt', OutConnected)" "rt_control rt' = rt_control rt"
    "rt_events rt' = rt_events rt @ [RtConnecting n]"
  define rt3 where "rt3 = raise_signals (ri_session_signals i) (rt'\<lparr>rt_backoff := backoff_reset (rt_backoff rt')\<rparr>)"
  define rt2 where "rt2 = rt3\<lparr>rt_control := rt_control rt3 \<and> ri_session_control i\<rparr>"
  have rt2: "rt_control rt2" "rt_events rt2 = rt_events rt @ [RtConnecting n]"
    using conn control by (simp_all add: rt2_def rt3_def)
  have "runtime_turn i rt = (case handle_session_exit (ri_session i) (rt_cancelled rt2) of
      ActBreak \<Rightarrow> (rt2, Some (Ok ())) | ActFatal err \<Rightarrow> (rt2, Some (Err (ReSession err)))
    | ActTunChannelClosed task \<Rightarrow> (rt2, Some (Err (ReTunChannelClosed task)))
    | ActTunFault \<Rightarrow> (rt2, Some (Err ReTunFaultSignalled))
    | ActReconnect \<Rightarrow> (schedule_reconnect i (rt_attempt rt2 + 1) rt2, None) | ActReconnectNow \<Rightarrow> (rt2, None))"
    unfolding runtime_turn_def conn(1) rt2_def rt3_def Let_def by simp
  then show ?thesis
    using turn rt2 scheduled schedule_reconnect_stops [of rt2 i "rt_attempt rt2 + 1"] stop by (auto split: session_action.splits)
qed

lemma turn_connect_command_stops:
  assumes "rt_control rt" "ri_connect_command i \<in> {Some (Some CommandStop), Some None}"
  shows "snd (runtime_turn i rt) = Some (Ok ()) \<or> snd (runtime_turn i rt) = Some (Err ReTunFaultSignalled)"
  by (rule try_connect_cases [of i rt]) (use assms in \<open>auto simp: runtime_turn_def\<close>)

lemma session_exit_action:
  "case handle_session_exit outcome cancelled of
     ActBreak \<Rightarrow> cancelled \<or> so_exit outcome = ExitShutdown
   | ActFatal err \<Rightarrow> so_exit outcome \<in> {ExitProtocolError, ExitPermissionDenied, ExitUdpUpgradeRequired} \<and>
       so_error outcome \<in> {None, Some err}
   | ActTunChannelClosed task \<Rightarrow> so_exit outcome = ExitTunClosed task
   | ActTunFault \<Rightarrow> so_exit outcome = ExitTunFault
   | _ \<Rightarrow> reconnecting_exit (so_exit outcome)"
  by (simp add: handle_session_exit_def reconnecting_exit_def split: session_exit.split option.split)

lemma turn_for_cause:
  assumes "runtime_turn i rt = (rt1, out)"
  shows "turn_cause i rt rt1 out"
proof (rule try_connect_cases [of i rt])
  fix rt' n assume conn: "try_connect i rt = (rt', OutConnected)" "ri_result i = Ok ()"
  then show ?thesis
    using assms session_exit_action [where outcome = "ri_session i" and cancelled = "rt_cancelled rt' \<or> sg_shutdown (ri_session_signals i)"]
    by (auto simp: runtime_turn_def turn_cause_def Let_def split: session_action.splits)
qed (use assms in \<open>auto simp: runtime_turn_def turn_cause_def\<close>)

section \<open>A run\<close>

text \<open>A server that refuses connections, and a stop during the first delay.\<close>

definition sample_quiet :: signals where
  "sample_quiet = \<lparr>sg_tun_fault = False, sg_shutdown = False\<rparr>"

definition sample_refused :: "client_command option option \<Rightarrow> runtime_input" where
  "sample_refused command =
     \<lparr>ri_signals = sample_quiet, ri_connect_signals = sample_quiet, ri_connect_command = None,
      ri_result = Err (CnTcpConnect KConnectionRefused), ri_session_signals = sample_quiet, ri_session_control = True,
      ri_session = outcome_from_exit ExitTcpClosed, ri_random = 0, ri_sleep_signals = sample_quiet,
      ri_sleep_command = command\<rparr>"

section \<open>Properties\<close>

text \<open>C22: The client runtime can be stopped, and it ends exactly for cause.  A turn during which the
  runtime was cancelled or a TUN fault was signalled, or whose delay was interrupted by a stop command
  or by the closing of the command channel, is the last one to attempt a connection: the loop returns
  in it or in the next.  A stop command during a connection attempt ends the runtime in that turn.
  A turn that ends the loop without error was cancelled or its session was shut down; a connection error is
  one of this attempt that is not worth retrying; a session error is that of a session that ended in
  a protocol error, a denied permission or a required upgrade that failed; a TUN error was signalled or
  is that of the session's end.  A turn that goes on does so only after a session that
  ended otherwise, an error worth retrying or a change of the network.  So an ordinary end of a session
  (TCP closed, idle, closed by the server, connection lost, network changed) never ends a runtime that was
  not cancelled and saw no TUN fault.\<close>

theorem stop_ends_runtime:
  assumes turn: "runtime_turn i rt = (rt1, out)"
  shows "(rt_cancelled rt1 \<or> rt_tun_fault rt1 \<or>
      rt_control rt \<and> ri_session_control i \<and> ri_sleep_command i \<in> {Some (Some CommandStop), Some None} \<and>
        (\<exists>a d. RtReconnectScheduled a d \<in> set (drop (length (rt_events rt)) (rt_events rt1))) \<longrightarrow>
      (\<exists>rt2 r. run_sessions rt (i # j # rest) = Some (rt2, r) \<and> rt_events rt2 = rt_events rt1)) \<and>
    (rt_control rt \<and> ri_connect_command i \<in> {Some (Some CommandStop), Some None} \<longrightarrow>
      out \<in> {Some (Ok ()), Some (Err ReTunFaultSignalled)}) \<and>
    turn_cause i rt rt1 out"
proof (intro conjI impI, goal_cases)
  case 1
  show ?case
  proof (cases out)
    case None
    then have "rt_cancelled rt1 \<or> rt_tun_fault rt1" using 1 turn_sleep_stops [of i rt rt1] turn by blast
    then obtain rt2 r where "runtime_turn j rt1 = (rt2, Some r)" "rt_events rt2 = rt_events rt1"
      by (rule turn_when_stopped)
    then show ?thesis using turn None by auto
  next
    case (Some r)
    then show ?thesis using turn by auto
  qed
next
  case 2
  then show ?case using turn_connect_command_stops [of rt i] turn by auto
next
  case 3
  show ?case using turn by (rule turn_for_cause)
qed

theorem stop_ends_runtime_witness:
  "\<exists>rt2 r. run_sessions (client_runtime_new 1000000000 60000000000 True)
     [sample_refused (Some (Some CommandStop)), sample_refused None] = Some (rt2, r) \<and>
   rt_events rt2 = [RtConnecting 1, RtReconnectFailed 1 (CnTcpConnect KConnectionRefused), RtReconnectScheduled 2 500]"
proof -
  let ?rt = "client_runtime_new 1000000000 60000000000 True" and ?i = "sample_refused (Some (Some CommandStop))"
  obtain rt1 out where turn: "runtime_turn ?i ?rt = (rt1, out)" by fastforce
  have "rt_events (fst (runtime_turn ?i ?rt)) =
      [RtConnecting 1, RtReconnectFailed 1 (CnTcpConnect KConnectionRefused), RtReconnectScheduled 2 500]"
    "rt_cancelled (fst (runtime_turn ?i ?rt))"
    by (simp_all add: runtime_turn_def try_connect_def schedule_reconnect_def client_runtime_new_def sample_refused_def
        sample_quiet_def recv_control_def raise_signals_def rt_emit_def next_delay_def reconnect_backoff_new_def
        DURATION_MAX_def saturating_add_u64_def Let_def)
  with stop_ends_runtime [OF turn, of "sample_refused None" "[]"] show ?thesis by (simp add: turn)
qed

end
