(* ===== verification/Spec2Isabelle.thy ===== *)
theory Spec2Isabelle
  imports Classifier Registration Client_Runtime
begin

text \<open>
  A verification development of SLT, a VPN tunnel.  A client and a server exchange IP packets over a
  TLS connection and, once both sides agree, over encrypted UDP datagrams (UDP-QSP) that look like
  QUIC.  The sources are the crates \<open>slt-core\<close>, \<open>slt-server\<close> and \<open>slt-client\<close> under \<open>src/\<close>.

  \<^bold>\<open>How the parts interact.\<close>  The server tells SLT clients from web traffic by a token in the TLS
  ClientHello (the classifier).  A claimed connection carries framed messages over TLS: \<open>AUTH\<close>, then an
  established phase.  The server's session manager starts one session per authenticated client and
  enters it in the registry, from which packets are routed by address and by connection ID.  The
  client registers a connection ID (\<open>REGISTER_CID\<close>), both sides derive UDP-QSP keys, probe the UDP
  path and switch to it; on errors they fall back to TCP.  The client's runtime reconnects after failures.

  \<^bold>\<open>Conventions.\<close>  \<open>Result\<close> is a sum: \<open>Ok\<close> is \<open>Inr\<close>, \<open>Err\<close> is \<open>Inl\<close>.  Integers of fixed width that
  go on the wire or may overflow are words; lengths and points in time are natural numbers.  A stateful
  method is a computation that passes a record of the state and gives a state also when it fails
  (\<open>Session_Monad\<close>).  An \<open>unreachable!\<close> or \<open>expect\<close> is an error value of its own, so that never
  reaching it can be stated.  What the outside decides is an argument: environments are records of
  functions indexed by a call counter, and what a wait ended with is an input of the step.

  \<^bold>\<open>Theories\<close>, in the order of their dependencies:
  \<^item> \<open>Slt_Prelude\<close>: integers, bytes, results, shared lemmas.
  \<^item> \<open>Wire_Types\<close> (\<open>proto/types.rs\<close>, \<open>types/cid.rs\<close>, \<open>types/client_id.rs\<close>), \<open>Payloads\<close>
    (\<open>proto/payloads\<close>), \<open>Framing\<close> (\<open>proto/framing.rs\<close>, \<open>proto/message.rs\<close>), \<open>Admissibility\<close>
    (\<open>proto/admissibility.rs\<close>, \<open>proto/auth.rs\<close>, \<open>packet.rs\<close>): the wire format.  Locales state what a
    byte-valued enumeration, a payload codec and a self-delimiting stream promise; every codec of the
    program is an interpretation.  Decoders accept exactly the encodings, the stream decoder decides
    early and for good, and validation separates the phases.
  \<^item> \<open>Tcp_Channel\<close> (\<open>transport/tcp.rs\<close>): a reader receives exactly the messages written, for every
    segmentation of the stream; TLS key updates are requested once per interval.
  \<^item> \<open>Packet_Number\<close>, \<open>Qsp_Packet\<close>, \<open>Qsp_Keys\<close>, \<open>Replay_Window\<close>, \<open>Qsp_Session\<close>, \<open>Key_Update\<close>
    (\<open>crypto/udp_qsp\<close>): packet protection and its inverse for numbers within half a window of the expected one (and what
    happens to one-byte numbers outside it), HKDF against RFC 5869 up to 254 blocks, the replay ring as a
    refinement of a set, single acceptance, unique nonces, and delivery through key updates over a lossy link.
  \<^item> \<open>Client_Hello\<close> (\<open>crypto/client_hello.rs\<close>), \<open>Classifier\<close> (\<open>classifier.rs\<close>): the token verifies
    exactly when it was filled in, and verdicts are stable under more input.
  \<^item> \<open>Udp_Io\<close> (\<open>transport/udp_qsp_io.rs\<close>): batching sends and coalesced receives neither lose,
    repeat nor reorder datagrams, and batching equals plain sending.
  \<^item> \<open>Registry\<close> (\<open>registry.rs\<close>, the checks of \<open>router.rs\<close>): routes lead to live sessions.
  \<^item> \<open>Server_Session\<close>, \<open>Server_Loop\<close>, \<open>Server_Safety\<close>, \<open>Server_Run\<close> (\<open>slt-server/src/sessions\<close>): the
    handlers, the event loop, its invariant by triples over the handlers, and the properties of whole
    runs: transports, peers, source addresses, the end of a session.
  \<^item> \<open>Client_State\<close>, \<open>Client_Session\<close>, \<open>Client_Loop\<close>, \<open>Client_Safety\<close>, \<open>Client_Run\<close>
    (\<open>slt-client/src/runtime/session\<close>, \<open>runtime/register.rs\<close>, \<open>transport/udp_qsp.rs\<close>): the same for the client.
  \<^item> \<open>Registration\<close>: the registration of a UDP path across both ends yields two sessions that talk to
    each other.
  \<^item> \<open>Authentication\<close> (\<open>slt-server/src/auth\<close>), \<open>Auth_Run\<close> (\<open>slt-client/src/auth.rs\<close>, \<open>error.rs\<close>): the
    allowlist, the auth phase at both ends and the session manager.  Sessions start only for verified
    clients, a listed client gets in, and every running session can be shut down.
  \<^item> \<open>Client_Runtime\<close> (\<open>slt-client/src/runtime/mod.rs\<close>): the loop of connections and sessions; it
    stops when told, and what every turn ends or goes on with has its cause.
  \<^item> This theory: messages over UDP-QSP, which joins framing with packet protection.

  \<^bold>\<open>Third-party code\<close> is a parameter with its documented behaviour as named hypotheses: \<open>crypto_ok\<close>
  for the primitives of BoringSSL (output lengths, keys of the right length are accepted, opening
  inverts sealing), a length for HMAC, Ed25519 (what is signed verifies, signatures have 64 bytes), the
  TLS exporter (both ends see one challenge), sockets and the TUN device (an operation succeeds or
  fails with a kind).  Each property that uses them has a witness at a concrete instance.

  \<^bold>\<open>Loops.\<close>  There is no fuel.  Loops over a buffer terminate because a step consumes bytes, the key
  rotation because its threshold grows, HKDF because its output grows.  A loop that waits for the
  outside recurses over the list of what arrives; for these, runs of any length are covered, and where the
  result is an option, \<open>None\<close> means that it still waits.

  \<^bold>\<open>Not modelled.\<close>
  \<^item> The sockets' own loops: accepting and proxying TCP connections (\<open>slt-server/src/tcp\<close>), the QUIC
    front door with its NAT towards the web server (\<open>quic.rs\<close>), the TUN tasks, the router task.  They move
    bytes between operating-system handles around the decisions that are modelled.
  \<^item> TLS contexts, handshakes, certificates, name resolution, QUIC discovery and socket protection: calls of BoringSSL,
    quiche, tokio and the platform.
  \<^item> Configuration: parsing, defaults and validation of files, key material wrappers and serde
    adapters; they run once, before the program.  The configured values are arguments.
  \<^item> Task supervision, metrics tasks, logging, the observers of the client, Android bindings, the command-line tool
    (\<open>slt-cli\<close>), the test programs (\<open>slt-tools\<close>) and the vendored libraries.
  \<^item> \<open>slt-server/src/udp_qsp.rs\<close>, a table of keys that the running server does not use.
  \<^item> Scheduling inside a handler: a handler runs to its end before the next event, as it does in the
    sources, where each session is one task.  The tables that tasks share are covered by their own step
    relations (\<open>registry_step\<close>, \<open>manager_step\<close>); inside a session's run other sessions may change the
    registry between turns.  A shutdown signal of a server session is taken between turns; the effects of
    a handler that it interrupts at an \<open>await\<close> are not followed.
  \<^item> The number of segments a socket allows per transmit is fixed per backend, and the retry loop of a
    send that would block is its final result.
\<close>

section \<open>Messages over UDP-QSP\<close>

text \<open>C6: A message that fits the limits, sent over UDP-QSP under a packet number that lies within half
  a window of the one the peer expects, is received as the same message: protecting it succeeds, and a
  peer with the matching keys opens the packet and decodes the padded plaintext to it, whatever padding
  header protection required.\<close>

theorem udp_message_roundtrip:
  assumes "crypto_ok cr" "udp_qsp_keys_wf a" "ks_rx b = ks_tx a"
    and "within_half_window pn expected_pn (packet_number_len pn)"
    and "message_within limits m"
  shows "\<exists>pkt opened. protect cr a dcid pn key_phase (message_bytes m) = Ok pkt \<and>
           open_packet_bytes cr b (length dcid) pkt expected_pn = Ok opened \<and>
           decode_padded_message (op_payload opened) limits = Ok (Some (m, message_bytes m))"
proof -
  obtain pkt where pkt: "protect cr a dcid pn key_phase (message_bytes m) = Ok pkt"
      "open_packet_bytes cr b (length dcid) pkt expected_pn =
         Ok \<lparr>op_pn = pn, op_pn_len = packet_number_len pn, op_key_phase = key_phase,
             op_payload = padded_plaintext (length dcid) pn (message_bytes m)\<rparr>"
    using protect_open [OF assms(1-4)] by blast
  moreover have "decode_padded_message (padded_plaintext (length dcid) pn (message_bytes m)) limits =
      Ok (Some (m, message_bytes m))"
    using decode_message_front [OF assms(5)]
    by (simp add: decode_padded_message_def padded_plaintext_def)
  ultimately show ?thesis by auto
qed

theorem udp_message_roundtrip_witness:
  "\<exists>pkt opened. protect plain_crypto sample_keys [1, 2] 300 True (message_bytes (Ping [9])) = Ok pkt \<and>
     open_packet_bytes plain_crypto sample_keys (length [1, 2 :: u8]) pkt 280 = Ok opened \<and>
     decode_padded_message (op_payload opened) (message_limits_from_mtu 1400) =
       Ok (Some (Ping [9], message_bytes (Ping [9])))"
  by (rule udp_message_roundtrip [OF plain_crypto_ok sample_keys_wf])
    (simp_all add: sample_keys_def within_half_window_def packet_number_len_def message_within_def
      message_limits_from_mtu_def le_max_iff_disj)

end
